(* ===== verification/Prelude.thy ===== *)
theory Prelude
  imports Main "HOL-Library.Word" "HOL-Library.State_Monad"
begin

text \<open>
  Shared vocabulary of the development: the fixed-width integer types of
  \<^verbatim>\<open>src/include/common/types.hpp\<close>, the collections of rewrite rules the
  component theories fill, the equations that run a monadic program step by step, and the
  generic lemmas on words that several components use.

  The firmware is built for a 32-bit RISC-V core, so \<^verbatim>\<open>std::uintptr_t\<close> and
  \<^verbatim>\<open>std::size_t\<close> are 32 bits wide here, and their arithmetic wraps.
\<close>

unbundle bit_operations_syntax

section \<open>Types and collections\<close>

type_synonym u8 = "8 word"
type_synonym u16 = "16 word"
type_synonym u32 = "32 word"
type_synonym u64 = "64 word"
type_synonym usize = "32 word"
type_synonym uintptr = "32 word"

named_theorems reg_offsets \<open>values of the register offsets and bit masks of the drivers\<close>
named_theorems io_defs \<open>definitions of the register helpers of the drivers\<close>
named_theorems frame \<open>what an operation leaves unchanged\<close>

section \<open>Running a monadic program\<close>

text \<open>
  C++ statement sequences are written in the \<open>do\<close> notation of the library's state
  monad. \<open>or_return m f\<close> is the idiom
  \<^verbatim>\<open>auto r = m; if (r.is_err()) { return r; } f(r.value())\<close>
  that every driver of the firmware uses.
\<close>

abbreviation return :: "'a \<Rightarrow> ('s, 'a) state" where
  "return x \<equiv> State_Monad.return x"

definition or_return ::
  "('s, 'e + 'a) state \<Rightarrow> ('a \<Rightarrow> ('s, 'e + 'b) state) \<Rightarrow> ('s, 'e + 'b) state" where
  "or_return m f = do { r \<leftarrow> m; case r of Inl e \<Rightarrow> return (Inl e) | Inr a \<Rightarrow> f a }"

lemma run_bind [simp]:
  "run_state (State_Monad.bind m f) s =
     run_state (f (fst (run_state m s))) (snd (run_state m s))"
  by (simp add: case_prod_beta)

declare run_state_bind [simp del]

lemma run_if [simp]:
  "run_state (if c then m else n) s = (if c then run_state m s else run_state n s)"
  by simp

lemma run_case_sum [simp]:
  "run_state (case x of Inl e \<Rightarrow> f e | Inr a \<Rightarrow> g a) s =
     (case x of Inl e \<Rightarrow> run_state (f e) s | Inr a \<Rightarrow> run_state (g a) s)"
  by (cases x) simp_all

lemma run_case_option [simp]:
  "run_state (case x of None \<Rightarrow> m | Some a \<Rightarrow> g a) s =
     (case x of None \<Rightarrow> run_state m s | Some a \<Rightarrow> run_state (g a) s)"
  by (cases x) simp_all

lemma run_or_return:
  "run_state (or_return m f) s =
     (case fst (run_state m s) of
        Inl e \<Rightarrow> (Inl e, snd (run_state m s))
      | Inr a \<Rightarrow> run_state (f a) (snd (run_state m s)))"
  by (simp add: or_return_def split: sum.splits)

lemma run_or_return_err [simp]:
  "fst (run_state m s) = Inl e \<Longrightarrow>
     run_state (or_return m f) s = (Inl e, snd (run_state m s))"
  by (simp add: run_or_return)

lemma run_or_return_ok [simp]:
  "fst (run_state m s) = Inr a \<Longrightarrow>
     run_state (or_return m f) s = run_state (f a) (snd (run_state m s))"
  by (simp add: run_or_return)

lemma or_return_ok_iff:
  "fst (run_state (or_return m f) s) = Inr c \<longleftrightarrow>
     (\<exists>a. fst (run_state m s) = Inr a \<and> fst (run_state (f a) (snd (run_state m s))) = Inr c)"
  by (simp add: run_or_return split: sum.splits)

text \<open>The laws that regroup a program.\<close>

lemma or_return_bind:
  "or_return (State_Monad.bind m f) g = State_Monad.bind m (\<lambda>x. or_return (f x) g)"
  by (simp add: or_return_def)

lemma or_return_return: "or_return (return (Inr a)) f = f a"
  by (simp add: or_return_def)

lemma or_return_err: "or_return (return (Inl e)) f = return (Inl e)"
  by (simp add: or_return_def)

lemmas or_return_laws = or_return_bind or_return_return or_return_err

section \<open>Words\<close>

text \<open>The read-modify-write pattern of the drivers: \<open>(cur & ~mask) | (value & mask)\<close>.\<close>

lemma rmw_masked: "((c AND NOT m) OR (v AND m)) AND m = v AND m" for c v m :: "'a::len word"
  by (rule bit_word_eqI) (auto simp: bit_simps)

lemma rmw_unmasked:
  "((c AND NOT m) OR (v AND m)) AND NOT m = c AND NOT m" for c v m :: "'a::len word"
  by (rule bit_word_eqI) (auto simp: bit_simps)

lemma u32_bound: "unat w < 2 ^ 32" for w :: u32
  by (rule order_less_le_trans [OF unsigned_less]) simp

lemma word_nonzero_bit:
  assumes "w AND 2 ^ n \<noteq> (0 :: 'a::len word)"
  shows "bit w n"
  using assms by (metis and_exp_eq_0_iff_not_bit)

text \<open>Indexed registers: word \<open>i\<close> of an array lies \<open>4 * i\<close> bytes after its base.\<close>

lemma unat_times_4: "unat i < 2 ^ 30 \<Longrightarrow> unat (i * 4) = unat i * 4" for i :: u32
  by (simp add: unat_word_ariths)

lemma index_addr_inj:
  "unat i < 2 ^ 30 \<Longrightarrow> unat j < 2 ^ 30 \<Longrightarrow> a + i * 4 = a + j * 4 \<longleftrightarrow> i = j" for a i j :: u32
proof
  assume "unat i < 2 ^ 30" "unat j < 2 ^ 30" "a + i * 4 = a + j * 4"
  then have "unat (i * 4) = unat (j * 4)" by simp
  then have "unat i = unat j" using \<open>unat i < 2 ^ 30\<close> \<open>unat j < 2 ^ 30\<close> by (simp add: unat_times_4)
  then show "i = j" by (simp add: word_unat_eq_iff)
qed simp

text \<open>Increasing lists of numbers, checked pair by pair.\<close>

lemma increasing_pair:
  "sorted_wrt (<) (x # y # zs) \<longleftrightarrow> x < y \<and> sorted_wrt (<) (y # zs)" for x y :: nat
  by auto

text \<open>The two 16-bit halves of a 32-bit register.\<close>

definition high_half :: "u32 \<Rightarrow> u16" where
  "high_half w = ucast (drop_bit 16 w)"

definition low_half :: "u32 \<Rightarrow> u16" where
  "low_half w = ucast w"

definition of_halves :: "u16 \<Rightarrow> u16 \<Rightarrow> u32" where
  "of_halves hi lo = push_bit 16 (ucast hi) OR ucast lo"

lemma high_half_of_halves [simp]: "high_half (of_halves hi lo) = hi"
  by (rule bit_word_eqI) (auto simp: high_half_def of_halves_def bit_simps dest: bit_imp_le_length)

lemma low_half_of_halves [simp]: "low_half (of_halves hi lo) = lo"
  by (rule bit_word_eqI) (auto simp: low_half_def of_halves_def bit_simps dest: bit_imp_le_length)

lemma of_halves_split [simp]: "of_halves (high_half w) (low_half w) = w"
  by (rule bit_word_eqI)
    (auto simp: high_half_def low_half_def of_halves_def bit_simps dest: bit_imp_le_length)

lemma high_half_or: "high_half (push_bit 16 (ucast m) OR w) = m OR high_half w"
  by (rule bit_word_eqI) (auto simp: high_half_def bit_simps dest: bit_imp_le_length)

lemma low_half_or: "low_half (push_bit 16 (ucast (m :: u16)) OR w) = low_half w"
  by (rule bit_word_eqI) (auto simp: low_half_def bit_simps dest: bit_imp_le_length)

section \<open>Down-counting timeouts\<close>

text \<open>
  The polling loops count down with \<^verbatim>\<open>if (--timeout == 0) return TIMEOUT\<close>. A start
  value of 0 wraps to \<open>2^32 - 1\<close> first, so the number of tests such a loop makes is
  \<open>poll_budget\<close>.
\<close>

definition poll_budget :: "u32 \<Rightarrow> nat" where
  "poll_budget t = (if t = 0 then 2 ^ 32 else unat t)"

lemma poll_budget_pos [simp]: "0 < poll_budget t"
  by (simp add: poll_budget_def unat_gt_0)

lemma poll_budget_last: "t - 1 = (0 :: u32) \<Longrightarrow> poll_budget t = 1"
  by (simp add: poll_budget_def)

lemma poll_budget_step: "t - 1 \<noteq> (0 :: u32) \<Longrightarrow> poll_budget t = Suc (poll_budget (t - 1))"
proof -
  assume "t - 1 \<noteq> 0"
  show ?thesis
  proof (cases "t = 0")
    case True
    then show ?thesis
      by (simp add: poll_budget_def unsigned_minus_1_eq_mask mask_eq_exp_minus_1)
  next
    case False
    with \<open>t - 1 \<noteq> 0\<close> show ?thesis
      by (simp add: poll_budget_def unat_minus_one unat_gt_0)
  qed
qed

lemma countdown_measure: "t - 1 \<noteq> (0 :: u32) \<Longrightarrow> poll_budget (t - 1) < poll_budget t"
  by (simp add: poll_budget_step)

end
