(* ===== verification/Common.thy ===== *)
theory Common
  imports Prelude
begin

text \<open>
  The shared headers of the firmware, \<^verbatim>\<open>src/include/common/\<close>: the error codes
  and the result class of \<^verbatim>\<open>error.hpp\<close>, the simpler result class of
  \<^verbatim>\<open>types.hpp\<close>, the \<^verbatim>\<open>Bitflags\<close> template and
  \<^verbatim>\<open>StaticRef\<close>.

  The drivers only ever build a result with \<^verbatim>\<open>Ok(v)\<close> or with
  \<^verbatim>\<open>Err(e)\<close> for an \<^verbatim>\<open>e\<close> other than
  \<^verbatim>\<open>SUCCESS\<close>, so their models use the sum type \<open>mcu_error + 'a\<close>. The
  locale \<open>result_api\<close> is the contract that justifies it: for a class that keeps the
  contract, the early-return idiom of the code computes the sum's bind.
\<close>

section \<open>Outcomes that are not values\<close>

text \<open>
  \<open>Looping\<close> is a deliberate \<^verbatim>\<open>while (1) {}\<close>, \<open>Undefined\<close> a read of
  storage that holds no object, \<open>NoFuel\<close> a polling loop cut off by the model's fuel.
\<close>

datatype 'a outcome = Returned 'a | Looping | Undefined | NoFuel

fun then_run :: "('s, 'a outcome) state \<Rightarrow> ('a \<Rightarrow> ('s, 'b outcome) state) \<Rightarrow> ('s, 'b outcome) state"
where
  "then_run m f = do {
     r \<leftarrow> m;
     case r of Returned a \<Rightarrow> f a | Looping \<Rightarrow> return Looping
       | Undefined \<Rightarrow> return Undefined | NoFuel \<Rightarrow> return NoFuel }"

declare then_run.simps [simp del]

lemma run_then_run:
  "run_state (then_run m f) s =
     (case fst (run_state m s) of
        Returned a \<Rightarrow> run_state (f a) (snd (run_state m s))
      | Looping \<Rightarrow> (Looping, snd (run_state m s))
      | Undefined \<Rightarrow> (Undefined, snd (run_state m s))
      | NoFuel \<Rightarrow> (NoFuel, snd (run_state m s)))"
  by (simp add: then_run.simps split: outcome.splits)

lemma run_then_run_returned [simp]:
  "fst (run_state m s) = Returned a \<Longrightarrow>
     run_state (then_run m f) s = run_state (f a) (snd (run_state m s))"
  by (simp add: run_then_run)

section \<open>Error codes\<close>

datatype mcu_error =
    SUCCESS
  | GENERIC_EXCEPTION | INVALID_PARAMETER | TIMEOUT | NOT_SUPPORTED
  | LC_INVALID_STATE | LC_TRANSITION_FAILED
  | OTP_READ_ERROR | OTP_WRITE_ERROR | OTP_LOCKED
  | FLASH_READ_ERROR | FLASH_WRITE_ERROR | FLASH_ERASE_ERROR | FLASH_INVALID_ADDRESS
  | IMAGE_INVALID_SIGNATURE | IMAGE_INVALID_MANIFEST | IMAGE_VERIFICATION_FAILED
  | MBOX_LOCK_FAILED | MBOX_TIMEOUT | MBOX_CMD_FAILED | MBOX_INVALID_RESPONSE
  | I3C_INIT_FAILED | I3C_TRANSFER_FAILED
  | BOOT_FAILED | BOOT_INVALID_RESET_REASON

text \<open>The numeric value of the scoped enumeration, as \<^verbatim>\<open>static_cast<uint32_t>\<close> reads it.\<close>

fun error_code :: "mcu_error \<Rightarrow> u32" where
  "error_code SUCCESS = 0"
| "error_code GENERIC_EXCEPTION = 0x0001"
| "error_code INVALID_PARAMETER = 0x0002"
| "error_code TIMEOUT = 0x0003"
| "error_code NOT_SUPPORTED = 0x0004"
| "error_code LC_INVALID_STATE = 0x0100"
| "error_code LC_TRANSITION_FAILED = 0x0101"
| "error_code OTP_READ_ERROR = 0x0200"
| "error_code OTP_WRITE_ERROR = 0x0201"
| "error_code OTP_LOCKED = 0x0202"
| "error_code FLASH_READ_ERROR = 0x0300"
| "error_code FLASH_WRITE_ERROR = 0x0301"
| "error_code FLASH_ERASE_ERROR = 0x0302"
| "error_code FLASH_INVALID_ADDRESS = 0x0303"
| "error_code IMAGE_INVALID_SIGNATURE = 0x0400"
| "error_code IMAGE_INVALID_MANIFEST = 0x0401"
| "error_code IMAGE_VERIFICATION_FAILED = 0x0402"
| "error_code MBOX_LOCK_FAILED = 0x0500"
| "error_code MBOX_TIMEOUT = 0x0501"
| "error_code MBOX_CMD_FAILED = 0x0502"
| "error_code MBOX_INVALID_RESPONSE = 0x0503"
| "error_code I3C_INIT_FAILED = 0x0600"
| "error_code I3C_TRANSFER_FAILED = 0x0601"
| "error_code BOOT_FAILED = 0x0700"
| "error_code BOOT_INVALID_RESET_REASON = 0x0701"

type_synonym 'a result = "mcu_error + 'a"

abbreviation Ok :: "'a \<Rightarrow> 'a result" where "Ok \<equiv> Inr"
abbreviation Err :: "mcu_error \<Rightarrow> 'a result" where "Err \<equiv> Inl"

section \<open>The contract of a result class\<close>

locale result_core =
  fixes ok :: "'v \<Rightarrow> 'r"
    and err :: "'e \<Rightarrow> 'r"
    and valid :: "'e \<Rightarrow> bool"
    and is_ok :: "'r \<Rightarrow> bool"
    and is_err :: "'r \<Rightarrow> bool"
    and error :: "'r \<Rightarrow> 'e"
    and unwrap :: "'r \<Rightarrow> 'v outcome"
  assumes ok_is_ok: "is_ok (ok v)"
    and ok_not_err: "\<not> is_err (ok v)"
    and ok_unwrap: "unwrap (ok v) = Returned v"
    and err_not_ok: "valid e \<Longrightarrow> \<not> is_ok (err e)"
    and err_is_err: "valid e \<Longrightarrow> is_err (err e)"
    and err_error: "valid e \<Longrightarrow> error (err e) = e"
    and err_unwrap: "valid e \<Longrightarrow> unwrap (err e) = Looping"
begin

definition embed :: "'e + 'v \<Rightarrow> 'r" where
  "embed x = (case x of Inl e \<Rightarrow> err e | Inr v \<Rightarrow> ok v)"

definition valid_sum :: "'e + 'v \<Rightarrow> bool" where
  "valid_sum x = (case x of Inl e \<Rightarrow> valid e | Inr v \<Rightarrow> True)"

lemma embed_is_ok: "valid_sum x \<Longrightarrow> is_ok (embed x) \<longleftrightarrow> (\<exists>v. x = Inr v)"
  by (cases x) (simp_all add: embed_def valid_sum_def ok_is_ok err_not_ok)

lemma embed_is_err: "valid_sum x \<Longrightarrow> is_err (embed x) \<longleftrightarrow> (\<exists>e. x = Inl e)"
  by (cases x) (simp_all add: embed_def valid_sum_def ok_not_err err_is_err)

lemma embed_unwrap:
  "valid_sum x \<Longrightarrow> unwrap (embed x) = (case x of Inl e \<Rightarrow> Looping | Inr v \<Rightarrow> Returned v)"
  by (cases x) (simp_all add: embed_def valid_sum_def ok_unwrap err_unwrap)

lemma embed_inj: "valid_sum x \<Longrightarrow> valid_sum y \<Longrightarrow> embed x = embed y \<Longrightarrow> x = y"
  by (cases x; cases y; simp add: embed_def valid_sum_def)
    (metis err_error, metis ok_is_ok err_not_ok, metis ok_is_ok err_not_ok,
      metis ok_unwrap outcome.inject)

text \<open>
  The early-return idiom: \<^verbatim>\<open>if (r.is_err()) return Err(r.error());\<close> and then the
  rest of the function on the value.
\<close>

lemma early_return:
  assumes "valid_sum x"
  shows "(if is_err (embed x) then Returned (err (error (embed x)))
          else case unwrap (embed x) of Returned v \<Rightarrow> Returned (embed (f v)) | _ \<Rightarrow> Looping)
       = Returned (embed (case x of Inl e \<Rightarrow> Inl e | Inr v \<Rightarrow> f v))"
  using assms
  by (cases x)
    (simp_all add: embed_def valid_sum_def err_is_err err_error ok_not_err ok_unwrap)

end

text \<open>The value-carrying classes also have \<^verbatim>\<open>unwrap_or\<close>.\<close>

locale result_api = result_core ok err valid is_ok is_err error unwrap
  for ok :: "'v \<Rightarrow> 'r" and err :: "'e \<Rightarrow> 'r" and valid is_ok is_err error unwrap +
  fixes unwrap_or :: "'r \<Rightarrow> 'v \<Rightarrow> 'v"
  assumes ok_unwrap_or: "unwrap_or (ok v) d = v"
    and err_unwrap_or: "valid e \<Longrightarrow> unwrap_or (err e) d = d"
begin

lemma embed_unwrap_or:
  "valid_sum x \<Longrightarrow> unwrap_or (embed x) d = (case x of Inl e \<Rightarrow> d | Inr v \<Rightarrow> v)"
  by (cases x) (simp_all add: embed_def valid_sum_def ok_unwrap_or err_unwrap_or)

end

section \<open>The result class of error.hpp\<close>

text \<open>
  \<open>storage\<close> is the raw buffer: \<open>None\<close> until an object is constructed in it. A
  moved-from result keeps its buffer but clears \<open>has_value\<close>.
\<close>

record 'a mcu_result =
  storage :: "'a option"
  has_value :: bool
  error_field :: mcu_error

definition result_default :: "'a mcu_result" where
  "result_default = \<lparr>storage = None, has_value = False, error_field = SUCCESS\<rparr>"

definition result_Ok :: "'a \<Rightarrow> 'a mcu_result" where
  "result_Ok v = (let r = result_default in
     r\<lparr>storage := Some v, has_value := True, error_field := SUCCESS\<rparr>)"

definition result_Err :: "mcu_error \<Rightarrow> 'a mcu_result" where
  "result_Err e = result_default\<lparr>error_field := e\<rparr>"

definition result_is_ok :: "'a mcu_result \<Rightarrow> bool" where
  "result_is_ok r \<longleftrightarrow> error_field r = SUCCESS \<and> has_value r"

definition result_is_err :: "'a mcu_result \<Rightarrow> bool" where
  "result_is_err r \<longleftrightarrow> error_field r \<noteq> SUCCESS"

definition result_error :: "'a mcu_result \<Rightarrow> mcu_error" where
  "result_error r = error_field r"

text \<open>Reading the buffer, as \<^verbatim>\<open>*reinterpret_cast<T*>(&storage_)\<close> does.\<close>

definition result_value :: "'a mcu_result \<Rightarrow> 'a outcome" where
  "result_value r = (case storage r of Some v \<Rightarrow> Returned v | None \<Rightarrow> Undefined)"

text \<open>
  The move constructor: the new object and what is left of the old one. A result that
  does not hold a value copies only the error.
\<close>

definition result_move :: "'a mcu_result \<Rightarrow> 'a mcu_result \<times> 'a mcu_result" where
  "result_move other =
     (if has_value other
      then (\<lparr>storage = storage other, has_value = True, error_field = error_field other\<rparr>,
            other\<lparr>has_value := False\<rparr>)
      else (\<lparr>storage = None, has_value = False, error_field = error_field other\<rparr>, other))"

text \<open>
  \<^verbatim>\<open>operator=(McuResult&&)\<close> on two distinct objects: the target's old value is
  destroyed, its buffer is only written when the source holds a value.
\<close>

definition result_move_assign ::
  "'a mcu_result \<Rightarrow> 'a mcu_result \<Rightarrow> 'a mcu_result \<times> 'a mcu_result" where
  "result_move_assign this other =
     (let this1 = (if has_value this then this\<lparr>storage := None\<rparr> else this);
          this2 = this1\<lparr>has_value := has_value other, error_field := error_field other\<rparr>
      in if has_value this2
         then (this2\<lparr>storage := storage other\<rparr>, other\<lparr>has_value := False\<rparr>)
         else (this2, other))"

text \<open>\<^verbatim>\<open>unwrap() &&\<close>: the value, and the object it was moved out of.\<close>

definition result_unwrap :: "'a mcu_result \<Rightarrow> 'a outcome \<times> 'a mcu_result" where
  "result_unwrap r =
     (if result_is_err r \<or> \<not> has_value r then (Looping, r)
      else (result_value r, r\<lparr>has_value := False\<rparr>))"

definition result_unwrap_or :: "'a mcu_result \<Rightarrow> 'a \<Rightarrow> 'a outcome \<times> 'a mcu_result" where
  "result_unwrap_or r d =
     (if result_is_ok r \<and> has_value r then (result_value r, r\<lparr>has_value := False\<rparr>)
      else (Returned d, r))"

text \<open>\<^verbatim>\<open>value() &&\<close>: no check, and the object gives the value up.\<close>

definition result_take :: "'a mcu_result \<Rightarrow> 'a outcome \<times> 'a mcu_result" where
  "result_take r = (result_value r, r\<lparr>has_value := False\<rparr>)"

text \<open>The object invariant: a result that says it holds a value has one in its buffer.\<close>

definition result_wf :: "'a mcu_result \<Rightarrow> bool" where
  "result_wf r \<longleftrightarrow> (has_value r \<longrightarrow> storage r \<noteq> None)"

lemmas result_defs = result_default_def result_Ok_def result_Err_def result_is_ok_def
  result_is_err_def result_error_def result_value_def result_move_def
  result_move_assign_def result_unwrap_def result_unwrap_or_def result_take_def result_wf_def
  Let_def

interpretation mcu: result_api
  result_Ok "result_Err :: mcu_error \<Rightarrow> 'a mcu_result" "\<lambda>e. e \<noteq> SUCCESS"
  result_is_ok result_is_err result_error "\<lambda>r. fst (result_unwrap r)"
  "\<lambda>r d. case fst (result_unwrap_or r d) of Returned v \<Rightarrow> v | _ \<Rightarrow> d"
  by unfold_locales (simp_all add: result_defs)

text \<open>
  Every result object the firmware can hold is built by the constructors above and by
  moving other such objects around.
\<close>

inductive result_reachable :: "'a mcu_result \<Rightarrow> bool" where
  reach_default: "result_reachable result_default"
| reach_Ok: "result_reachable (result_Ok v)"
| reach_Err: "result_reachable (result_Err e)"
| reach_move: "result_reachable r \<Longrightarrow> result_move r = (a, b) \<Longrightarrow> result_reachable a"
| reach_moved: "result_reachable r \<Longrightarrow> result_move r = (a, b) \<Longrightarrow> result_reachable b"
| reach_assign: "result_reachable r \<Longrightarrow> result_reachable q \<Longrightarrow>
     result_move_assign r q = (a, b) \<Longrightarrow> result_reachable a"
| reach_assigned: "result_reachable r \<Longrightarrow> result_reachable q \<Longrightarrow>
     result_move_assign r q = (a, b) \<Longrightarrow> result_reachable b"
| reach_take: "result_reachable r \<Longrightarrow> result_reachable (snd (result_take r))"
| reach_unwrap: "result_reachable r \<Longrightarrow> result_reachable (snd (result_unwrap r))"
| reach_unwrap_or: "result_reachable r \<Longrightarrow> result_reachable (snd (result_unwrap_or r d))"

definition result_inv :: "'a mcu_result \<Rightarrow> bool" where
  "result_inv r \<longleftrightarrow> result_wf r \<and> (has_value r \<longrightarrow> error_field r = SUCCESS)"

lemma result_inv_move: "result_inv r \<Longrightarrow> result_move r = (a, b) \<Longrightarrow> result_inv a \<and> result_inv b"
  by (auto simp: result_inv_def result_defs split: if_splits)

lemma result_inv_assign:
  "result_inv r \<Longrightarrow> result_inv q \<Longrightarrow> result_move_assign r q = (a, b) \<Longrightarrow> result_inv a \<and> result_inv b"
  by (auto simp: result_inv_def result_defs split: if_splits)

lemma result_reachable_inv: "result_reachable r \<Longrightarrow> result_inv r"
proof (induction rule: result_reachable.induct)
  case (reach_move r a b)
  then show ?case using result_inv_move by blast
next
  case (reach_moved r a b)
  then show ?case using result_inv_move by blast
next
  case (reach_assign r q a b)
  then show ?case using result_inv_assign by blast
next
  case (reach_assigned r q a b)
  then show ?case using result_inv_assign by blast
qed (auto simp: result_inv_def result_defs)

section \<open>McuResult<void>\<close>

record void_result =
  void_error_field :: mcu_error

definition void_Ok :: void_result where
  "void_Ok = \<lparr>void_error_field = SUCCESS\<rparr>"

definition void_Err :: "mcu_error \<Rightarrow> void_result" where
  "void_Err e = \<lparr>void_error_field = e\<rparr>"

definition void_is_ok :: "void_result \<Rightarrow> bool" where
  "void_is_ok r \<longleftrightarrow> void_error_field r = SUCCESS"

definition void_is_err :: "void_result \<Rightarrow> bool" where
  "void_is_err r \<longleftrightarrow> void_error_field r \<noteq> SUCCESS"

definition void_unwrap :: "void_result \<Rightarrow> unit outcome" where
  "void_unwrap r = (if void_is_err r then Looping else Returned ())"

lemmas void_defs = void_Ok_def void_Err_def void_is_ok_def void_is_err_def void_unwrap_def

interpretation void: result_core
  "\<lambda>_ :: unit. void_Ok" void_Err "\<lambda>e. e \<noteq> SUCCESS" void_is_ok void_is_err
  void_error_field void_unwrap
  by unfold_locales (simp_all add: void_defs)

section \<open>The result class of types.hpp\<close>

text \<open>
  \<open>dv\<close> and \<open>de\<close> are the value-initialised members \<^verbatim>\<open>T{}\<close> and
  \<^verbatim>\<open>E{}\<close>.
\<close>

record ('a, 'e) plain_result =
  value_field :: 'a
  plain_error_field :: 'e
  is_ok_field :: bool

definition plain_Ok :: "'a \<Rightarrow> 'e \<Rightarrow> 'a \<Rightarrow> ('a, 'e) plain_result" where
  "plain_Ok dv de v =
     \<lparr>value_field = dv, plain_error_field = de, is_ok_field = False\<rparr>
       \<lparr>value_field := v, is_ok_field := True\<rparr>"

definition plain_Err :: "'a \<Rightarrow> 'e \<Rightarrow> 'e \<Rightarrow> ('a, 'e) plain_result" where
  "plain_Err dv de e =
     \<lparr>value_field = dv, plain_error_field = de, is_ok_field = False\<rparr>
       \<lparr>plain_error_field := e, is_ok_field := False\<rparr>"

definition plain_is_ok :: "('a, 'e) plain_result \<Rightarrow> bool" where
  "plain_is_ok r = is_ok_field r"

definition plain_is_err :: "('a, 'e) plain_result \<Rightarrow> bool" where
  "plain_is_err r \<longleftrightarrow> \<not> is_ok_field r"

definition plain_unwrap :: "('a, 'e) plain_result \<Rightarrow> 'a outcome" where
  "plain_unwrap r = (if \<not> is_ok_field r then Looping else Returned (value_field r))"

definition plain_unwrap_or :: "('a, 'e) plain_result \<Rightarrow> 'a \<Rightarrow> 'a" where
  "plain_unwrap_or r d = (if is_ok_field r then value_field r else d)"

lemmas plain_defs = plain_Ok_def plain_Err_def plain_is_ok_def plain_is_err_def
  plain_unwrap_def plain_unwrap_or_def

interpretation plain: result_api
  "plain_Ok dv de" "plain_Err dv de" "\<lambda>_. True" plain_is_ok plain_is_err
  plain_error_field plain_unwrap plain_unwrap_or for dv de
  by unfold_locales (simp_all add: plain_defs)

text \<open>Its specialisation for \<^verbatim>\<open>void\<close> has no value member.\<close>

record 'e plain_void_result =
  plain_void_error_field :: 'e
  plain_void_is_ok_field :: bool

definition plain_void_Ok :: "'e \<Rightarrow> 'e plain_void_result" where
  "plain_void_Ok de =
     \<lparr>plain_void_error_field = de, plain_void_is_ok_field = False\<rparr>\<lparr>plain_void_is_ok_field := True\<rparr>"

definition plain_void_Err :: "'e \<Rightarrow> 'e \<Rightarrow> 'e plain_void_result" where
  "plain_void_Err de e =
     \<lparr>plain_void_error_field = de, plain_void_is_ok_field = False\<rparr>
       \<lparr>plain_void_error_field := e, plain_void_is_ok_field := False\<rparr>"

definition plain_void_is_ok :: "'e plain_void_result \<Rightarrow> bool" where
  "plain_void_is_ok r = plain_void_is_ok_field r"

definition plain_void_is_err :: "'e plain_void_result \<Rightarrow> bool" where
  "plain_void_is_err r \<longleftrightarrow> \<not> plain_void_is_ok_field r"

definition plain_void_unwrap :: "'e plain_void_result \<Rightarrow> unit outcome" where
  "plain_void_unwrap r = (if \<not> plain_void_is_ok_field r then Looping else Returned ())"

definition plain_error :: "('a, 'e) plain_result \<Rightarrow> 'e" where
  "plain_error r = plain_error_field r"

definition plain_void_error :: "'e plain_void_result \<Rightarrow> 'e" where
  "plain_void_error r = plain_void_error_field r"

lemmas plain_void_defs = plain_void_Ok_def plain_void_Err_def plain_void_is_ok_def
  plain_void_is_err_def plain_void_unwrap_def plain_void_error_def

interpretation plain_void: result_core
  "\<lambda>_ :: unit. plain_void_Ok de" "plain_void_Err de" "\<lambda>_. True" plain_void_is_ok plain_void_is_err
  plain_void_error plain_void_unwrap for de
  by unfold_locales (simp_all add: plain_void_defs)

text \<open>\<^verbatim>\<open>panic\<close> of types.hpp.\<close>

definition common_panic :: "'a outcome" where
  "common_panic = Looping"

section \<open>Properties\<close>

text \<open>
  C32. However a \<^verbatim>\<open>McuResult\<close> was built, moved and moved from, reading it with
  \<^verbatim>\<open>unwrap\<close> or \<^verbatim>\<open>unwrap_or\<close> never reads storage that holds no
  object, and it is never success and error at once.
\<close>

theorem mcu_result_memory_safe:
  assumes "result_reachable r"
  shows "fst (result_unwrap r) \<noteq> Undefined \<and> fst (result_unwrap_or r d) \<noteq> Undefined \<and>
    \<not> (result_is_ok r \<and> result_is_err r) \<and> (has_value r \<longrightarrow> result_is_ok r)"
  using result_reachable_inv [OF assms] by (auto simp: result_inv_def result_defs)

theorem mcu_result_memory_safe_witness:
  "fst (result_unwrap (snd (result_unwrap (result_Ok (5 :: nat))))) \<noteq> Undefined \<and>
   fst (result_unwrap_or (snd (result_unwrap (result_Ok (5 :: nat)))) 7) \<noteq> Undefined"
  using mcu_result_memory_safe [OF reach_unwrap [OF reach_Ok [of "5 :: nat"]], of 7] by simp

text \<open>
  The early-return idiom of the drivers, \<^verbatim>\<open>if (r.is_err()) return Err(r.error());\<close>
  followed by a use of \<^verbatim>\<open>r.value()\<close>, computes the bind of the sum type: the error
  passes through unchanged, a value reaches the rest of the function, and the value read
  is always there. It holds for every error other than \<^verbatim>\<open>SUCCESS\<close>, which the class
  takes for no error.
\<close>

theorem early_return_is_bind:
  assumes "case x of Inl e \<Rightarrow> e \<noteq> SUCCESS | Inr v \<Rightarrow> True"
  shows "(let r = case x of Inl e \<Rightarrow> result_Err e | Inr v \<Rightarrow> result_Ok v
          in if result_is_err r then Returned (result_Err (result_error r))
             else case fst (result_unwrap r) of
               Returned v \<Rightarrow> Returned (case f v of Inl e \<Rightarrow> result_Err e | Inr w \<Rightarrow> result_Ok w)
             | _ \<Rightarrow> Looping) =
    Returned (case x of Inl e \<Rightarrow> result_Err e
              | Inr v \<Rightarrow> (case f v of Inl e \<Rightarrow> result_Err e | Inr w \<Rightarrow> result_Ok w))"
  using assms
  by (cases x) (simp_all add: Let_def mcu.err_is_err mcu.err_error mcu.ok_not_err mcu.ok_unwrap)

theorem early_return_is_bind_witness:
  "(let r = result_Err TIMEOUT :: nat mcu_result
    in if result_is_err r then Returned (result_Err (result_error r))
       else case fst (result_unwrap r) of
         Returned v \<Rightarrow> Returned (result_Ok (v + 1)) | _ \<Rightarrow> Looping) = Returned (result_Err TIMEOUT)"
  using early_return_is_bind [of "Inl TIMEOUT :: mcu_error + nat" "\<lambda>v. Inr (v + 1)"]
  by (simp add: Let_def mcu.err_is_err)

end
