(* ===== verification/Flags.thy ===== *)
theory Flags
  imports Common
begin

text \<open>
  The \<^verbatim>\<open>Bitflags<T>\<close> template of
  \<^verbatim>\<open>src/include/common/bitflags.hpp\<close>, for an unsigned \<^verbatim>\<open>T\<close> of any
  width, and the set it stands for: the members are the positions of the one bits.
\<close>

section \<open>Bitflags\<close>

record 't bitflags =
  flag_value :: 't

definition flags_empty :: "'w::len word bitflags" where
  "flags_empty = \<lparr>flag_value = 0\<rparr>"

definition flags_of :: "'w::len word \<Rightarrow> 'w word bitflags" where
  "flags_of v = \<lparr>flag_value = v\<rparr>"

definition flags_bits :: "'w::len word bitflags \<Rightarrow> 'w word" where
  "flags_bits f = flag_value f"

definition flags_is_empty :: "'w::len word bitflags \<Rightarrow> bool" where
  "flags_is_empty f \<longleftrightarrow> flag_value f = 0"

definition flags_is_all :: "'w::len word bitflags \<Rightarrow> bool" where
  "flags_is_all f \<longleftrightarrow> flag_value f = - 1"

definition flags_contains :: "'w::len word bitflags \<Rightarrow> 'w word bitflags \<Rightarrow> bool" where
  "flags_contains f g \<longleftrightarrow> flag_value f AND flag_value g = flag_value g"

definition flags_or :: "'w::len word bitflags \<Rightarrow> 'w word bitflags \<Rightarrow> 'w word bitflags" where
  "flags_or f g = flags_of (flag_value f OR flag_value g)"

definition flags_and :: "'w::len word bitflags \<Rightarrow> 'w word bitflags \<Rightarrow> 'w word bitflags" where
  "flags_and f g = flags_of (flag_value f AND flag_value g)"

definition flags_xor :: "'w::len word bitflags \<Rightarrow> 'w word bitflags \<Rightarrow> 'w word bitflags" where
  "flags_xor f g = flags_of (flag_value f XOR flag_value g)"

definition flags_not :: "'w::len word bitflags \<Rightarrow> 'w word bitflags" where
  "flags_not f = flags_of (NOT (flag_value f))"

definition flags_conversion :: "'w::len word bitflags \<Rightarrow> 'w word" where
  "flags_conversion f = flag_value f"

text \<open>The mutating members; the compound assignments return the object they change.\<close>

definition flags_or_assign :: "'w::len word bitflags \<Rightarrow> 'w word bitflags \<Rightarrow> 'w word bitflags" where
  "flags_or_assign f g = f\<lparr>flag_value := flag_value f OR flag_value g\<rparr>"

definition flags_and_assign :: "'w::len word bitflags \<Rightarrow> 'w word bitflags \<Rightarrow> 'w word bitflags" where
  "flags_and_assign f g = f\<lparr>flag_value := flag_value f AND flag_value g\<rparr>"

definition flags_xor_assign :: "'w::len word bitflags \<Rightarrow> 'w word bitflags \<Rightarrow> 'w word bitflags" where
  "flags_xor_assign f g = f\<lparr>flag_value := flag_value f XOR flag_value g\<rparr>"

definition flags_set :: "'w::len word bitflags \<Rightarrow> 'w word bitflags \<Rightarrow> 'w word bitflags" where
  "flags_set f g = f\<lparr>flag_value := flag_value f OR flag_value g\<rparr>"

definition flags_unset :: "'w::len word bitflags \<Rightarrow> 'w word bitflags \<Rightarrow> 'w word bitflags" where
  "flags_unset f g = f\<lparr>flag_value := flag_value f AND NOT (flag_value g)\<rparr>"

definition flags_toggle :: "'w::len word bitflags \<Rightarrow> 'w word bitflags \<Rightarrow> 'w word bitflags" where
  "flags_toggle f g = f\<lparr>flag_value := flag_value f XOR flag_value g\<rparr>"

lemmas flags_defs = flags_empty_def flags_of_def flags_bits_def flags_is_empty_def
  flags_is_all_def flags_contains_def flags_or_def flags_and_def flags_xor_def
  flags_not_def flags_set_def flags_unset_def flags_toggle_def flags_conversion_def
  flags_or_assign_def flags_and_assign_def flags_xor_assign_def

text \<open>A compound assignment stores what its operator computes.\<close>

lemma flags_assign_ops:
  "flags_or_assign f g = flags_or f g" "flags_and_assign f g = flags_and f g"
  "flags_xor_assign f g = flags_xor f g" "flags_or_assign f g = flags_set f g"
  "flags_xor_assign f g = flags_toggle f g"
  by (simp_all add: flags_defs)

section \<open>The set a flag value stands for\<close>

definition members :: "'w::len word bitflags \<Rightarrow> nat set" where
  "members f = {n. bit (flag_value f) n}"

lemma members_bound: "members f \<subseteq> {..<LENGTH('w)}" for f :: "'w::len word bitflags"
  by (auto simp: members_def dest: bit_imp_le_length)

lemma members_or: "members (flags_or f g) = members f \<union> members g"
  by (auto simp: members_def flags_defs bit_simps)

lemma members_and: "members (flags_and f g) = members f \<inter> members g"
  by (auto simp: members_def flags_defs bit_simps)

lemma members_xor:
  "members (flags_xor f g) = (members f - members g) \<union> (members g - members f)"
  by (auto simp: members_def flags_defs bit_simps)

lemma members_not: "members (flags_not f) = {..<LENGTH('w)} - members f" for f :: "'w::len word bitflags"
  by (auto simp: members_def flags_defs bit_simps)

lemma members_set: "members (flags_set f g) = members f \<union> members g"
  by (auto simp: members_def flags_defs bit_simps)

lemma members_unset: "members (flags_unset f g) = members f - members g"
  by (auto simp: members_def flags_defs bit_simps dest: bit_imp_le_length)

lemma members_toggle:
  "members (flags_toggle f g) = (members f - members g) \<union> (members g - members f)"
  by (auto simp: members_def flags_defs bit_simps)

lemma contains_iff_subset: "flags_contains f g \<longleftrightarrow> members g \<subseteq> members f"
proof
  assume "flags_contains f g"
  then have "flag_value f AND flag_value g = flag_value g" by (simp add: flags_contains_def)
  then show "members g \<subseteq> members f"
    by (auto simp: members_def) (metis bit_and_iff)
next
  assume "members g \<subseteq> members f"
  then show "flags_contains f g"
    by (auto simp: flags_contains_def members_def bit_simps intro!: bit_word_eqI)
qed

lemma is_empty_iff: "flags_is_empty f \<longleftrightarrow> members f = {}"
  by (auto simp: flags_is_empty_def members_def intro!: bit_word_eqI)

lemma is_all_iff: "flags_is_all f \<longleftrightarrow> members f = {..<LENGTH('w)}" for f :: "'w::len word bitflags"
proof
  assume "flags_is_all f"
  then show "members f = {..<LENGTH('w)}"
    by (auto simp: flags_is_all_def members_def bit_simps)
next
  assume *: "members f = {..<LENGTH('w)}"
  have "bit (flag_value f) n = bit (- 1 :: 'w word) n" if "n < LENGTH('w)" for n
    using * that by (auto simp: members_def bit_simps)
  then show "flags_is_all f"
    by (auto simp: flags_is_all_def intro!: bit_word_eqI)
qed

lemma members_inject: "members f = members g \<longleftrightarrow> f = g" for f g :: "'w::len word bitflags"
proof
  assume "members f = members g"
  then have "bit (flag_value f) n = bit (flag_value g) n" for n
    by (auto simp: members_def)
  then have "flag_value f = flag_value g"
    by (auto intro!: bit_word_eqI)
  then show "f = g" by simp
qed simp

section \<open>Properties\<close>

text \<open>
  A \<^verbatim>\<open>Bitflags\<close> value of any width is the set of its one bits: the operators
  are union, intersection, symmetric difference and complement, the mutators insert, remove
  and toggle, \<^verbatim>\<open>contains\<close> is the subset test, and equal sets are equal values.
\<close>

theorem bitflags_are_sets:
  fixes f g :: "'w::len word bitflags"
  shows "members (flags_or f g) = members f \<union> members g \<and>
    members (flags_and f g) = members f \<inter> members g \<and>
    members (flags_xor f g) = (members f - members g) \<union> (members g - members f) \<and>
    members (flags_not f) = {..<LENGTH('w)} - members f \<and>
    members (flags_set f g) = members f \<union> members g \<and>
    members (flags_unset f g) = members f - members g \<and>
    members (flags_toggle f g) = (members f - members g) \<union> (members g - members f) \<and>
    (flags_contains f g \<longleftrightarrow> members g \<subseteq> members f) \<and>
    (flags_is_empty f \<longleftrightarrow> members f = {}) \<and> (flags_is_all f \<longleftrightarrow> members f = {..<LENGTH('w)}) \<and>
    (members f = members g \<longleftrightarrow> f = g)"
  by (simp only: members_or members_and members_xor members_not members_set members_unset
      members_toggle contains_iff_subset is_empty_iff is_all_iff members_inject simp_thms)

end
