(* ===== verification/Machine.thy ===== *)
theory Machine
  imports Common
begin

text \<open>
  The machine the firmware runs on. What answers a load or a store of a memory-mapped
  register is hardware, not code of the repository, so it is a parameter: a \<open>bus\<close> gives,
  for any hardware state \<open>'h\<close>, the value a read returns and the state it leaves, and the
  state a write leaves. Nothing is assumed of it; a read may have side effects and may
  return a different value every time. Theorems that need a register to behave like
  storage say so with \<open>storage_reg\<close>.

  The machine also records every register access in program order (\<open>trace\<close>), the
  characters sent to the UART, the three global pointers of the firmware (each is null or
  the one object the program installs) and the one mutable field of the SoC manager.
\<close>

section \<open>Hardware and machine state\<close>

datatype csr = Mcycle | Mcycleh | Mcause | Mepc | Mscratch

record 'h bus =
  bus_read :: "u32 \<Rightarrow> 'h \<Rightarrow> u32 \<times> 'h"
  bus_write :: "u32 \<Rightarrow> u32 \<Rightarrow> 'h \<Rightarrow> 'h"
  bus_csr :: "csr \<Rightarrow> 'h \<Rightarrow> u32 \<times> 'h"

datatype event = Rd u32 u32 | Wr u32 u32

record 'h mach =
  hw :: 'h
  trace :: "event list"
  uart :: string
  g_writer :: bool
  g_exiter :: bool
  g_fatal_handler :: bool
  soc_counter :: u64

type_synonym ('h, 'a) io = "('h mach, 'a) state"

definition mmio_read :: "'h bus \<Rightarrow> u32 \<Rightarrow> ('h, u32) io" where
  "mmio_read b a = State (\<lambda>s.
     (fst (bus_read b a (hw s)),
      s\<lparr>hw := snd (bus_read b a (hw s)),
        trace := trace s @ [Rd a (fst (bus_read b a (hw s)))]\<rparr>))"

definition mmio_write :: "'h bus \<Rightarrow> u32 \<Rightarrow> u32 \<Rightarrow> ('h, unit) io" where
  "mmio_write b a v = State (\<lambda>s.
     ((), s\<lparr>hw := bus_write b a v (hw s), trace := trace s @ [Wr a v]\<rparr>))"

definition csr_read :: "'h bus \<Rightarrow> csr \<Rightarrow> ('h, u32) io" where
  "csr_read b c = State (\<lambda>s.
     (fst (bus_csr b c (hw s)), s\<lparr>hw := snd (bus_csr b c (hw s))\<rparr>))"

lemma run_mmio_read:
  "run_state (mmio_read b a) s =
     (fst (bus_read b a (hw s)),
      s\<lparr>hw := snd (bus_read b a (hw s)),
        trace := trace s @ [Rd a (fst (bus_read b a (hw s)))]\<rparr>)"
  by (simp add: mmio_read_def)

lemma run_mmio_write:
  "run_state (mmio_write b a v) s =
     ((), s\<lparr>hw := bus_write b a v (hw s), trace := trace s @ [Wr a v]\<rparr>)"
  by (simp add: mmio_write_def)

lemma run_csr_read:
  "run_state (csr_read b c) s =
     (fst (bus_csr b c (hw s)), s\<lparr>hw := snd (bus_csr b c (hw s))\<rparr>)"
  by (simp add: csr_read_def)

lemmas run_mmio = run_mmio_read run_mmio_write run_csr_read

section \<open>Reading a trace\<close>

fun written_to :: "u32 \<Rightarrow> event list \<Rightarrow> u32 list" where
  "written_to a [] = []"
| "written_to a (Wr x v # es) = (if x = a then v # written_to a es else written_to a es)"
| "written_to a (Rd x v # es) = written_to a es"

lemma written_to_append [simp]: "written_to a (xs @ ys) = written_to a xs @ written_to a ys"
  by (induction xs rule: written_to.induct [of _ a]) auto

lemma written_to_reads [simp]: "written_to a (map (Rd x) vs) = []"
  by (induction vs) auto

fun writes :: "event list \<Rightarrow> (u32 \<times> u32) list" where
  "writes [] = []"
| "writes (Wr x v # es) = (x, v) # writes es"
| "writes (Rd x v # es) = writes es"

lemma writes_append [simp]: "writes (xs @ ys) = writes xs @ writes ys"
  by (induction xs rule: writes.induct) auto

lemma writes_reads [simp]: "writes (map (Rd x) vs) = []"
  by (induction vs) auto

section \<open>Registers that behave like storage\<close>

text \<open>
  \<open>storage_reg b a view\<close>: the register at \<open>a\<close> returns what was last written to it and
  nothing but a write to \<open>a\<close> changes it; \<open>view\<close> is its content.
\<close>

definition storage_reg :: "'h bus \<Rightarrow> u32 \<Rightarrow> ('h \<Rightarrow> u32) \<Rightarrow> bool" where
  "storage_reg b a view \<longleftrightarrow>
     (\<forall>h. fst (bus_read b a h) = view h) \<and>
     (\<forall>x h. view (snd (bus_read b x h)) = view h) \<and>
     (\<forall>v h. view (bus_write b a v h) = v) \<and>
     (\<forall>x v h. x \<noteq> a \<longrightarrow> view (bus_write b x v h) = view h)"

lemma storage_read: "storage_reg b a view \<Longrightarrow> fst (bus_read b a h) = view h"
  and storage_read_keeps: "storage_reg b a view \<Longrightarrow> view (snd (bus_read b x h)) = view h"
  and storage_write: "storage_reg b a view \<Longrightarrow> view (bus_write b a v h) = v"
  and storage_write_other:
    "storage_reg b a view \<Longrightarrow> x \<noteq> a \<Longrightarrow> view (bus_write b x v h) = view h"
  by (auto simp: storage_reg_def)

lemmas storage = storage_read storage_read_keeps storage_write storage_write_other

text \<open>A set of registers that all behave so, with one view of all of them.\<close>

definition storage_block :: "'h bus \<Rightarrow> u32 set \<Rightarrow> ('h \<Rightarrow> u32 \<Rightarrow> u32) \<Rightarrow> bool" where
  "storage_block b A view \<longleftrightarrow> (\<forall>a \<in> A. storage_reg b a (\<lambda>h. view h a))"

lemma storage_blockD: "storage_block b A view \<Longrightarrow> a \<in> A \<Longrightarrow> storage_reg b a (\<lambda>h. view h a)"
  by (simp add: storage_block_def)

lemma block_read: "storage_block b A view \<Longrightarrow> a \<in> A \<Longrightarrow> fst (bus_read b a h) = view h a"
  by (drule (1) storage_blockD) (simp add: storage_read)

lemma block_read_keeps:
  "storage_block b A view \<Longrightarrow> a \<in> A \<Longrightarrow> view (snd (bus_read b x h)) a = view h a"
  by (drule (1) storage_blockD) (simp add: storage_read_keeps [where view = "\<lambda>h. view h a"])

lemma block_write:
  "storage_block b A view \<Longrightarrow> a \<in> A \<Longrightarrow>
     view (bus_write b x v h) a = (if x = a then v else view h a)"
  by (drule (1) storage_blockD)
    (simp add: storage_write [where view = "\<lambda>h. view h a"]
      storage_write_other [where view = "\<lambda>h. view h a"])

lemmas block = block_read block_read_keeps block_write

text \<open>Plain memory: every register is storage. The witnesses run on it.\<close>

definition ram_bus :: "(u32 \<Rightarrow> u32) bus" where
  "ram_bus = \<lparr>bus_read = \<lambda>a h. (h a, h), bus_write = \<lambda>a v h. h(a := v), bus_csr = \<lambda>_ h. (0, h)\<rparr>"

lemma ram_bus_sel [simp]:
  "bus_read ram_bus a h = (h a, h)"
  "bus_write ram_bus a v h = h(a := v)"
  "bus_csr ram_bus c h = (0, h)"
  by (simp_all add: ram_bus_def)

lemma ram_storage: "storage_reg ram_bus a (\<lambda>h. h a)"
  by (simp add: storage_reg_def)

lemma ram_block: "storage_block ram_bus A (\<lambda>h. h)"
  by (simp add: storage_block_def ram_storage)

definition start_mach :: "'h \<Rightarrow> 'h mach" where
  "start_mach h = \<lparr>hw = h, trace = [], uart = [], g_writer = False, g_exiter = False, g_fatal_handler = False,
     soc_counter = 0\<rparr>"

lemma start_mach_sel [simp]:
  "hw (start_mach h) = h" "trace (start_mach h) = []" "uart (start_mach h) = []"
  "g_writer (start_mach h) = False" "g_exiter (start_mach h) = False" "g_fatal_handler (start_mach h) = False"
  "soc_counter (start_mach h) = 0"
  by (simp_all add: start_mach_def)

section \<open>The contract of a register block\<close>

text \<open>
  Every driver class of the firmware has the same private helpers over its base address:
  \<^verbatim>\<open>read_reg\<close>, \<^verbatim>\<open>write_reg\<close> and, in some, \<^verbatim>\<open>modify_reg\<close>.
\<close>

locale register_block =
  fixes b :: "'h bus"
    and base :: u32
    and rd :: "u32 \<Rightarrow> ('h, u32) io"
    and wr :: "u32 \<Rightarrow> u32 \<Rightarrow> ('h, unit) io"
  assumes rd_at: "run_state (rd off) s = run_state (mmio_read b (base + off)) s"
    and wr_at: "run_state (wr off v) s = run_state (mmio_write b (base + off) v) s"
begin

lemma rd_value: "fst (run_state (rd off) s) = fst (bus_read b (base + off) (hw s))"
  by (simp add: rd_at run_mmio)

lemma rd_trace: "trace (snd (run_state (rd off) s)) =
    trace s @ [Rd (base + off) (fst (run_state (rd off) s))]"
  by (simp add: rd_at run_mmio)

lemma wr_trace: "trace (snd (run_state (wr off v) s)) = trace s @ [Wr (base + off) v]"
  by (simp add: wr_at run_mmio)

lemma rd_storage:
  "storage_reg b (base + off) view \<Longrightarrow> fst (run_state (rd off) s) = view (hw s)"
  by (simp add: rd_value storage_read)

lemma rd_view: "storage_reg b a view \<Longrightarrow> view (hw (snd (run_state (rd off) s))) = view (hw s)"
  by (simp add: rd_at run_mmio storage_read_keeps)

lemma wr_view:
  "storage_reg b (base + off) view \<Longrightarrow> view (hw (snd (run_state (wr off v) s))) = v"
  by (simp add: wr_at run_mmio storage_write)

lemma wr_view_other:
  "storage_reg b a view \<Longrightarrow> base + off \<noteq> a \<Longrightarrow>
     view (hw (snd (run_state (wr off v) s))) = view (hw s)"
  by (simp add: wr_at run_mmio storage_write_other)

lemma read_back:
  "storage_reg b (base + off) view \<Longrightarrow>
     fst (run_state (do { wr off v; rd off }) s) = v"
  by (simp add: rd_storage wr_view)

end

locale modifiable_block = register_block +
  fixes md :: "u32 \<Rightarrow> u32 \<Rightarrow> u32 \<Rightarrow> ('a, unit) io"
  assumes md_run: "run_state (md off m v) s =
    (let c = fst (run_state (rd off) s)
     in run_state (wr off ((c AND NOT m) OR (v AND m))) (snd (run_state (rd off) s)))"
begin

lemma md_trace:
  "trace (snd (run_state (md off m v) s)) =
     trace s @ [Rd (base + off) (fst (run_state (rd off) s)),
                Wr (base + off) ((fst (run_state (rd off) s) AND NOT m) OR (v AND m))]"
  by (simp add: md_run rd_trace wr_trace Let_def)

lemma md_masked:
  "storage_reg b (base + off) view \<Longrightarrow>
     view (hw (snd (run_state (md off m v) s))) AND m = v AND m"
  by (simp add: md_run wr_view Let_def rmw_masked)

lemma md_unmasked:
  "storage_reg b (base + off) view \<Longrightarrow>
     view (hw (snd (run_state (md off m v) s))) AND NOT m = view (hw s) AND NOT m"
  by (simp add: md_run wr_view rd_storage Let_def rmw_unmasked)

lemma md_view_other:
  "storage_reg b a view \<Longrightarrow> base + off \<noteq> a \<Longrightarrow>
     view (hw (snd (run_state (md off m v) s))) = view (hw s)"
  by (simp add: md_run wr_view_other rd_view Let_def)

end

section \<open>The contract of a bounded polling loop\<close>

text \<open>The value that the \<open>n\<close>-th of a run of reads of one register returns.\<close>

fun polled :: "'h bus \<Rightarrow> u32 \<Rightarrow> nat \<Rightarrow> 'h \<Rightarrow> u32" where
  "polled b a 0 h = fst (bus_read b a h)"
| "polled b a (Suc n) h = polled b a n (snd (bus_read b a h))"

text \<open>
  Three loops of the firmware test one status register until it is ready and count a
  timeout down. They differ in the register, the test, the error, and in what they do
  between two tests (\<open>again\<close>) and before giving up (\<open>leave\<close>), which touches neither
  the hardware nor the trace.
\<close>

locale status_poll =
  fixes b :: "'h bus"
    and a :: u32
    and ready :: "u32 \<Rightarrow> bool"
    and terr :: mcu_error
    and wait :: "u32 \<Rightarrow> ('h, unit result) io"
    and leave again :: "'h mach \<Rightarrow> 'h mach"
  assumes wait_run: "run_state (wait t) s =
      (let v = fst (run_state (mmio_read b a) s); s1 = snd (run_state (mmio_read b a) s)
       in if ready v then (Ok (), s1)
          else if t - 1 = 0 then (Err terr, leave s1)
          else run_state (wait (t - 1)) (again s1))"
    and leave_frame: "hw (leave s) = hw s" "trace (leave s) = trace s"
    and again_frame: "hw (again s) = hw s" "trace (again s) = trace s"
begin

text \<open>The state a read leaves, and the three ways one round can go.\<close>

abbreviation seen :: "'h mach \<Rightarrow> u32" where
  "seen s \<equiv> fst (bus_read b a (hw s))"

abbreviation after :: "'h mach \<Rightarrow> 'h mach" where
  "after s \<equiv> snd (run_state (mmio_read b a) s)"

lemma after_sel: "hw (after s) = snd (bus_read b a (hw s))" "trace (after s) = trace s @ [Rd a (seen s)]"
  by (simp_all add: run_mmio)

lemma wait_ready: "ready (seen s) \<Longrightarrow> run_state (wait t) s = (Ok (), after s)"
  by (subst wait_run) (simp add: run_mmio Let_def)

lemma wait_last:
  "\<not> ready (seen s) \<Longrightarrow> t - 1 = 0 \<Longrightarrow> run_state (wait t) s = (Err terr, leave (after s))"
  by (subst wait_run) (simp add: run_mmio Let_def)

lemma wait_again:
  "\<not> ready (seen s) \<Longrightarrow> t - 1 \<noteq> 0 \<Longrightarrow>
     run_state (wait t) s = run_state (wait (t - 1)) (again (after s))"
  by (subst wait_run) (simp add: run_mmio Let_def)

lemma poll_cases [case_names ready last again]:
  obtains "ready (seen s)" | "\<not> ready (seen s)" "t - 1 = 0" | "\<not> ready (seen s)" "t - 1 \<noteq> 0"
  by blast

definition run_of :: "u32 \<Rightarrow> unit result \<Rightarrow> u32 list \<Rightarrow> bool" where
  "run_of t r vs \<longleftrightarrow> vs \<noteq> [] \<and> length vs \<le> poll_budget t \<and> (\<forall>v \<in> set (butlast vs). \<not> ready v) \<and>
     (if ready (last vs) then r = Ok () else r = Err terr \<and> length vs = poll_budget t)"

lemma run_of_ready: "ready v \<Longrightarrow> run_of t (Ok ()) [v]"
  using poll_budget_pos [of t] by (simp add: run_of_def Suc_le_eq del: poll_budget_pos)

lemma run_of_last: "\<not> ready v \<Longrightarrow> t - 1 = 0 \<Longrightarrow> run_of t (Err terr) [v]"
  by (simp add: run_of_def poll_budget_last)

lemma run_of_again: "\<not> ready v \<Longrightarrow> t - 1 \<noteq> 0 \<Longrightarrow> run_of (t - 1) r vs \<Longrightarrow> run_of t r (v # vs)"
  by (auto simp: run_of_def poll_budget_step)

lemma wait_trace:
  "\<exists>vs. trace (snd (run_state (wait t) s)) = trace s @ map (Rd a) vs \<and>
     run_of t (fst (run_state (wait t) s)) vs"
proof (induction "poll_budget t" arbitrary: t s rule: less_induct)
  case less
  show ?case
  proof (cases rule: poll_cases [where s = s and t = t])
    case ready
    then show ?thesis
      using run_of_ready by (intro exI [of _ "[seen s]"]) (simp add: wait_ready after_sel)
  next
    case last
    then show ?thesis
      using run_of_last
      by (intro exI [of _ "[seen s]"]) (simp add: wait_last leave_frame after_sel)
  next
    case again
    obtain vs where
      "trace (snd (run_state (wait (t - 1)) (again (after s)))) = trace (again (after s)) @ map (Rd a) vs"
      "run_of (t - 1) (fst (run_state (wait (t - 1)) (again (after s)))) vs"
      using less [OF countdown_measure [OF again(2)]] by blast
    with again run_of_again show ?thesis
      by (intro exI [of _ "seen s # vs"]) (simp add: wait_again again_frame after_sel)
  qed
qed

lemma wait_result:
  "fst (run_state (wait t) s) =
     (if \<exists>n < poll_budget t. ready (polled b a n (hw s)) then Ok () else Err terr)"
proof (induction "poll_budget t" arbitrary: t s rule: less_induct)
  case less
  show ?case
  proof (cases rule: poll_cases [where s = s and t = t])
    case ready
    then show ?thesis by (auto simp: wait_ready intro!: exI [of _ 0])
  next
    case last
    then show ?thesis by (simp add: wait_last poll_budget_last)
  next
    case again
    then show ?thesis
      using less [OF countdown_measure [OF again(2)], of "again (after s)"]
      by (simp add: wait_again again_frame after_sel poll_budget_step Ex_less_Suc2)
  qed
qed

lemma wait_view:
  assumes "storage_reg b x view"
  shows "view (hw (snd (run_state (wait t) s))) = view (hw s)"
proof (induction "poll_budget t" arbitrary: t s rule: less_induct)
  case less
  show ?case
  proof (cases rule: poll_cases [where s = s and t = t])
    case again
    then show ?thesis
      using less [OF countdown_measure [OF again(2)]] assms
      by (simp add: wait_again again_frame after_sel storage_read_keeps)
  qed (use assms in \<open>simp_all add: wait_ready wait_last leave_frame after_sel storage_read_keeps\<close>)
qed

lemma wait_no_writes:
  "\<exists>es. trace (snd (run_state (wait t) s)) = trace s @ es \<and> writes es = []"
  using wait_trace [of t s] by fastforce

end

section \<open>The contract of an unbounded polling loop\<close>

text \<open>
  Loops without a timeout carry fuel: the number of tests the model makes before it gives
  up with \<open>NoFuel\<close>. A result other than \<open>NoFuel\<close> does not depend on the fuel.
\<close>

locale spin_wait =
  fixes b :: "'h bus"
    and a :: u32
    and ready :: "u32 \<Rightarrow> bool"
    and spin :: "nat \<Rightarrow> ('h, unit outcome) io"
  assumes spin_0: "run_state (spin 0) s = (NoFuel, s)"
    and spin_Suc: "run_state (spin (Suc n)) s =
      (let v = fst (run_state (mmio_read b a) s); s1 = snd (run_state (mmio_read b a) s)
       in if ready v then (Returned (), s1) else run_state (spin n) s1)"
begin

lemma spin_result:
  "fst (run_state (spin n) s) =
     (if \<exists>k < n. ready (polled b a k (hw s)) then Returned () else NoFuel)"
proof (induction n arbitrary: s)
  case (Suc n)
  then show ?case by (auto simp: spin_Suc run_mmio Let_def Ex_less_Suc2)
qed (simp add: spin_0)

lemma spin_trace:
  "\<exists>vs. trace (snd (run_state (spin n) s)) = trace s @ map (Rd a) vs \<and>
     (\<forall>v \<in> set (butlast vs). \<not> ready v) \<and>
     (fst (run_state (spin n) s) = Returned () \<longrightarrow> vs \<noteq> [] \<and> ready (last vs))"
proof (induction n arbitrary: s)
  case 0
  then show ?case by (intro exI [of _ "[]"]) (simp add: spin_0)
next
  case (Suc n)
  define v where "v = fst (bus_read b a (hw s))"
  define s1 where "s1 = snd (run_state (mmio_read b a) s)"
  have s1: "trace s1 = trace s @ [Rd a v]" by (simp add: s1_def v_def run_mmio)
  have step: "run_state (spin (Suc n)) s =
      (if ready v then (Returned (), s1) else run_state (spin n) s1)"
    by (simp add: spin_Suc s1_def v_def run_mmio Let_def)
  show ?case
  proof (cases "ready v")
    case True
    then show ?thesis using s1 by (intro exI [of _ "[v]"]) (simp add: step)
  next
    case False
    obtain vs where "trace (snd (run_state (spin n) s1)) = trace s1 @ map (Rd a) vs"
      "\<forall>v \<in> set (butlast vs). \<not> ready v"
      "fst (run_state (spin n) s1) = Returned () \<longrightarrow> vs \<noteq> [] \<and> ready (last vs)"
      using Suc by blast
    with False s1 show ?thesis by (intro exI [of _ "v # vs"]) (auto simp: step)
  qed
qed

lemma spin_outcome: "fst (run_state (spin n) s) = Returned () \<or> fst (run_state (spin n) s) = NoFuel"
  by (simp add: spin_result)

lemma spin_more:
  "fst (run_state (spin n) s) = Returned () \<Longrightarrow> n \<le> m \<Longrightarrow> run_state (spin m) s = run_state (spin n) s"
proof (induction n arbitrary: s m)
  case (Suc n)
  obtain k where k: "m = Suc k" "n \<le> k" using Suc.prems(2) by (cases m) auto
  let ?s1 = "snd (run_state (mmio_read b a) s)"
  show ?case
  proof (cases "ready (fst (run_state (mmio_read b a) s))")
    case True
    then show ?thesis by (simp add: k(1) spin_Suc Let_def)
  next
    case False
    then have "fst (run_state (spin n) ?s1) = Returned ()"
      using Suc.prems(1) by (simp add: spin_Suc Let_def)
    then have "run_state (spin k) ?s1 = run_state (spin n) ?s1" using k(2) by (rule Suc.IH)
    with False show ?thesis by (simp add: k(1) spin_Suc Let_def)
  qed
qed (simp add: spin_0)

end

end
