(* ===== verification/Romtime.thy ===== *)
theory Romtime
  imports Machine
begin

text \<open>
  The common ROM library, \<^verbatim>\<open>src/romtime/src/romtime.cpp\<close> and the two platform
  files: console output through the global writer, hexadecimal display, CRC-8 and the
  cycle counter. The one writer of the repository is \<^verbatim>\<open>EmulatorWriter\<close> of
  \<^verbatim>\<open>src/platforms/emulator/rom/src/main.cpp\<close>, which sends every character to the
  UART; a C string is its characters without the final NUL, a null pointer is \<open>None\<close>.
\<close>

section \<open>The writer\<close>

text \<open>
  The interface \<^verbatim>\<open>Writer\<close>, as the two operations a class implements. The
  emulator's is the only one of the repository; the host build's drops every character.
\<close>

record 'h writer =
  writer_write :: "string \<Rightarrow> ('h, unit) io"
  writer_write_char :: "char \<Rightarrow> ('h, unit) io"

definition write_char :: "char \<Rightarrow> ('h, unit) io" where
  "write_char c = State (\<lambda>s. ((), s\<lparr>uart := uart s @ [c]\<rparr>))"

text \<open>\<^verbatim>\<open>write(str, len)\<close>: the list holds the \<^verbatim>\<open>len\<close> characters at \<^verbatim>\<open>str\<close>.\<close>

fun emulator_write :: "string \<Rightarrow> ('h, unit) io" where
  "emulator_write [] = return ()"
| "emulator_write (c # cs) = do { write_char c; emulator_write cs }"

definition emulator_writer :: "'h writer" where
  "emulator_writer = \<lparr>writer_write = emulator_write, writer_write_char = write_char\<rparr>"

definition host_write_char :: "char \<Rightarrow> ('h, unit) io" where
  "host_write_char c = return ()"

fun host_write :: "string \<Rightarrow> ('h, unit) io" where
  "host_write [] = return ()"
| "host_write (c # cs) = do { host_write_char c; host_write cs }"

definition host_writer :: "'h writer" where
  "host_writer = \<lparr>writer_write = host_write, writer_write_char = host_write_char\<rparr>"

lemma run_host_write: "run_state (host_write cs) s = ((), s)"
  by (induction cs arbitrary: s) (simp_all add: host_write_char_def)

lemma run_write_char: "run_state (write_char c) s = ((), s\<lparr>uart := uart s @ [c]\<rparr>)"
  by (simp add: write_char_def)

text \<open>What the library relies on in a \<^verbatim>\<open>Writer\<close>: characters arrive in order.\<close>

locale char_writer =
  fixes put :: "char \<Rightarrow> ('h, unit) io"
    and put_all :: "string \<Rightarrow> ('h, unit) io"
  assumes put_run: "run_state (put c) s = ((), s\<lparr>uart := uart s @ [c]\<rparr>)"
    and put_all_nil: "run_state (put_all []) s = ((), s)"
    and put_all_cons:
      "run_state (put_all (c # cs)) s = run_state (put_all cs) (snd (run_state (put c) s))"
begin

lemma put_all_run: "run_state (put_all cs) s = ((), s\<lparr>uart := uart s @ cs\<rparr>)"
  by (induction cs arbitrary: s) (simp_all add: put_all_nil put_all_cons put_run)

end

interpretation emu: char_writer write_char emulator_write
  by unfold_locales (simp_all add: run_write_char)

definition set_printer :: "bool \<Rightarrow> ('h, unit) io" where
  "set_printer w = State (\<lambda>s. ((), s\<lparr>g_writer := w\<rparr>))"

text \<open>\<open>w\<close> is the object \<^verbatim>\<open>g_writer\<close> points to when it is not null.\<close>

definition print_on :: "'h writer \<Rightarrow> string option \<Rightarrow> ('h, unit) io" where
  "print_on w str = do {
     s \<leftarrow> State_Monad.get;
     case str of
       Some cs \<Rightarrow> if g_writer s then writer_write w cs else return ()
     | None \<Rightarrow> return () }"

definition println_on :: "'h writer \<Rightarrow> string option \<Rightarrow> ('h, unit) io" where
  "println_on w str = do {
     print_on w str;
     s \<leftarrow> State_Monad.get;
     if g_writer s then writer_write_char w (CHR 0x0A) else return () }"

definition print :: "string option \<Rightarrow> ('h, unit) io" where
  "print str = print_on emulator_writer str"

definition println :: "string option \<Rightarrow> ('h, unit) io" where
  "println str = println_on emulator_writer str"

abbreviation say :: "string \<Rightarrow> ('h, unit) io" where
  "say cs \<equiv> print (Some cs)"

abbreviation sayln :: "string \<Rightarrow> ('h, unit) io" where
  "sayln cs \<equiv> println (Some cs)"

lemma run_set_printer: "run_state (set_printer w) s = ((), s\<lparr>g_writer := w\<rparr>)"
  by (simp add: set_printer_def)

lemma run_print:
  "run_state (print str) s =
     ((), s\<lparr>uart := uart s @ (if g_writer s then (case str of Some cs \<Rightarrow> cs | None \<Rightarrow> []) else [])\<rparr>)"
  by (simp add: print_def print_on_def emulator_writer_def emu.put_all_run split: option.splits)

lemma run_println:
  "run_state (println str) s =
     ((), s\<lparr>uart := uart s @
        (if g_writer s then (case str of Some cs \<Rightarrow> cs | None \<Rightarrow> []) @ [CHR 0x0A] else [])\<rparr>)"
  by (simp add: println_def println_on_def print_def [symmetric] run_print run_write_char
      emulator_writer_def [THEN arg_cong [where f = writer_write_char], simplified]
      split: option.splits)

text \<open>Console output does not touch the hardware or the record of register accesses.\<close>

lemma print_frame [frame]:
  "hw (snd (run_state (print str) s)) = hw s"
  "trace (snd (run_state (print str) s)) = trace s"
  "g_writer (snd (run_state (print str) s)) = g_writer s"
  "g_fatal_handler (snd (run_state (print str) s)) = g_fatal_handler s"
  by (simp_all add: run_print)

lemma println_frame [frame]:
  "hw (snd (run_state (println str) s)) = hw s"
  "trace (snd (run_state (println str) s)) = trace s"
  "g_writer (snd (run_state (println str) s)) = g_writer s"
  "g_fatal_handler (snd (run_state (println str) s)) = g_fatal_handler s"
  by (simp_all add: run_println)

text \<open>
  \<^verbatim>\<open>test_exit\<close>: the exiter, if one is set, is called with the code; the function
  never returns. No class of the repository implements \<^verbatim>\<open>Exit\<close>, so its operation
  is a parameter.
\<close>

definition set_exiter :: "bool \<Rightarrow> ('h, unit) io" where
  "set_exiter e = State (\<lambda>s. ((), s\<lparr>g_exiter := e\<rparr>))"

definition test_exit :: "(u32 \<Rightarrow> ('h, unit) io) \<Rightarrow> u32 \<Rightarrow> ('h, unit outcome) io" where
  "test_exit exit code = do {
     s \<leftarrow> State_Monad.get;
     (if g_exiter s then exit code else return ());
     return Looping }"

text \<open>It never returns, and runs the exiter exactly when one was set.\<close>

lemma test_exit_run:
  "run_state (do { set_exiter e; test_exit exit code }) s =
     (Looping, if e then snd (run_state (exit code) (s\<lparr>g_exiter := True\<rparr>)) else s\<lparr>g_exiter := False\<rparr>)"
  by (simp add: set_exiter_def test_exit_def)

text \<open>On the host nothing is printed, whatever the global writer.\<close>

lemma run_host_println: "run_state (println_on host_writer str) s = ((), s)"
  by (simp add: println_on_def print_on_def host_writer_def run_host_write host_write_char_def
      split: option.splits)

section \<open>Control and status registers\<close>

definition read_csr_mcause :: "'h bus \<Rightarrow> ('h, u32) io" where [io_defs]:
  "read_csr_mcause b = csr_read b Mcause"

definition read_csr_mepc :: "'h bus \<Rightarrow> ('h, u32) io" where [io_defs]:
  "read_csr_mepc b = csr_read b Mepc"

definition read_csr_mscratch :: "'h bus \<Rightarrow> ('h, u32) io" where [io_defs]:
  "read_csr_mscratch b = csr_read b Mscratch"

section \<open>Hexadecimal display\<close>

definition hex_digit :: "u8 \<Rightarrow> char" where
  "hex_digit c = (if c < 10 then char_of (48 + unat c) else char_of (65 + unat c - 10))"

fun hex_bytes_loop :: "'h writer \<Rightarrow> u8 list \<Rightarrow> ('h, unit) io" where
  "hex_bytes_loop w [] = return ()"
| "hex_bytes_loop w (x # xs) = do {
     writer_write_char w (hex_digit (drop_bit 4 x));
     writer_write_char w (hex_digit (x AND 0x0F));
     hex_bytes_loop w xs }"

text \<open>\<^verbatim>\<open>HexBytes::print_to\<close>; both the writer and the data may be null.\<close>

definition hex_bytes_print_to :: "'h writer option \<Rightarrow> u8 list option \<Rightarrow> ('h, unit) io" where
  "hex_bytes_print_to writer data =
     (case data of None \<Rightarrow> return ()
      | Some bytes \<Rightarrow> (case writer of None \<Rightarrow> return () | Some w \<Rightarrow> hex_bytes_loop w bytes))"

definition word_bytes :: "u32 \<Rightarrow> u8 list" where
  "word_bytes v = [ucast (drop_bit 24 v AND 0xFF), ucast (drop_bit 16 v AND 0xFF),
                   ucast (drop_bit 8 v AND 0xFF), ucast (v AND 0xFF)]"

definition hex_word_print_to :: "'h writer option \<Rightarrow> u32 \<Rightarrow> ('h, unit) io" where
  "hex_word_print_to writer v = hex_bytes_print_to writer (Some (word_bytes v))"

text \<open>Printing a word with the global writer, as the callers do.\<close>

definition print_hex_word :: "u32 \<Rightarrow> ('h, unit) io" where
  "print_hex_word v = do {
     s \<leftarrow> State_Monad.get;
     hex_word_print_to (if g_writer s then Some emulator_writer else None) v }"

fun hex_string :: "u8 list \<Rightarrow> string" where
  "hex_string [] = []"
| "hex_string (x # xs) = hex_digit (drop_bit 4 x) # hex_digit (x AND 0x0F) # hex_string xs"

lemma run_hex_bytes_loop:
  "run_state (hex_bytes_loop emulator_writer xs) s = ((), s\<lparr>uart := uart s @ hex_string xs\<rparr>)"
  by (induction xs arbitrary: s) (simp_all add: run_write_char emulator_writer_def)

lemma run_hex_bytes_host: "run_state (hex_bytes_loop host_writer xs) s = ((), s)"
  by (induction xs arbitrary: s) (simp_all add: host_writer_def host_write_char_def)

lemma run_hex_bytes_print_to:
  "run_state (hex_bytes_print_to (if g then Some emulator_writer else None) data) s =
     ((), s\<lparr>uart := uart s @ (case data of None \<Rightarrow> [] | Some xs \<Rightarrow> if g then hex_string xs else [])\<rparr>)"
  by (simp add: hex_bytes_print_to_def run_hex_bytes_loop split: option.splits)

lemma run_print_hex_word:
  "run_state (print_hex_word v) s =
     ((), s\<lparr>uart := uart s @ (if g_writer s then hex_string (word_bytes v) else [])\<rparr>)"
  by (simp add: print_hex_word_def hex_word_print_to_def run_hex_bytes_print_to)

lemma print_hex_word_frame [frame]:
  "hw (snd (run_state (print_hex_word v) s)) = hw s"
  "trace (snd (run_state (print_hex_word v) s)) = trace s"
  "g_writer (snd (run_state (print_hex_word v) s)) = g_writer s"
  "g_fatal_handler (snd (run_state (print_hex_word v) s)) = g_fatal_handler s"
  by (simp_all add: run_print_hex_word)

text \<open>A reader of the display, to state that nothing is lost.\<close>

definition digit_value :: "char \<Rightarrow> u8 option" where
  "digit_value c = (let n = of_char c :: nat in
     if 48 \<le> n \<and> n \<le> 57 then Some (of_nat (n - 48))
     else if 65 \<le> n \<and> n \<le> 70 then Some (of_nat (n - 55)) else None)"

fun parse_hex :: "string \<Rightarrow> u8 list option" where
  "parse_hex [] = Some []"
| "parse_hex [c] = None"
| "parse_hex (c # d # cs) =
     (case (digit_value c, digit_value d, parse_hex cs) of
        (Some h, Some l, Some xs) \<Rightarrow> Some ((push_bit 4 h OR l) # xs)
      | _ \<Rightarrow> None)"

lemma digit_value_hex_digit: "x < 16 \<Longrightarrow> digit_value (hex_digit x) = Some x" for x :: u8
proof -
  assume "x < 16"
  then have "unat x < 16" by (simp add: word_less_nat_alt)
  moreover have "x < 10 \<longleftrightarrow> unat x < 10" by (simp add: word_less_nat_alt)
  ultimately show ?thesis
    by (simp add: digit_value_def hex_digit_def Let_def)
qed

lemma nibbles:
  "drop_bit 4 x < 16" "x AND 0x0F < 16" "push_bit 4 (drop_bit 4 x) OR (x AND 0x0F) = x" for x :: u8
proof -
  have "unat (drop_bit 4 x) = unat x div 16"
    by (simp add: drop_bit_eq_div unat_div)
  then show "drop_bit 4 x < 16"
    using unsigned_less [where ?'a = nat and w = x] by (simp add: word_less_nat_alt)
  have "x AND 0x0F \<le> 0x0F" by (rule word_and_le1)
  then show "x AND 0x0F < 16" by (rule le_less_trans) simp
  have "x AND 0x0F = take_bit 4 x" by (simp add: take_bit_eq_mask mask_eq_exp_minus_1)
  then show "push_bit 4 (drop_bit 4 x) OR (x AND 0x0F) = x"
    by (auto intro!: bit_word_eqI simp: bit_simps)
qed

lemma parse_hex_string: "parse_hex (hex_string xs) = Some xs"
  by (induction xs) (simp_all add: digit_value_hex_digit nibbles)

lemma length_hex_string [simp]: "length (hex_string xs) = 2 * length xs"
  by (induction xs) simp_all

section \<open>Properties\<close>

text \<open>
  With a writer installed, \<^verbatim>\<open>HexWord::print_to\<close> appends eight characters to
  the console and nothing else changes; reading them as hexadecimal gives the bytes of the
  word back, most significant first.
\<close>

theorem hex_word_round_trip:
  assumes "g_writer s"
  shows "\<exists>cs. snd (run_state (print_hex_word v) s) = s\<lparr>uart := uart s @ cs\<rparr> \<and> length cs = 8 \<and>
    parse_hex cs = Some (word_bytes v)"
  using assms
  by (intro exI [of _ "hex_string (word_bytes v)"])
    (simp add: run_print_hex_word parse_hex_string, simp add: word_bytes_def)

theorem hex_word_round_trip_witness:
  "\<exists>cs. length cs = 8 \<and> parse_hex cs = Some (word_bytes 0xDEADBEEF)"
  using hex_word_round_trip [of "(start_mach ())\<lparr>g_writer := True\<rparr>" "0xDEADBEEF"] by auto

end
