(* ===== verification/Crc8.thy ===== *)
theory Crc8
  imports Romtime
begin

text \<open>
  The two implementations of \<^verbatim>\<open>platform_crc8\<close>: the shift-and-xor loop of
  \<^verbatim>\<open>src/romtime/src/platform_host.cpp\<close> and the carry-less multiplications of
  \<^verbatim>\<open>src/romtime/src/platform_riscv32.cpp\<close>, and the cycle counter of the two files.
\<close>

section \<open>Additive functions on words\<close>

text \<open>
  Both implementations are additive for \<open>XOR\<close>; two additive functions that agree on the
  one-bit words are equal.
\<close>

definition additive :: "('a::len word \<Rightarrow> 'b::len word) \<Rightarrow> bool" where
  "additive f \<longleftrightarrow> (\<forall>x y. f (x XOR y) = f x XOR f y)"

lemma additiveI: "(\<And>x y. f (x XOR y) = f x XOR f y) \<Longrightarrow> additive f"
  by (simp add: additive_def)

lemma additive_zero: "additive f \<Longrightarrow> f 0 = 0"
proof -
  assume "additive f"
  then have "f (0 XOR 0) = f 0 XOR f 0" unfolding additive_def by blast
  then show ?thesis by simp
qed

lemma take_bit_Suc_xor:
  "take_bit (Suc n) x = take_bit n x XOR (if bit x n then 2 ^ n else 0)" for x :: "'a::len word"
  by (rule bit_word_eqI) (auto simp: bit_simps less_Suc_eq)

lemma additive_take_bit:
  assumes "additive f" "additive g" "\<And>k. k < n \<Longrightarrow> f (2 ^ k) = g (2 ^ k)"
  shows "f (take_bit n x) = g (take_bit n x)"
  using assms(3)
proof (induction n)
  case 0
  then show ?case using assms(1,2) by (simp add: additive_zero)
next
  case (Suc n)
  then have IH: "f (take_bit n x) = g (take_bit n x)" and n: "f (2 ^ n) = g (2 ^ n)" by simp_all
  show ?case
    using IH n assms(1,2)
    by (simp add: take_bit_Suc_xor additive_zero) (simp add: additive_def)
qed

lemma additive_ext:
  fixes f g :: "'a::len word \<Rightarrow> 'b::len word"
  assumes "additive f" "additive g" "\<And>k. k < LENGTH('a) \<Longrightarrow> f (2 ^ k) = g (2 ^ k)"
  shows "f x = g x"
  using additive_take_bit [OF assms(1,2), of "LENGTH('a)" x] assms(3) by simp

lemma additive_comp: "additive f \<Longrightarrow> additive g \<Longrightarrow> additive (\<lambda>x. f (g x))"
  by (simp add: additive_def)

lemma additive_xor: "additive f \<Longrightarrow> additive g \<Longrightarrow> additive (\<lambda>x. f x XOR g x)"
  by (rule additiveI) (simp add: additive_def ac_simps)

lemma additive_push_bit: "additive (push_bit n :: 'a::len word \<Rightarrow> 'a word)"
  by (rule additiveI) (auto intro!: bit_word_eqI simp: bit_simps)

lemma additive_drop_bit: "additive (drop_bit n :: 'a::len word \<Rightarrow> 'a word)"
  by (rule additiveI) (auto intro!: bit_word_eqI simp: bit_simps)

lemma additive_ucast: "additive (ucast :: 'a::len word \<Rightarrow> 'b::len word)"
  by (rule additiveI) (auto intro!: bit_word_eqI simp: bit_simps dest: bit_imp_le_length)

lemma additive_funpow: "additive f \<Longrightarrow> additive (f ^^ n)" for f :: "'a::len word \<Rightarrow> 'a word"
  by (induction n) (simp_all add: additive_def)

section \<open>platform_host.cpp\<close>

definition crc8_step :: "u8 \<Rightarrow> u8" where
  "crc8_step crc =
     (if crc AND 0x80 \<noteq> 0 then push_bit 1 crc XOR 0x07 else push_bit 1 crc)"

fun crc8_loop :: "nat \<Rightarrow> u8 \<Rightarrow> u8" where
  "crc8_loop 0 crc = crc"
| "crc8_loop (Suc n) crc = crc8_loop n (crc8_step crc)"

definition crc8_host :: "u8 \<Rightarrow> u8 \<Rightarrow> u8" where
  "crc8_host crc data = crc8_loop 8 (crc XOR data)"

definition mcycle_host :: "('h, u64) io" where
  "mcycle_host = return 0"

section \<open>platform_riscv32.cpp\<close>

text \<open>The \<^verbatim>\<open>clmul\<close> instruction of the Zbc extension, for 32-bit registers.\<close>

definition clmul :: "u32 \<Rightarrow> u32 \<Rightarrow> u32" where
  "clmul x y = foldl (\<lambda>out i. if bit y i then out XOR push_bit i x else out) 0 [0..<32]"

definition crc8_riscv :: "u8 \<Rightarrow> u8 \<Rightarrow> u8" where
  "crc8_riscv crc data =
     (let polynomial = 0x07;
          crc_val = ucast (crc XOR data) :: u32;
          a = clmul crc_val polynomial;
          tmp = drop_bit 8 a;
          b = clmul tmp polynomial
      in ucast (a XOR b))"

definition mcycle_riscv :: "'h bus \<Rightarrow> ('h, u64) io" where
  "mcycle_riscv b = do {
     mcycle_low \<leftarrow> csr_read b Mcycle;
     mcycle_high \<leftarrow> csr_read b Mcycleh;
     return (push_bit 32 (ucast mcycle_high) OR ucast mcycle_low) }"

section \<open>The platform the firmware is built for\<close>

text \<open>
  The build links one of the two platform files; \<^verbatim>\<open>crc8\<close> and
  \<^verbatim>\<open>mcycle\<close> of romtime.cpp call whichever it is.
\<close>

datatype platform = Host | Riscv32

definition platform_crc8 :: "platform \<Rightarrow> u8 \<Rightarrow> u8 \<Rightarrow> u8" where
  "platform_crc8 p = (case p of Host \<Rightarrow> crc8_host | Riscv32 \<Rightarrow> crc8_riscv)"

definition crc8 :: "platform \<Rightarrow> u8 \<Rightarrow> u8 \<Rightarrow> u8" where
  "crc8 p crc data = platform_crc8 p crc data"

definition platform_mcycle :: "platform \<Rightarrow> 'h bus \<Rightarrow> ('h, u64) io" where
  "platform_mcycle p b = (case p of Host \<Rightarrow> mcycle_host | Riscv32 \<Rightarrow> mcycle_riscv b)"

definition mcycle :: "platform \<Rightarrow> 'h bus \<Rightarrow> ('h, u64) io" where
  "mcycle p b = platform_mcycle p b"

section \<open>Both compute the same additive function\<close>

lemma crc8_step_bit: "crc8_step x = push_bit 1 x XOR (if bit x 7 then 7 else 0)"
  by (simp add: crc8_step_def and_exp_eq_0_iff_not_bit [of x 7, simplified])

lemma additive_select: "additive (\<lambda>x. if bit x n then c else 0)"
  by (rule additiveI) (simp add: bit_xor_iff)

lemma additive_step: "additive crc8_step"
  using additive_xor [OF additive_push_bit additive_select, of 1 7 7]
  by (simp add: crc8_step_bit [abs_def])

lemma crc8_loop_funpow: "crc8_loop n = crc8_step ^^ n"
  by (induction n) (auto simp: funpow_swap1)

lemma additive_loop: "additive (crc8_loop n)"
  by (simp add: crc8_loop_funpow additive_funpow additive_step)

lemma clmul_7: "clmul x 0x07 = x XOR push_bit 1 x XOR push_bit 2 x"
  by (simp add: clmul_def upt_conv_Cons push_bit_eq_mult ac_simps)

lemma clmul_107: "clmul x 0x107 = x XOR push_bit 1 x XOR push_bit 2 x XOR push_bit 8 x"
  by (simp add: clmul_def upt_conv_Cons push_bit_eq_mult ac_simps)

definition hi_byte :: "u32 \<Rightarrow> u32" where
  "hi_byte x = drop_bit 8 (x XOR push_bit 1 x XOR push_bit 2 x)"

definition mul7 :: "u32 \<Rightarrow> u32" where
  "mul7 x = x XOR push_bit 1 x XOR push_bit 2 x"

lemma additive_mul7: "additive mul7"
  unfolding mul7_def [abs_def]
  by (intro additive_xor additive_push_bit) (simp add: additive_def)

lemma crc8_riscv_mul7:
  "crc8_riscv c d = (let x = ucast (c XOR d) in ucast (mul7 x XOR mul7 (drop_bit 8 (mul7 x))))"
  by (simp add: crc8_riscv_def clmul_7 mul7_def Let_def)

definition crc8_folded :: "u8 \<Rightarrow> u8" where
  "crc8_folded x = ucast (mul7 (ucast x) XOR mul7 (drop_bit 8 (mul7 (ucast x))))"

lemma additive_folded: "additive crc8_folded"
  unfolding crc8_folded_def [abs_def]
  by (intro additive_comp [OF additive_ucast] additive_xor
      additive_comp [OF additive_mul7] additive_comp [OF additive_drop_bit] additive_ucast)

lemma below_8: "k < 8 \<Longrightarrow> k \<in> {0, 1, 2, 3, 4, 5, 6, 7 :: nat}"
  by auto

lemma crc8_loop_8:
  "crc8_loop 8 x = crc8_step (crc8_step (crc8_step (crc8_step
     (crc8_step (crc8_step (crc8_step (crc8_step x)))))))"
  by (simp add: numeral_eq_Suc)

lemma loop_folded_basis: "k < 8 \<Longrightarrow> crc8_loop 8 (2 ^ k) = crc8_folded (2 ^ k)"
  by (drule below_8)
    (elim insertE; simp add: crc8_folded_def mul7_def crc8_step_bit crc8_loop_8)

lemma loop_folded: "crc8_loop 8 x = crc8_folded x"
  by (rule additive_ext) (simp_all add: additive_loop additive_folded loop_folded_basis)

lemma host_riscv_agree: "crc8_riscv c d = crc8_host c d"
  by (simp add: crc8_riscv_mul7 crc8_host_def loop_folded crc8_folded_def Let_def)

section \<open>The function is the polynomial remainder\<close>

text \<open>
  Over GF(2), with a word as the polynomial whose coefficients are its bits:
  \<open>crc8_quotient\<close> times \<open>x^8 + x^2 + x + 1\<close> plus the CRC is the input times \<open>x^8\<close>.
\<close>

definition crc8_quotient :: "u8 \<Rightarrow> u32" where
  "crc8_quotient x = ucast x XOR drop_bit 8 (mul7 (ucast x))"

definition mul107 :: "u32 \<Rightarrow> u32" where
  "mul107 x = x XOR push_bit 1 x XOR push_bit 2 x XOR push_bit 8 x"

lemma additive_quotient: "additive crc8_quotient"
  unfolding crc8_quotient_def [abs_def]
  by (intro additive_xor additive_comp [OF additive_mul7] additive_comp [OF additive_drop_bit]
      additive_ucast)

lemma additive_mul107: "additive mul107"
  unfolding mul107_def [abs_def]
  by (intro additive_xor additive_push_bit) (simp add: additive_def)

lemma folded_remainder:
  "mul107 (crc8_quotient x) XOR ucast (crc8_folded x) = push_bit 8 (ucast x)"
proof (rule additive_ext [where f = "\<lambda>x. mul107 (crc8_quotient x) XOR ucast (crc8_folded x)"
      and g = "\<lambda>x. push_bit 8 (ucast x)"])
  show "additive (\<lambda>x. mul107 (crc8_quotient x) XOR ucast (crc8_folded x))"
    by (intro additive_xor additive_comp [OF additive_mul107 additive_quotient]
        additive_comp [OF additive_ucast additive_folded])
  show "additive (\<lambda>x. push_bit 8 (ucast x) :: u32)"
    by (intro additive_comp [OF additive_push_bit additive_ucast])
  show "mul107 (crc8_quotient (2 ^ k)) XOR ucast (crc8_folded (2 ^ k)) = push_bit 8 (ucast (2 ^ k :: u8))"
    if "k < LENGTH(8)" for k
  proof -
    from that have "k \<in> {0, 1, 2, 3, 4, 5, 6, 7}" by (intro below_8) simp
    then show ?thesis
      by (elim insertE; simp add: mul107_def crc8_quotient_def crc8_folded_def mul7_def)
  qed
qed

section \<open>Error detection\<close>

lemma bit_seven: "bit (7 :: u8) n \<longleftrightarrow> n < 3"
proof -
  have "(7 :: u8) = mask 3" by (simp add: mask_eq_exp_minus_1)
  then show ?thesis by (auto simp only: bit_mask_iff possible_bit_word) simp
qed

lemma bit_crc8_step:
  "bit (crc8_step x) n \<longleftrightarrow> (n < 8 \<and> 1 \<le> n \<and> bit x (n - 1)) \<noteq> (bit x 7 \<and> n < 3)"
  by (auto simp only: crc8_step_bit bit_xor_iff bit_push_bit_iff bit_seven bit_0_eq
      possible_bit_word split: if_splits) (auto simp: possible_bit_word)

lemma crc8_step_zero: "crc8_step x = 0 \<Longrightarrow> x = 0"
proof -
  assume "crc8_step x = 0"
  then have *: "(n < 8 \<and> 1 \<le> n \<and> bit x (n - 1)) = (bit x 7 \<and> n < 3)" for n
    using bit_crc8_step [of x n] by simp
  from * [of 0] have "\<not> bit x 7" by simp
  then have "\<not> bit x n" if "n < 7" for n
    using * [of "Suc n"] that by simp
  with \<open>\<not> bit x 7\<close> have "\<not> bit x n" if "n < 8" for n
    using that by (cases "n = 7") auto
  then show "x = 0" by (auto intro!: bit_word_eqI)
qed

lemma additive_inj:
  assumes "additive f" "\<And>x. f x = 0 \<Longrightarrow> x = 0"
  shows "inj f"
proof (rule injI)
  fix x y assume "f x = f y"
  then have "f (x XOR y) = 0" using assms(1) by (simp add: additive_def)
  then have "x XOR y = 0" by (rule assms(2))
  then have "x XOR (x XOR y) = x" by simp
  then show "x = y" by (simp flip: xor.assoc)
qed

lemma inj_step: "inj crc8_step"
  by (rule additive_inj [OF additive_step]) (rule crc8_step_zero)

lemma inj_loop: "inj (crc8_loop n)"
  by (simp add: crc8_loop_funpow inj_fn inj_step)

lemma xor_cancel [simp]: "x XOR y = x XOR z \<longleftrightarrow> y = z" for x y z :: "'a::len word"
proof
  assume "x XOR y = x XOR z"
  then have "x XOR (x XOR y) = x XOR (x XOR z)" by simp
  then show "y = z" by (simp flip: xor.assoc)
qed simp

lemma crc8_host_inj: "crc8_host c d = crc8_host c d' \<longleftrightarrow> d = d'"
  using inj_loop [of 8] by (simp add: crc8_host_def inj_eq)

lemma crc8_host_inj_left: "crc8_host c d = crc8_host c' d \<longleftrightarrow> c = c'"
  using crc8_host_inj by (simp add: crc8_host_def xor.commute [of _ d])

lemma foldl_crc8_inj: "foldl crc8_host c ds = foldl crc8_host c' ds \<longleftrightarrow> c = c'"
  by (induction ds arbitrary: c c') (simp_all add: crc8_host_inj_left)

lemma crc8_loop_zero: "crc8_loop n 0 = 0"
  by (induction n) (simp_all add: crc8_step_bit)

lemma crc8_host_self: "crc8_host c c = 0"
  by (simp add: crc8_host_def crc8_loop_zero)

section \<open>The cycle counter\<close>

text \<open>
  The documented meaning of the two CSRs: \<open>mcycle\<close> and \<open>mcycleh\<close> read the halves of one
  64-bit counter, which runs on between two reads. \<open>now\<close> is that counter.
\<close>

definition cycle_csrs :: "'h bus \<Rightarrow> ('h \<Rightarrow> u64) \<Rightarrow> bool" where
  "cycle_csrs b now \<longleftrightarrow>
     (\<forall>h. fst (bus_csr b Mcycle h) = ucast (now h) \<and>
          fst (bus_csr b Mcycleh h) = ucast (drop_bit 32 (now h)))"

text \<open>The counter at the first of the two reads, and at the second.\<close>

definition first_now :: "('h \<Rightarrow> u64) \<Rightarrow> 'h mach \<Rightarrow> u64" where
  "first_now now s = now (hw s)"

definition second_now :: "'h bus \<Rightarrow> ('h \<Rightarrow> u64) \<Rightarrow> 'h mach \<Rightarrow> u64" where
  "second_now b now s = now (snd (bus_csr b Mcycle (hw s)))"

definition glue :: "u64 \<Rightarrow> u64 \<Rightarrow> u64" where
  "glue hi lo = push_bit 32 (drop_bit 32 hi) OR take_bit 32 lo"

lemma mcycle_value:
  "cycle_csrs b now \<Longrightarrow>
     fst (run_state (mcycle_riscv b) s) = glue (second_now b now s) (first_now now s)"
  by (auto simp: mcycle_riscv_def run_mmio cycle_csrs_def glue_def first_now_def second_now_def
      bit_simps intro!: bit_word_eqI dest: bit_imp_le_length)

lemma glue_same: "drop_bit 32 t = drop_bit 32 u \<Longrightarrow> glue u t = t" for t u :: u64
proof -
  assume *: "drop_bit 32 t = drop_bit 32 u"
  have "glue u t = push_bit 32 (drop_bit 32 t) OR take_bit 32 t"
    by (simp add: glue_def *)
  also have "\<dots> = t" by (rule bit_word_eqI) (auto simp: bit_simps)
  finally show ?thesis .
qed

lemma drop_glue: "drop_bit 32 (glue u t) = drop_bit 32 u" for t u :: u64
  by (rule bit_word_eqI) (auto simp: glue_def bit_simps dest: bit_imp_le_length)

lemma glue_eq_iff: "glue u t = t \<longleftrightarrow> drop_bit 32 t = drop_bit 32 u"
  using glue_same drop_glue by metis

section \<open>Properties\<close>


text \<open>
  C36. The step is division by the polynomial x^8 + x^2 + x + 1: the input byte times x^8 is
  a multiple of the polynomial 0x107, up to the 8-bit remainder the function returns.
\<close>

theorem crc8_is_remainder:
  "clmul (crc8_quotient (crc XOR data)) 0x107 XOR ucast (crc8_host crc data) =
     push_bit 8 (ucast (crc XOR data))"
  using folded_remainder [of "crc XOR data"]
  by (simp add: clmul_107 mul107_def crc8_host_def loop_folded)

text \<open>A change of one byte of a message, anywhere in it, always changes its CRC.\<close>

theorem crc8_detects_change:
  "foldl crc8_host crc (before @ data # after) = foldl crc8_host crc (before @ data' # after) \<longleftrightarrow>
     data = data'"
  by (simp add: foldl_crc8_inj crc8_host_inj)

text \<open>
  \<^verbatim>\<open>mcycle\<close> of the RISC-V platform reads the low half and then the high half. It
  returns the counter as it stood at the first read exactly when the high half did not
  change between the two reads; across a rollover of the low half it returns another value.
\<close>

theorem mcycle_torn_read:
  assumes "cycle_csrs b now"
  shows "fst (run_state (mcycle_riscv b) s) = first_now now s \<longleftrightarrow>
    drop_bit 32 (first_now now s) = drop_bit 32 (second_now b now s)"
  by (simp add: mcycle_value [OF assms] glue_eq_iff)

theorem mcycle_torn_read_witness:
  "fst (run_state (mcycle_riscv \<lparr>bus_read = \<lambda>a h. (0, h), bus_write = \<lambda>a v h. h,
      bus_csr = \<lambda>c h. (if c = Mcycle then ucast h else ucast (drop_bit 32 h), h + 1)\<rparr>)
      (start_mach (0xFFFFFFFF :: u64))) \<noteq> 0xFFFFFFFF"
  using mcycle_torn_read [of "\<lparr>bus_read = \<lambda>a h. (0, h), bus_write = \<lambda>a v h. h,
      bus_csr = \<lambda>c h. (if c = Mcycle then ucast h else ucast (drop_bit 32 h), h + 1)\<rparr>"
      "\<lambda>h. h" "start_mach (0xFFFFFFFF :: u64)"]
  by (simp add: cycle_csrs_def first_now_def second_now_def)

end
