(* ===== verification/Capsules.thy ===== *)
theory Capsules
  imports Crc8
begin

text \<open>
  The system calls of the runtime kernel,
  \<^verbatim>\<open>src/runtime/kernel/capsules/src/\<close>. Only the system capsule does anything: the
  others are placeholders that ignore their arguments and report success, and are modelled
  as they stand. A buffer a call could fill is returned with the result.
\<close>

section \<open>The system capsule\<close>

text \<open>
  Both read \<^verbatim>\<open>romtime::mcycle\<close> of the platform the kernel is linked with. The
  busy wait has no bound in the source: it takes fuel, one unit for each test.
\<close>

definition syscall_get_time :: "platform \<Rightarrow> 'h bus \<Rightarrow> ('h, u64 result) io" where
  "syscall_get_time p b = do { t \<leftarrow> mcycle p b; return (Ok t) }"

fun delay_loop :: "nat \<Rightarrow> ('h, u64) io \<Rightarrow> u64 \<Rightarrow> u64 \<Rightarrow> ('h, unit outcome) io" where
  "delay_loop 0 now start cycles_to_wait = return NoFuel"
| "delay_loop (Suc fuel) now start cycles_to_wait = do {
     t \<leftarrow> now;
     if t - start < cycles_to_wait then delay_loop fuel now start cycles_to_wait
     else return (Returned ()) }"

definition syscall_delay_us ::
    "nat \<Rightarrow> platform \<Rightarrow> 'h bus \<Rightarrow> u32 \<Rightarrow> ('h, unit result outcome) io" where
  "syscall_delay_us fuel p b us = do {
     start \<leftarrow> mcycle p b;
     let cycles_to_wait = ucast us * 100;
     then_run (delay_loop fuel (mcycle p b) start cycles_to_wait) (\<lambda>_. return (Returned (Ok ()))) }"

definition syscall_yield :: "('h, unit) io" where
  "syscall_yield = return ()"

section \<open>The placeholders\<close>

definition flash_syscall_read :: "u32 \<Rightarrow> u32 \<Rightarrow> u8 list \<Rightarrow> ('h, usize result \<times> u8 list) io" where
  "flash_syscall_read partition_id offset buffer = return (Ok 0, buffer)"

definition flash_syscall_write :: "u32 \<Rightarrow> u32 \<Rightarrow> u8 list \<Rightarrow> ('h, usize result) io" where
  "flash_syscall_write partition_id offset data = return (Ok 0)"

definition flash_syscall_erase :: "u32 \<Rightarrow> u32 \<Rightarrow> u32 \<Rightarrow> ('h, unit result) io" where
  "flash_syscall_erase partition_id offset len = return (Ok ())"

definition flash_syscall_partition_size :: "u32 \<Rightarrow> ('h, u32 result) io" where
  "flash_syscall_partition_size partition_id = return (Ok 0)"

definition mailbox_syscall_send_command :: "u32 \<Rightarrow> u32 list \<Rightarrow> ('h, unit result) io" where
  "mailbox_syscall_send_command cmd data = return (Ok ())"

definition mailbox_syscall_receive_response :: "u32 list \<Rightarrow> ('h, usize result \<times> u32 list) io" where
  "mailbox_syscall_receive_response buffer = return (Ok 0, buffer)"

definition mailbox_syscall_is_ready :: "('h, bool result) io" where
  "mailbox_syscall_is_ready = return (Ok True)"

definition sram_syscall_read :: "u32 \<Rightarrow> u8 list \<Rightarrow> ('h, usize result \<times> u8 list) io" where
  "sram_syscall_read offset buffer = return (Ok 0, buffer)"

definition sram_syscall_write :: "u32 \<Rightarrow> u8 list \<Rightarrow> ('h, usize result) io" where
  "sram_syscall_write offset data = return (Ok 0)"

definition mci_syscall_get_boot_status :: "('h, u32 result) io" where
  "mci_syscall_get_boot_status = return (Ok 0)"

definition mci_syscall_get_flow_status :: "('h, u32 result) io" where
  "mci_syscall_get_flow_status = return (Ok 0)"

definition mci_syscall_trigger_reset :: "('h, unit result) io" where
  "mci_syscall_trigger_reset = return (Ok ())"

definition mcu_mbox_syscall_send :: "u32 \<Rightarrow> u8 list \<Rightarrow> ('h, unit result) io" where
  "mcu_mbox_syscall_send target data = return (Ok ())"

definition mcu_mbox_syscall_receive :: "u32 \<Rightarrow> u8 list \<Rightarrow> ('h, usize result \<times> u32 \<times> u8 list) io" where
  "mcu_mbox_syscall_receive source buffer = return (Ok 0, source, buffer)"

definition mcu_mbox_syscall_has_pending_message :: "('h, bool result) io" where
  "mcu_mbox_syscall_has_pending_message = return (Ok False)"

section \<open>The delay\<close>

text \<open>The values successive reads of the counter return, from a state on.\<close>

fun reading :: "('h, u64) io \<Rightarrow> nat \<Rightarrow> 'h mach \<Rightarrow> u64" where
  "reading now 0 s = fst (run_state now s)"
| "reading now (Suc n) s = reading now n (snd (run_state now s))"

lemma ex_less_Suc: "(\<exists>n < Suc k. P n) \<longleftrightarrow> P 0 \<or> (\<exists>n < k. P (Suc n))"
  by (metis less_Suc_eq_0_disj)

lemma delay_loop_result:
  "fst (run_state (delay_loop fuel now start cycles) s) =
     (if \<exists>n < fuel. cycles \<le> reading now n s - start then Returned () else NoFuel)"
proof (induction fuel arbitrary: s)
  case 0
  then show ?case by simp
next
  case (Suc fuel)
  have *: "(\<exists>n < Suc fuel. cycles \<le> reading now n s - start) \<longleftrightarrow>
      cycles \<le> fst (run_state now s) - start \<or>
      (\<exists>n < fuel. cycles \<le> reading now n (snd (run_state now s)) - start)"
    by (subst ex_less_Suc) simp
  show ?case
    unfolding * by (cases "cycles \<le> fst (run_state now s) - start")
      (auto simp: Suc.IH not_le not_less)
qed

lemma delay_result:
  "fst (run_state (syscall_delay_us fuel p b us) s) =
     (if \<exists>n < fuel. ucast us * 100 \<le> reading (mcycle p b) (Suc n) s - reading (mcycle p b) 0 s
      then Returned (Ok ()) else NoFuel)"
  by (simp add: syscall_delay_us_def run_then_run delay_loop_result)

lemma cycles_value: "unat (ucast us * 100 :: u64) = unat us * 100" for us :: u32
proof -
  have "unat (ucast us :: u64) = unat us" using u32_bound [of us] by (simp add: unsigned_ucast_eq take_bit_nat_eq_self)
  moreover have "unat us * 100 < 2 ^ 64" using u32_bound [of us] by simp
  ultimately show ?thesis by (simp add: unat_mult_lem [THEN iffD1])
qed

lemma evenly_spaced:
  "(\<And>n. reading now (Suc n) s = reading now n s + k) \<Longrightarrow>
     reading now n s - reading now 0 s = of_nat n * k"
  by (induction n) (simp_all add: algebra_simps del: reading.simps)

text \<open>A counter that advances by a constant reaches any distance in that many steps.\<close>

lemma steps_reach:
  fixes c k :: u64
  assumes "k \<noteq> 0" "unat k < 2 ^ 63" "unat c < 2 ^ 63"
  shows "\<exists>n. n \<le> unat c \<and> c \<le> of_nat (Suc n) * k"
proof -
  define n where "n = unat c div unat k"
  have k: "0 < unat k" using assms(1) by (simp add: unat_gt_0)
  have le: "n * unat k \<le> unat c" unfolding n_def by simp
  then have "Suc n * unat k < 2 ^ 64" using assms(2,3) by simp
  then have "unat (of_nat (Suc n * unat k) :: u64) = Suc n * unat k"
    by (simp only: unat_of_nat) (simp add: take_bit_nat_eq_self)
  moreover have "of_nat (Suc n * unat k) = of_nat (Suc n) * k" by (simp add: distrib_right)
  ultimately have "unat (of_nat (Suc n) * k) = Suc n * unat k" by metis
  moreover have "unat c < Suc n * unat k"
    using k unfolding n_def by (simp add: dividend_less_div_times)
  ultimately have "c \<le> of_nat (Suc n) * k" by (simp add: word_le_nat_alt)
  moreover have "n \<le> unat c" unfolding n_def by simp
  ultimately show ?thesis by blast
qed

text \<open>A cycle counter that advances by one at every read of a half of it.\<close>

definition stepping_bus :: "u64 bus" where
  "stepping_bus = \<lparr>bus_read = \<lambda>a h. (0, h), bus_write = \<lambda>a v h. h,
     bus_csr = \<lambda>c h. (if c = Mcycle then ucast h else ucast (drop_bit 32 h), h + 1)\<rparr>"

section \<open>Properties\<close>

text \<open>
  \<^verbatim>\<open>syscall_delay_us\<close> returns success as soon as a reading of the counter
  after the first is at least 100 cycles per microsecond past the first, the difference
  taken in 64 bits, and not before; no other result is possible.
\<close>

theorem delay_us_waits:
  "fst (run_state (syscall_delay_us fuel p b us) s) =
     (if \<exists>n < fuel. unat us * 100 \<le> unat (reading (mcycle p b) (Suc n) s - reading (mcycle p b) 0 s)
      then Returned (Ok ()) else NoFuel)"
  using delay_result [of fuel p b us s] by (simp add: word_le_nat_alt cycles_value)

text \<open>
  On a counter that advances by a constant between two reads it returns: 100 tests per
  microsecond and one more are always enough.
\<close>

theorem delay_us_returns:
  assumes "\<forall>n. reading (mcycle p b) (Suc n) s = reading (mcycle p b) n s + k" "k \<noteq> 0" "unat k < 2 ^ 63"
    and "unat us * 100 < fuel"
  shows "fst (run_state (syscall_delay_us fuel p b us) s) = Returned (Ok ())"
proof -
  have "unat (ucast us * 100 :: u64) < 2 ^ 63"
    using u32_bound [of us] by (simp add: cycles_value)
  then obtain n where n: "n \<le> unat us * 100" "ucast us * 100 \<le> of_nat (Suc n) * k"
    using steps_reach [OF assms(2,3)] by (metis cycles_value)
  have "reading (mcycle p b) (Suc n) s - reading (mcycle p b) 0 s = of_nat (Suc n) * k"
    using assms(1) by (intro evenly_spaced) blast
  with n(2) have "ucast us * 100 \<le> reading (mcycle p b) (Suc n) s - reading (mcycle p b) 0 s" by (simp only:)
  moreover have "n < fuel" using n(1) assms(4) by simp
  ultimately have "\<exists>n < fuel. ucast us * 100 \<le> reading (mcycle p b) (Suc n) s - reading (mcycle p b) 0 s" by blast
  then show ?thesis unfolding delay_result by (simp only: if_True)
qed

definition ticking_bus :: "u64 bus" where
  "ticking_bus = \<lparr>bus_read = \<lambda>a h. (0, h), bus_write = \<lambda>a v h. h,
     bus_csr = \<lambda>c h. if c = Mcycle then (ucast h, h) else (ucast (drop_bit 32 h), h + 3)\<rparr>"

lemma ticking_run:
  "fst (run_state (mcycle Riscv32 ticking_bus) s) = hw s"
  "hw (snd (run_state (mcycle Riscv32 ticking_bus) s)) = hw s + 3"
  using mcycle_value [of ticking_bus "\<lambda>h. h" s]
  by (simp_all add: cycle_csrs_def ticking_bus_def first_now_def second_now_def glue_same
      mcycle_riscv_def run_mmio mcycle_def platform_mcycle_def)

lemma ticking_reading: "reading (mcycle Riscv32 ticking_bus) n s = hw s + of_nat n * 3"
  by (induction n arbitrary: s) (simp_all add: ticking_run algebra_simps)

theorem delay_us_returns_witness:
  "fst (run_state (syscall_delay_us 501 Riscv32 ticking_bus 5) (start_mach 7)) = Returned (Ok ())"
proof (rule delay_us_returns)
  show "\<forall>n. reading (mcycle Riscv32 ticking_bus) (Suc n) (start_mach 7) =
      reading (mcycle Riscv32 ticking_bus) n (start_mach 7) + 3"
    by (simp only: ticking_reading) (simp add: distrib_right)
qed simp_all

text \<open>
  On the host platform, whose cycle counter is always 0, no delay but the empty one
  ever returns.
\<close>

theorem host_delay_never_returns:
  assumes "us \<noteq> 0"
  shows "fst (run_state (syscall_delay_us fuel Host b us) s) = NoFuel"
proof -
  have "reading (mcycle Host b) n s = 0" for n
    by (induction n arbitrary: s) (simp_all add: mcycle_def platform_mcycle_def mcycle_host_def)
  moreover have "0 < unat us" using assms by (simp add: unat_gt_0)
  ultimately show ?thesis by (simp add: delay_result word_le_nat_alt cycles_value del: reading.simps)
qed

theorem host_delay_never_returns_witness:
  "fst (run_state (syscall_delay_us 1000 Host ram_bus 1) (start_mach (\<lambda>_. 0))) = NoFuel"
  by (rule host_delay_never_returns) simp


end
