(* ===== verification/Components.thy ===== *)
theory Components
  imports Capsules
begin

text \<open>
  The board components and the drivers of the runtime kernel, one class per file under
  \<^verbatim>\<open>src/runtime/kernel/components/src/\<close> and
  \<^verbatim>\<open>src/runtime/kernel/drivers/\<close>. The repository gives them no behaviour yet: a
  driver keeps its base address and every \<^verbatim>\<open>init\<close> is empty.
\<close>

section \<open>Drivers\<close>

record doe_driver =
  doe_driver_base :: uintptr

definition new_doe_driver :: "uintptr \<Rightarrow> doe_driver" where
  "new_doe_driver base_addr = \<lparr>doe_driver_base = base_addr\<rparr>"

definition doe_driver_init :: "doe_driver \<Rightarrow> ('h, unit) io" where
  "doe_driver_init d = return ()"

record flash_driver =
  flash_driver_base :: uintptr

definition new_flash_driver :: "uintptr \<Rightarrow> flash_driver" where
  "new_flash_driver base_addr = \<lparr>flash_driver_base = base_addr\<rparr>"

definition flash_driver_init :: "flash_driver \<Rightarrow> ('h, unit) io" where
  "flash_driver_init d = return ()"

record i3c_driver =
  i3c_driver_base :: uintptr

definition new_i3c_driver :: "uintptr \<Rightarrow> i3c_driver" where
  "new_i3c_driver base_addr = \<lparr>i3c_driver_base = base_addr\<rparr>"

definition i3c_driver_init :: "i3c_driver \<Rightarrow> ('h, unit) io" where
  "i3c_driver_init d = return ()"

record mcu_mbox_driver =
  mcu_mbox_driver_base :: uintptr

definition new_mcu_mbox_driver :: "uintptr \<Rightarrow> mcu_mbox_driver" where
  "new_mcu_mbox_driver base_addr = \<lparr>mcu_mbox_driver_base = base_addr\<rparr>"

definition mcu_mbox_driver_init :: "mcu_mbox_driver \<Rightarrow> ('h, unit) io" where
  "mcu_mbox_driver_init d = return ()"

section \<open>Components\<close>

definition dma_component_init :: "('h, unit) io" where
  "dma_component_init = return ()"

definition doe_component_init :: "('h, unit) io" where
  "doe_component_init = return ()"

definition flash_partition_component_init :: "('h, unit) io" where
  "flash_partition_component_init = return ()"

definition mailbox_component_init :: "('h, unit) io" where
  "mailbox_component_init = return ()"

definition mbox_sram_component_init :: "('h, unit) io" where
  "mbox_sram_component_init = return ()"

definition mci_component_init :: "('h, unit) io" where
  "mci_component_init = return ()"

definition mctp_driver_component_init :: "('h, unit) io" where
  "mctp_driver_component_init = return ()"

definition mcu_mbox_component_init :: "('h, unit) io" where
  "mcu_mbox_component_init = return ()"

definition mock_mctp_component_init :: "('h, unit) io" where
  "mock_mctp_component_init = return ()"

definition mux_mctp_component_init :: "('h, unit) io" where
  "mux_mctp_component_init = return ()"

definition system_component_init :: "('h, unit) io" where
  "system_component_init = return ()"

end
