(* ===== verification/LibcStubs.thy ===== *)
theory LibcStubs
  imports Common "HOL-Library.List_Lexorder"
begin

text \<open>
  The C library routines of the emulator build,
  \<^verbatim>\<open>src/platforms/emulator/rom/src/libc_stubs.cpp\<close>, over a byte memory. Pointers
  and \<^verbatim>\<open>size_t\<close> are 32-bit words and wrap; a \<^verbatim>\<open>while (count--)\<close> loop is
  recursion on the number of its iterations. Every routine that fills memory returns the
  memory and \<^verbatim>\<open>dest\<close>.
\<close>

type_synonym mem = "u32 \<Rightarrow> u8"

section \<open>The routines\<close>

fun memset_loop :: "nat \<Rightarrow> uintptr \<Rightarrow> u8 \<Rightarrow> mem \<Rightarrow> mem" where
  "memset_loop 0 d c m = m"
| "memset_loop (Suc n) d c m = memset_loop n (d + 1) c (m(d := c))"

definition memset :: "uintptr \<Rightarrow> u32 \<Rightarrow> usize \<Rightarrow> mem \<Rightarrow> mem \<times> uintptr" where
  "memset dest ch count m = (memset_loop (unat count) dest (ucast ch) m, dest)"

fun copy_up :: "nat \<Rightarrow> uintptr \<Rightarrow> uintptr \<Rightarrow> mem \<Rightarrow> mem" where
  "copy_up 0 d s m = m"
| "copy_up (Suc n) d s m = copy_up n (d + 1) (s + 1) (m(d := m s))"

definition memcpy :: "uintptr \<Rightarrow> uintptr \<Rightarrow> usize \<Rightarrow> mem \<Rightarrow> mem \<times> uintptr" where
  "memcpy dest src count m = (copy_up (unat count) dest src m, dest)"

fun copy_down :: "nat \<Rightarrow> uintptr \<Rightarrow> uintptr \<Rightarrow> mem \<Rightarrow> mem" where
  "copy_down 0 d s m = m"
| "copy_down (Suc n) d s m = (let d = d - 1; s = s - 1 in copy_down n d s (m(d := m s)))"

definition memmove :: "uintptr \<Rightarrow> uintptr \<Rightarrow> usize \<Rightarrow> mem \<Rightarrow> mem \<times> uintptr" where
  "memmove dest src count m =
     (if dest < src then (copy_up (unat count) dest src m, dest)
      else (copy_down (unat count) (dest + count) (src + count) m, dest))"

fun memcmp_loop :: "nat \<Rightarrow> uintptr \<Rightarrow> uintptr \<Rightarrow> mem \<Rightarrow> int" where
  "memcmp_loop 0 l r m = 0"
| "memcmp_loop (Suc n) l r m =
     (if m l \<noteq> m r then (if m l < m r then -1 else 1) else memcmp_loop n (l + 1) (r + 1) m)"

definition memcmp :: "uintptr \<Rightarrow> uintptr \<Rightarrow> usize \<Rightarrow> mem \<Rightarrow> int" where
  "memcmp lhs rhs count m = memcmp_loop (unat count) lhs rhs m"

text \<open>A string without a final NUL keeps \<^verbatim>\<open>strlen\<close> running: the value is \<open>None\<close>.\<close>

partial_function (option) strlen_loop :: "mem \<Rightarrow> uintptr \<Rightarrow> usize \<Rightarrow> usize option" where
  "strlen_loop m str len = (if m str \<noteq> 0 then strlen_loop m (str + 1) (len + 1) else Some len)"

definition strlen :: "mem \<Rightarrow> uintptr \<Rightarrow> usize option" where
  "strlen m str = strlen_loop m str 0"

text \<open>
  The stubs the compiler and the C++ library may call. Those that report an error halt in
  an endless loop; the ROM has no heap, so an allocation halts and a deallocation does
  nothing.
\<close>

definition cxa_pure_virtual :: "unit outcome" where
  "cxa_pure_virtual = Looping"

definition abort_stub :: "unit outcome" where
  "abort_stub = Looping"

definition glibcxx_assert_fail :: "string \<Rightarrow> int \<Rightarrow> string \<Rightarrow> string \<Rightarrow> unit outcome" where
  "glibcxx_assert_fail file line func cond = Looping"

definition operator_new :: "usize \<Rightarrow> uintptr outcome" where
  "operator_new count = Looping"

definition operator_new_array :: "usize \<Rightarrow> uintptr outcome" where
  "operator_new_array count = Looping"

definition operator_delete :: "uintptr \<Rightarrow> mem \<Rightarrow> mem outcome" where
  "operator_delete p m = Returned m"

definition operator_delete_array :: "uintptr \<Rightarrow> mem \<Rightarrow> mem outcome" where
  "operator_delete_array p m = Returned m"

definition operator_delete_sized :: "uintptr \<Rightarrow> usize \<Rightarrow> mem \<Rightarrow> mem outcome" where
  "operator_delete_sized p count m = Returned m"

definition operator_delete_array_sized :: "uintptr \<Rightarrow> usize \<Rightarrow> mem \<Rightarrow> mem outcome" where
  "operator_delete_array_sized p count m = Returned m"

section \<open>Copying\<close>

text \<open>What a copy should do: the bytes that were at the source are at the destination.\<close>

definition copied :: "nat \<Rightarrow> uintptr \<Rightarrow> uintptr \<Rightarrow> mem \<Rightarrow> mem" where
  "copied n dest src m = (\<lambda>a. if unat (a - dest) < n then m (src + (a - dest)) else m a)"

definition filled :: "nat \<Rightarrow> uintptr \<Rightarrow> u8 \<Rightarrow> mem \<Rightarrow> mem" where
  "filled n dest c m = (\<lambda>a. if unat (a - dest) < n then c else m a)"

lemma unat_inverse: "of_nat (unat x) = x" for x :: u32
  by simp

lemma unat_of_nat_u32: "n < 2 ^ 32 \<Longrightarrow> unat (of_nat n :: u32) = n"
  by (simp add: unat_of_nat take_bit_nat_eq_self)

lemma unat_pred: "x \<noteq> 0 \<Longrightarrow> unat (x - 1) = unat x - 1" for x :: u32
  by unat_arith

lemma offset_step:
  "a \<noteq> d \<Longrightarrow> unat (a - (d + 1)) < n \<longleftrightarrow> unat (a - d) < Suc n" for a d :: u32
  using unat_pred [of "a - d"] unat_gt_0 [of "a - d"] by (simp add: algebra_simps) linarith

lemma offset_last: "unat (d - (d + 1)) = 2 ^ 32 - 1" for d :: u32
proof -
  have "d - (d + 1) = - 1" by simp
  moreover have "unat (- 1 :: u32) = 2 ^ 32 - 1"
    by (simp add: unat_eq_nat_uint unsigned_minus_1_eq_mask mask_eq_exp_minus_1)
  ultimately show ?thesis by simp
qed

lemma memset_fills: "n \<le> 2 ^ 32 \<Longrightarrow> memset_loop n d c m = filled n d c m"
proof (induction n arbitrary: d m)
  case 0
  then show ?case by (simp add: filled_def)
next
  case (Suc n)
  then have "memset_loop (Suc n) d c m = filled n (d + 1) c (m(d := c))" by simp
  also have "\<dots> = filled (Suc n) d c m"
    using Suc.prems offset_step by (auto simp: filled_def fun_eq_iff)
  finally show ?case .
qed

text \<open>Copying upwards is right unless the destination starts inside the source.\<close>

lemma copy_up_copies:
  assumes "n \<le> 2 ^ 32" "d = s \<or> n \<le> unat (d - s)"
  shows "copy_up n d s m = copied n d s m"
  using assms
proof (induction n arbitrary: d s m)
  case 0
  then show ?case by (simp add: copied_def)
next
  case (Suc n)
  have "copy_up (Suc n) d s m = copied n (d + 1) (s + 1) (m(d := m s))"
    unfolding copy_up.simps using Suc.prems by (intro Suc.IH) auto
  also have "\<dots> = copied (Suc n) d s m"
  proof
    fix a
    show "copied n (d + 1) (s + 1) (m(d := m s)) a = copied (Suc n) d s m a"
    proof (cases "a = d")
      case True
      with Suc.prems show ?thesis by (auto simp: copied_def offset_last)
    next
      case False
      moreover have "s + (a - d) \<noteq> d \<or> d = s" if "unat (a - d) < Suc n"
        using that Suc.prems(2) by (metis add_diff_cancel_left' not_le)
      ultimately show ?thesis
        using offset_step [of a d n] by (auto simp: copied_def)
    qed
  qed
  finally show ?case .
qed

lemma copy_up_smears:
  "n < 2 ^ 32 \<Longrightarrow> copy_up n (s + 1) s m = filled n (s + 1) (m s) m"
proof (induction n arbitrary: s m)
  case 0
  then show ?case by (simp add: filled_def)
next
  case (Suc n)
  then have "copy_up (Suc n) (s + 1) s m =
      filled n (s + 1 + 1) ((m(s + 1 := m s)) (s + 1)) (m(s + 1 := m s))"
    unfolding copy_up.simps using Suc.prems by (intro Suc.IH) simp
  also have "\<dots> = filled (Suc n) (s + 1) (m s) m"
    using Suc.prems offset_step [of _ "s + 1" n] by (auto simp: filled_def fun_eq_iff)
  finally show ?case .
qed

text \<open>Copying downwards, from the ends, is right unless the source starts inside the destination.\<close>

lemma copy_down_copies:
  assumes "n \<le> 2 ^ 32" "d = s \<or> n \<le> unat (s - d)"
  shows "copy_down n (d + of_nat n) (s + of_nat n) m = copied n d s m"
  using assms
proof (induction n arbitrary: m)
  case 0
  then show ?case by (simp add: copied_def)
next
  case (Suc n)
  have *: "d + of_nat (Suc n) - 1 = d + of_nat n" "s + of_nat (Suc n) - 1 = s + of_nat n"
    by simp_all
  have "copy_down (Suc n) (d + of_nat (Suc n)) (s + of_nat (Suc n)) m =
      copied n d s (m(d + of_nat n := m (s + of_nat n)))"
    unfolding copy_down.simps Let_def * using Suc.prems by (intro Suc.IH) auto
  also have "\<dots> = copied (Suc n) d s m"
  proof
    fix a
    have n: "unat (of_nat n :: u32) = n"
      using Suc.prems(1) by (intro unat_of_nat_u32) simp
    show "copied n d s (m(d + of_nat n := m (s + of_nat n))) a = copied (Suc n) d s m a"
    proof (cases "a = d + of_nat n")
      case True
      with n show ?thesis by (simp add: copied_def)
    next
      case False
      then have "unat (a - d) \<noteq> n" using n by (metis diff_add_cancel add.commute unat_inverse)
      moreover have "s + (a - d) \<noteq> d + of_nat n \<or> d = s" if "unat (a - d) < n"
      proof (rule ccontr)
        assume "\<not> ?thesis"
        then have "s - d = of_nat n - (a - d)" "d \<noteq> s" by (auto simp: algebra_simps)
        moreover have "unat (of_nat n - (a - d)) \<le> n"
          using that n by (simp add: unat_sub word_le_nat_alt)
        ultimately show False using Suc.prems(2) by (metis not_less_eq_eq)
      qed
      ultimately show ?thesis
        using False by (auto simp: copied_def)
    qed
  qed
  finally show ?case .
qed

section \<open>Comparing\<close>

definition bytes_at :: "mem \<Rightarrow> uintptr \<Rightarrow> nat \<Rightarrow> u8 list" where
  "bytes_at m p n = map (\<lambda>i. m (p + of_nat i)) [0..<n]"

lemma bytes_at_simps [simp]:
  "bytes_at m p 0 = []"
  "bytes_at m p (Suc n) = m p # bytes_at m (p + 1) n"
  by (simp_all add: bytes_at_def upt_conv_Cons map_Suc_upt [symmetric] ac_simps del: upt_Suc)

lemma memcmp_loop_order:
  "memcmp_loop n l r m =
     (if bytes_at m l n = bytes_at m r n then 0 else if bytes_at m l n < bytes_at m r n then -1 else 1)"
  by (induction n arbitrary: l r) (auto simp: Cons_less_Cons)

section \<open>String length\<close>

declare strlen_loop.simps [simp del]

lemma strlen_loop_skips:
  "(\<And>i. i < n \<Longrightarrow> m (p + of_nat i) \<noteq> 0) \<Longrightarrow>
     strlen_loop m p k = strlen_loop m (p + of_nat n) (k + of_nat n)"
proof (induction n)
  case (Suc n)
  then have "strlen_loop m p k = strlen_loop m (p + of_nat n) (k + of_nat n)" by simp
  also have "\<dots> = strlen_loop m (p + of_nat n + 1) (k + of_nat n + 1)"
    using Suc.prems [of n] by (subst strlen_loop.simps) simp
  finally show ?case by (simp add: ac_simps)
qed simp

lemma strlen_loop_stops:
  assumes "strlen_loop m p k = Some l"
  shows "\<exists>a. m a = 0"
  by (rule strlen_loop.raw_induct [where P = "\<lambda>m p k l. \<exists>a. m a = 0", OF _ assms])
    (auto split: if_splits)

lemma strlen_unfold:
  "strlen m p =
     (if \<exists>n. m (p + of_nat n) = 0 then Some (of_nat (LEAST n. m (p + of_nat n) = 0)) else None)"
proof (cases "\<exists>n. m (p + of_nat n) = 0")
  case True
  let ?n = "LEAST n. m (p + of_nat n) = 0"
  have "m (p + of_nat ?n) = 0" using True by (rule LeastI_ex)
  moreover have "strlen_loop m p 0 = strlen_loop m (p + of_nat ?n) (of_nat ?n)"
    using strlen_loop_skips [of ?n m p 0] not_less_Least by fastforce
  ultimately show ?thesis
    using True by (simp add: strlen_def strlen_loop.simps [of m "p + of_nat ?n"])
next
  case False
  have "m a \<noteq> 0" for a
    using False by (metis add_diff_cancel_left' add_diff_eq unat_inverse)
  then show ?thesis
    using False strlen_loop_stops [of m p 0] unfolding strlen_def by (metis not_Some_eq)
qed

section \<open>The contract of a copy\<close>

definition apart_up :: "uintptr \<Rightarrow> uintptr \<Rightarrow> usize \<Rightarrow> bool" where
  "apart_up dest src count \<longleftrightarrow> dest = src \<or> unat count \<le> unat (dest - src)"

text \<open>Two regions that do not run past the end of the address space.\<close>

definition in_space :: "uintptr \<Rightarrow> uintptr \<Rightarrow> usize \<Rightarrow> bool" where
  "in_space dest src count \<longleftrightarrow>
     unat dest + unat count \<le> 2 ^ 32 \<and> unat src + unat count \<le> 2 ^ 32"

locale mem_copy =
  fixes cpy :: "uintptr \<Rightarrow> uintptr \<Rightarrow> usize \<Rightarrow> mem \<Rightarrow> mem \<times> uintptr"
    and legal :: "uintptr \<Rightarrow> uintptr \<Rightarrow> usize \<Rightarrow> bool"
  assumes cpy_copies: "legal d s n \<Longrightarrow> cpy d s n m = (copied (unat n) d s m, d)"
begin

lemma cpy_target:
  assumes "legal d s n"
  shows "bytes_at (fst (cpy d s n m)) d (unat n) = bytes_at m s (unat n)"
proof -
  have "unat (of_nat i :: u32) = i" if "i < unat n" for i
    using that u32_bound [of n] by (intro unat_of_nat_u32) simp
  then show ?thesis by (simp add: cpy_copies [OF assms] bytes_at_def copied_def)
qed

lemma cpy_frame:
  "legal d s n \<Longrightarrow> unat n \<le> unat (a - d) \<Longrightarrow> fst (cpy d s n m) a = m a"
  by (simp add: cpy_copies copied_def)

lemma cpy_spec:
  "legal d s n \<Longrightarrow> snd (cpy d s n m) = d \<and>
     bytes_at (fst (cpy d s n m)) d (unat n) = bytes_at m s (unat n) \<and>
     (\<forall>a. fst (cpy d s n m) a = (if unat (a - d) < unat n then m (s + (a - d)) else m a))"
  using cpy_target by (simp add: cpy_copies copied_def)

end

interpretation up: mem_copy memcpy apart_up
proof unfold_locales
  fix d s :: uintptr and n :: usize and m :: mem
  assume "apart_up d s n"
  then show "memcpy d s n m = (copied (unat n) d s m, d)"
    using copy_up_copies [of "unat n" d s m] u32_bound [of n] by (auto simp: memcpy_def apart_up_def)
qed

lemma below_wraps:
  "d < s \<Longrightarrow> unat s + unat n \<le> 2 ^ 32 \<Longrightarrow> unat n \<le> unat (d - s)" for d s n :: u32
  by (simp add: unat_sub_if' word_less_nat_alt)

interpretation move: mem_copy memmove in_space
proof unfold_locales
  fix d s :: uintptr and n :: usize and m :: mem
  assume ok: "in_space d s n"
  show "memmove d s n m = (copied (unat n) d s m, d)"
  proof (cases "d < s")
    case True
    with below_wraps [of d s n] ok show ?thesis
      using copy_up_copies [of "unat n" d s m] u32_bound [of n] by (simp add: memmove_def in_space_def)
  next
    case False
    then have "d = s \<or> s < d" by auto
    then have "d = s \<or> unat n \<le> unat (s - d)"
      using below_wraps [of s d n] ok by (auto simp: in_space_def)
    with False show ?thesis
      using copy_down_copies [of "unat n" d s m] u32_bound [of n] by (simp add: memmove_def)
  qed
qed

section \<open>Properties\<close>

text \<open>
  \<^verbatim>\<open>memmove\<close> copies between any two regions that end within the address
  space, however they overlap: the destination holds the bytes the source held before, no
  other byte changes, and the destination pointer is returned.
\<close>

theorem memmove_copies:
  assumes "unat dest + unat count \<le> 2 ^ 32" "unat src + unat count \<le> 2 ^ 32"
  shows "snd (memmove dest src count m) = dest \<and>
    bytes_at (fst (memmove dest src count m)) dest (unat count) = bytes_at m src (unat count) \<and>
    (\<forall>a. fst (memmove dest src count m) a =
      (if unat (a - dest) < unat count then m (src + (a - dest)) else m a))"
  using assms by (intro move.cpy_spec) (simp add: in_space_def)

theorem memmove_copies_witness:
  "bytes_at (fst (memmove 0x101 0x100 3 (\<lambda>a. ucast a))) 0x101 3 = [0, 1, 2]"
  using memmove_copies [of "0x101" 3 "0x100" "\<lambda>a. ucast a"]
  by (simp add: bytes_at_def upt_rec)

text \<open>
  \<^verbatim>\<open>memcpy\<close> does the same whenever the destination does not start inside the
  source. When it starts one byte into it, the first byte of the source is smeared over the
  whole destination instead.
\<close>

theorem memcpy_copies:
  assumes "apart_up dest src count"
  shows "snd (memcpy dest src count m) = dest \<and>
    bytes_at (fst (memcpy dest src count m)) dest (unat count) = bytes_at m src (unat count) \<and>
    (\<forall>a. fst (memcpy dest src count m) a =
      (if unat (a - dest) < unat count then m (src + (a - dest)) else m a)) \<and>
    fst (memcpy (src + 1) src count m) = filled (unat count) (src + 1) (m src) m"
  using up.cpy_spec [OF assms] copy_up_smears [of "unat count" src m] u32_bound [of count]
  by (simp add: memcpy_def)

theorem memcpy_copies_witness:
  "bytes_at (fst (memcpy 0x200 0x100 3 (\<lambda>a. ucast a))) 0x200 3 = [0, 1, 2]"
  using memcpy_copies [of "0x200" "0x100" 3 "\<lambda>a. ucast a"]
  by (simp add: apart_up_def bytes_at_def upt_rec)

text \<open>
  C34. \<^verbatim>\<open>memcmp\<close> orders two regions as the lists of their bytes are ordered: 0 for
  equal lists, negative when the first is lexicographically smaller, positive otherwise.
\<close>

theorem memcmp_is_lexicographic:
  "memcmp lhs rhs count m =
     (let xs = bytes_at m lhs (unat count); ys = bytes_at m rhs (unat count)
      in if xs = ys then 0 else if xs < ys then -1 else 1)"
  by (simp add: memcmp_def memcmp_loop_order Let_def)

text \<open>
  \<^verbatim>\<open>strlen\<close> returns the distance to the first NUL byte; it does not return
  exactly when the memory holds none.
\<close>

theorem strlen_finds_first_nul:
  "strlen m str =
     (if \<exists>n. m (str + of_nat n) = 0 then Some (of_nat (LEAST n. m (str + of_nat n) = 0)) else None)"
  by (rule strlen_unfold)

end
