(* ===== verification/Startup.thy ===== *)
theory Startup
  imports LibcStubs
begin

text \<open>
  The startup code \<^verbatim>\<open>src/platforms/emulator/rom/src/start.S\<close>, over the byte
  memory of theory LibcStubs: what runs before \<^verbatim>\<open>main\<close>, after it, and at the
  entry of an exception. The symbols it uses come from the linker; what
  \<^verbatim>\<open>rom.ld\<close> says of their order is the hypothesis \<open>laid_out\<close>.
\<close>

section \<open>The code\<close>

record symbols =
  GLOBAL_POINTER :: u32
  STACK_TOP :: u32
  ESTACK_START :: u32
  BSS_START :: u32
  BSS_END :: u32
  ROM_DATA_START :: u32
  DATA_START :: u32
  DATA_END :: u32
  MRAC_VALUE :: u32
  EXCEPTION_ENTRY :: u32

record core =
  reg_gp :: u32
  reg_sp :: u32
  csr_mtvec :: u32
  csr_mrac :: u32
  csr_mscratch :: u32
  ram :: mem

definition EMU_CTRL_EXIT :: u32 where
  "EMU_CTRL_EXIT = 0x2000F000"

text \<open>Loads and stores of words, little-endian.\<close>

definition lw :: "mem \<Rightarrow> uintptr \<Rightarrow> u32" where
  "lw m a = ucast (m a) OR push_bit 8 (ucast (m (a + 1))) OR
     push_bit 16 (ucast (m (a + 2))) OR push_bit 24 (ucast (m (a + 3)))"

definition sw :: "uintptr \<Rightarrow> u32 \<Rightarrow> mem \<Rightarrow> mem" where
  "sw a w m = m(a := ucast w, a + 1 := ucast (drop_bit 8 w),
     a + 2 := ucast (drop_bit 16 w), a + 3 := ucast (drop_bit 24 w))"

text \<open>The two loops; \<^verbatim>\<open>bge\<close> compares signed. A loop that does not end is \<open>None\<close>.\<close>

partial_function (option) zero_bss :: "u32 \<Rightarrow> u32 \<Rightarrow> mem \<Rightarrow> mem option" where
  "zero_bss t0 t1 m =
     (if sint t0 \<ge> sint t1 then Some m else zero_bss (t0 + 4) t1 (sw t0 0 m))"

partial_function (option) copy_data :: "u32 \<Rightarrow> u32 \<Rightarrow> u32 \<Rightarrow> mem \<Rightarrow> mem option" where
  "copy_data t0 t1 t2 m =
     (if sint t1 \<ge> sint t2 then Some m
      else copy_data (t0 + 4) (t1 + 4) t2 (sw t1 (lw m t0) m))"

text \<open>From \<^verbatim>\<open>_start\<close> to the call of \<^verbatim>\<open>main\<close>.\<close>

definition start :: "symbols \<Rightarrow> core \<Rightarrow> core option" where
  "start y c =
     (let c = c\<lparr>reg_gp := GLOBAL_POINTER y, reg_sp := STACK_TOP y,
                csr_mtvec := EXCEPTION_ENTRY y, csr_mrac := MRAC_VALUE y\<rparr>
      in case zero_bss (BSS_START y) (BSS_END y) (ram c) of
           None \<Rightarrow> None
         | Some m \<Rightarrow> (case copy_data (ROM_DATA_START y) (DATA_START y) (DATA_END y) m of
             None \<Rightarrow> None
           | Some m' \<Rightarrow> Some (c\<lparr>ram := m'\<rparr>)))"

text \<open>If \<^verbatim>\<open>main\<close> returned, a zero word would go to the exit port.\<close>

definition after_main :: "core \<Rightarrow> core" where
  "after_main c = c\<lparr>ram := sw EMU_CTRL_EXIT 0 (ram c)\<rparr>"

definition exception_entry :: "symbols \<Rightarrow> core \<Rightarrow> core" where
  "exception_entry y c = c\<lparr>csr_mscratch := reg_sp c, reg_sp := ESTACK_START y\<rparr>"

declare zero_bss.simps [simp del] copy_data.simps [simp del]

section \<open>The loops as byte loops\<close>

lemma memset_loop_add:
  "memset_loop (i + n) d c m = memset_loop n (d + of_nat i) c (memset_loop i d c m)"
  by (induction i arbitrary: d m) (simp_all add: ac_simps)

lemma copy_up_add:
  "copy_up (i + n) d s m = copy_up n (d + of_nat i) (s + of_nat i) (copy_up i d s m)"
  by (induction i arbitrary: d s m) (simp_all add: ac_simps)

lemma sw_zero: "sw d 0 m = memset_loop 4 d 0 m"
  by (simp add: sw_def numeral_eq_Suc ac_simps)

lemma byte_high [simp]: "8 \<le> n \<Longrightarrow> \<not> bit w n" for w :: u8
  by (auto dest: bit_imp_le_length)

lemma lw_bytes:
  "ucast (lw m a) = m a" "ucast (drop_bit 8 (lw m a)) = m (a + 1)"
  "ucast (drop_bit 16 (lw m a)) = m (a + 2)" "ucast (drop_bit 24 (lw m a)) = m (a + 3)"
  by (auto simp: lw_def bit_simps intro!: bit_word_eqI dest: bit_imp_le_length)

text \<open>Moving a word moves its bytes, unless it is moved up by less than a word.\<close>

lemma sw_lw:
  assumes "4 \<le> unat (d - s)"
  shows "sw d (lw m s) m = copy_up 4 d s m"
proof -
  have "d - s \<notin> {1, 2, 3}" using assms by auto
  then have "s + 1 \<noteq> d" "s + 2 \<noteq> d" "s + 3 \<noteq> d" "1 + s \<noteq> d" "2 + s \<noteq> d" "3 + s \<noteq> d" by auto
  then have "copy_up (Suc (Suc (Suc (Suc 0)))) d s m = sw d (lw m s) m"
    by (simp add: sw_def lw_bytes add.assoc)
  then show ?thesis by (simp add: numeral_eq_Suc)
qed

lemma sint_low: "unat x < 2 ^ 31 \<Longrightarrow> sint x = uint x" for x :: u32
proof -
  assume "unat x < 2 ^ 31"
  then have "int (unat x) < int (2 ^ 31)" by (simp only: of_nat_less_iff)
  then have "uint x < 2 ^ 31" by simp
  moreover have "- (2 ^ 31) \<le> uint x" by (rule order_trans [OF _ uint_ge_0]) simp
  ultimately show "sint x = uint x"
    unfolding sint_uint by (intro signed_take_bit_int_eq_self) simp_all
qed

lemma sint_le_low:
  "unat x < 2 ^ 31 \<Longrightarrow> unat y < 2 ^ 31 \<Longrightarrow> sint x \<le> sint y \<longleftrightarrow> unat x \<le> unat y" for x y :: u32
  by (simp add: sint_low word_le_def [symmetric] word_le_nat_alt)

definition words_between :: "u32 \<Rightarrow> u32 \<Rightarrow> nat" where
  "words_between t0 t1 = (unat t1 - unat t0 + 3) div 4"

lemma div_4_step: "0 < d \<Longrightarrow> (d + 3) div 4 = Suc ((d - 4 + 3) div 4)" for d :: nat
  by (cases "d < 4") (auto simp: le_div_geq div_eq_0_iff)

lemma words_between_0: "unat t1 \<le> unat t0 \<Longrightarrow> words_between t0 t1 = 0"
  by (simp add: words_between_def)

lemma words_between_step:
  assumes "unat t0 < unat t1" "unat t1 + 3 < 2 ^ 31"
  shows "unat (t0 + 4) = unat t0 + 4" "words_between t0 t1 = Suc (words_between (t0 + 4) t1)"
proof -
  show *: "unat (t0 + 4) = unat t0 + 4" using assms by (simp add: unat_word_ariths)
  show "words_between t0 t1 = Suc (words_between (t0 + 4) t1)"
    using div_4_step [of "unat t1 - unat t0"] assms(1) by (simp add: words_between_def *)
qed

lemma zero_bss_fills:
  "unat t0 \<le> unat t1 + 3 \<Longrightarrow> unat t1 + 3 < 2 ^ 31 \<Longrightarrow>
     zero_bss t0 t1 m = Some (memset_loop (4 * words_between t0 t1) t0 0 m)"
proof (induction "words_between t0 t1" arbitrary: t0 m)
  case 0
  then have "unat t1 \<le> unat t0" by (simp add: words_between_def)
  then have "sint t1 \<le> sint t0" using 0 by (simp add: sint_le_low)
  then show ?case using 0(1) by (simp add: zero_bss.simps)
next
  case (Suc n)
  then have lt: "unat t0 < unat t1"
    by (metis words_between_0 nat.distinct(1) not_less)
  note step = words_between_step [OF lt Suc.prems(2)]
  have "\<not> sint t0 \<ge> sint t1" using lt Suc.prems by (simp add: sint_le_low)
  then have "zero_bss t0 t1 m = zero_bss (t0 + 4) t1 (memset_loop 4 t0 0 m)"
    by (subst zero_bss.simps) (simp add: sw_zero)
  also have "\<dots> = Some (memset_loop (4 * words_between (t0 + 4) t1) (t0 + 4) 0 (memset_loop 4 t0 0 m))"
    using Suc.hyps(2) Suc.prems lt step by (intro Suc.hyps(1)) simp_all
  also have "\<dots> = Some (memset_loop (4 * words_between t0 t1) t0 0 m)"
    using memset_loop_add [of 4 _ t0 0 m] step(2) by simp
  finally show ?case .
qed

lemma copy_data_copies:
  "unat t1 \<le> unat t2 + 3 \<Longrightarrow> unat t2 + 3 < 2 ^ 31 \<Longrightarrow> 4 \<le> unat (t1 - t0) \<Longrightarrow>
     copy_data t0 t1 t2 m = Some (copy_up (4 * words_between t1 t2) t1 t0 m)"
proof (induction "words_between t1 t2" arbitrary: t0 t1 m)
  case 0
  then have "unat t2 \<le> unat t1" by (simp add: words_between_def)
  then have "sint t2 \<le> sint t1" using 0 by (simp add: sint_le_low)
  then show ?case using 0(1) by (simp add: copy_data.simps)
next
  case (Suc n)
  then have lt: "unat t1 < unat t2"
    by (metis words_between_0 nat.distinct(1) not_less)
  note step = words_between_step [OF lt Suc.prems(2)]
  have "\<not> sint t1 \<ge> sint t2" using lt Suc.prems by (simp add: sint_le_low)
  then have "copy_data t0 t1 t2 m = copy_data (t0 + 4) (t1 + 4) t2 (copy_up 4 t1 t0 m)"
    by (subst copy_data.simps) (simp add: sw_lw [OF Suc.prems(3)])
  also have "\<dots> = Some (copy_up (4 * words_between (t1 + 4) t2) (t1 + 4) (t0 + 4) (copy_up 4 t1 t0 m))"
    using Suc.hyps(2) Suc.prems lt step by (intro Suc.hyps(1)) simp_all
  also have "\<dots> = Some (copy_up (4 * words_between t1 t2) t1 t0 m)"
    using copy_up_add [of 4 _ t1 t0 m] step(2) by simp
  finally show ?case .
qed

section \<open>The memory \<^verbatim>\<open>main\<close> starts with\<close>

text \<open>
  The layout of \<^verbatim>\<open>rom.ld\<close>: .data and then .bss in SRAM, both starting on a word,
  and the image of .data in ROM.
\<close>

definition laid_out :: "symbols \<Rightarrow> bool" where
  "laid_out y \<longleftrightarrow>
     0x40000000 \<le> DATA_START y \<and> DATA_START y \<le> DATA_END y \<and> DATA_END y \<le> BSS_START y \<and>
     BSS_START y \<le> BSS_END y \<and> BSS_END y \<le> 0x40080000 \<and>
     unat (DATA_START y) mod 4 = 0 \<and> unat (BSS_START y) mod 4 = 0 \<and>
     0x80000000 \<le> ROM_DATA_START y \<and>
     unat (ROM_DATA_START y) + (unat (DATA_END y) - unat (DATA_START y)) \<le> 0x80010000"

text \<open>The same in natural numbers.\<close>

lemma laid_out_nat:
  assumes "laid_out y"
  shows "0x40000000 \<le> unat (DATA_START y)" "unat (DATA_START y) \<le> unat (DATA_END y)"
    "unat (DATA_END y) \<le> unat (BSS_START y)" "unat (BSS_START y) \<le> unat (BSS_END y)"
    "unat (BSS_END y) \<le> 0x40080000" "0x80000000 \<le> unat (ROM_DATA_START y)"
    "unat (ROM_DATA_START y) + (unat (DATA_END y) - unat (DATA_START y)) \<le> 0x80010000"
  using assms by (auto simp: laid_out_def word_le_nat_alt)

definition bss_words :: "symbols \<Rightarrow> nat" where
  "bss_words y = words_between (BSS_START y) (BSS_END y)"

definition data_words :: "symbols \<Rightarrow> nat" where
  "data_words y = words_between (DATA_START y) (DATA_END y)"

lemma words_cover: "unat t1 - unat t0 \<le> 4 * words_between t0 t1"
  and words_bound: "4 * words_between t0 t1 \<le> unat t1 - unat t0 + 3"
  unfolding words_between_def by simp_all

text \<open>The last word of .data may reach past its end, but not into .bss.\<close>

lemma round_up_le: "d \<le> e \<Longrightarrow> e mod 4 = 0 \<Longrightarrow> 4 * ((d + 3) div 4) \<le> e" for d e :: nat
  by (elim dvdE [OF mod_0_imp_dvd]) simp

lemma mod_4_diff: "x mod 4 = 0 \<Longrightarrow> z mod 4 = 0 \<Longrightarrow> (z - x) mod 4 = 0" for x z :: nat
  by (auto simp: mod_0_imp_dvd)

lemma data_before_bss:
  assumes "laid_out y"
  shows "4 * data_words y \<le> unat (BSS_START y) - unat (DATA_START y)"
  unfolding data_words_def words_between_def
proof (rule round_up_le)
  show "unat (DATA_END y) - unat (DATA_START y) \<le> unat (BSS_START y) - unat (DATA_START y)"
    using laid_out_nat [OF assms] by simp
  show "(unat (BSS_START y) - unat (DATA_START y)) mod 4 = 0"
    using assms by (intro mod_4_diff) (simp_all add: laid_out_def)
qed

definition main_memory :: "symbols \<Rightarrow> mem \<Rightarrow> mem" where
  "main_memory y m = copied (4 * data_words y) (DATA_START y) (ROM_DATA_START y)
     (filled (4 * bss_words y) (BSS_START y) 0 m)"

lemma start_memory:
  assumes "laid_out y"
  shows "start y c = Some (c\<lparr>reg_gp := GLOBAL_POINTER y, reg_sp := STACK_TOP y,
      csr_mtvec := EXCEPTION_ENTRY y, csr_mrac := MRAC_VALUE y,
      ram := main_memory y (ram c)\<rparr>)"
proof -
  note n = laid_out_nat [OF assms]
  have b: "4 * bss_words y \<le> 2 ^ 32" "4 * data_words y \<le> 0x80003"
    using words_bound [of "BSS_START y" "BSS_END y"] words_bound [of "DATA_START y" "DATA_END y"] n
    by (simp_all add: bss_words_def data_words_def)
  have gap: "0x80003 \<le> unat (DATA_START y - ROM_DATA_START y)"
    using n u32_bound [of "ROM_DATA_START y"] by (simp add: unat_sub_if')
  have zero: "zero_bss (BSS_START y) (BSS_END y) m =
      Some (filled (4 * bss_words y) (BSS_START y) 0 m)" for m
    using zero_bss_fills [of "BSS_START y" "BSS_END y" m] memset_fills [OF b(1)] n
    by (simp add: bss_words_def)
  have copy: "copy_data (ROM_DATA_START y) (DATA_START y) (DATA_END y) m =
      Some (copied (4 * data_words y) (DATA_START y) (ROM_DATA_START y) m)" for m
    using copy_data_copies [of "DATA_START y" "DATA_END y" "ROM_DATA_START y" m]
      copy_up_copies [of "4 * data_words y" "DATA_START y" "ROM_DATA_START y" m] n b gap
    by (simp add: data_words_def)
  show ?thesis by (simp add: start_def Let_def zero copy main_memory_def)
qed

text \<open>What it holds, section by section.\<close>

lemma main_memory_bss:
  assumes "laid_out y" "BSS_START y \<le> a" "a < BSS_END y"
  shows "main_memory y m a = 0"
proof -
  note n = laid_out_nat [OF assms(1)] and data = data_before_bss [OF assms(1)]
  have lt: "unat (BSS_START y) \<le> unat a" "unat a < unat (BSS_END y)"
    using assms(2,3) by (simp_all add: word_le_nat_alt word_less_nat_alt)
  then have "unat (a - DATA_START y) = unat a - unat (DATA_START y)"
    "unat (a - BSS_START y) = unat a - unat (BSS_START y)"
    using n by (simp_all add: unat_sub_if')
  then have "\<not> unat (a - DATA_START y) < 4 * data_words y" "unat (a - BSS_START y) < 4 * bss_words y"
    using n data words_cover [of "BSS_END y" "BSS_START y"] lt unfolding bss_words_def by linarith+
  then show ?thesis by (simp add: main_memory_def copied_def filled_def)
qed

lemma main_memory_data:
  assumes "laid_out y" "DATA_START y \<le> a" "a < DATA_END y"
  shows "main_memory y m a = m (ROM_DATA_START y + (a - DATA_START y))"
proof -
  let ?src = "ROM_DATA_START y + (a - DATA_START y)"
  note n = laid_out_nat [OF assms(1)]
  have lt: "unat (DATA_START y) \<le> unat a" "unat a < unat (DATA_END y)"
    using assms(2,3) by (simp_all add: word_le_nat_alt word_less_nat_alt)
  have off: "unat (a - DATA_START y) = unat a - unat (DATA_START y)"
    using assms(2) by (simp add: unat_sub word_le_nat_alt)
  then have src: "unat ?src = unat (ROM_DATA_START y) + (unat a - unat (DATA_START y))"
    using lt n by (simp add: unat_word_ariths)
  have "unat (a - DATA_START y) < 4 * data_words y"
    using off lt words_cover [of "DATA_END y" "DATA_START y"] unfolding data_words_def by linarith
  moreover have "\<not> unat (?src - BSS_START y) < 4 * bss_words y"
    using src n words_bound [of "BSS_START y" "BSS_END y"] by (simp add: unat_sub_if' bss_words_def)
  ultimately show ?thesis by (simp add: main_memory_def copied_def filled_def)
qed

lemma main_memory_rest:
  assumes "laid_out y" "a < DATA_START y \<or> BSS_END y + 3 \<le> a"
  shows "main_memory y m a = m a"
proof -
  note n = laid_out_nat [OF assms(1)] and data = data_before_bss [OF assms(1)]
  have "unat (BSS_END y + 3) = unat (BSS_END y) + 3" using n by (simp add: unat_word_ariths)
  moreover have "unat (BSS_START y) + 4 * bss_words y \<le> unat (BSS_END y) + 3" "4 * bss_words y \<le> 0x80003"
    using words_bound [of "BSS_START y" "BSS_END y"] n by (simp_all add: bss_words_def)
  ultimately have "\<not> unat (a - DATA_START y) < 4 * data_words y" "\<not> unat (a - BSS_START y) < 4 * bss_words y"
    using assms(2) n data by (auto simp: unat_sub_if' word_le_nat_alt word_less_nat_alt)
  then show ?thesis by (simp add: main_memory_def copied_def filled_def)
qed

section \<open>Properties\<close>

text \<open>
  C33. With the layout of the linker script the startup code reaches \<^verbatim>\<open>main\<close> with
  the stack, the trap vector and the region control set, every byte of .bss zero and every
  byte of .data copied from its image in ROM, although both loops work in words and may pass
  the end of their section by up to three bytes; memory below .data and from three bytes
  after .bss on is untouched.
\<close>

theorem start_initialises_memory:
  assumes "laid_out y"
  shows "\<exists>m. start y c = Some (c\<lparr>reg_gp := GLOBAL_POINTER y, reg_sp := STACK_TOP y,
      csr_mtvec := EXCEPTION_ENTRY y, csr_mrac := MRAC_VALUE y, ram := m\<rparr>) \<and>
    (\<forall>a. BSS_START y \<le> a \<and> a < BSS_END y \<longrightarrow> m a = 0) \<and>
    (\<forall>a. DATA_START y \<le> a \<and> a < DATA_END y \<longrightarrow>
       m a = ram c (ROM_DATA_START y + (a - DATA_START y))) \<and>
    (\<forall>a. a < DATA_START y \<or> BSS_END y + 3 \<le> a \<longrightarrow> m a = ram c a)"
  using start_memory [OF assms, of c] main_memory_bss [OF assms] main_memory_data [OF assms]
    main_memory_rest [OF assms]
  by blast

definition example_symbols :: symbols where
  "example_symbols = \<lparr>GLOBAL_POINTER = 0x40000800, STACK_TOP = 0x40003000, ESTACK_START = 0x40003200,
     BSS_START = 0x40000010, BSS_END = 0x40000021, ROM_DATA_START = 0x80001000,
     DATA_START = 0x40000000, DATA_END = 0x4000000D, MRAC_VALUE = 0xAAAAAAAA,
     EXCEPTION_ENTRY = 0x80000080\<rparr>"

theorem start_initialises_memory_witness:
  "\<exists>c'. start example_symbols \<lparr>reg_gp = 0, reg_sp = 0, csr_mtvec = 0, csr_mrac = 0, csr_mscratch = 0,
       ram = (\<lambda>a. ucast a)\<rparr> = Some c' \<and> reg_sp c' = 0x40003000 \<and>
     ram c' 0x40000020 = 0 \<and> ram c' 0x4000000C = 0x0C"
  using start_initialises_memory [of example_symbols "\<lparr>reg_gp = 0, reg_sp = 0, csr_mtvec = 0,
      csr_mrac = 0, csr_mscratch = 0, ram = (\<lambda>a. ucast a)\<rparr>"]
  by (fastforce simp: laid_out_def example_symbols_def)

end
