(* ===== verification/StaticRef.thy ===== *)
theory StaticRef
  imports Common
begin

text \<open>
  \<^verbatim>\<open>StaticRef<T>\<close> of \<^verbatim>\<open>src/include/common/static_ref.hpp\<close>: a pointer to
  statically allocated data, held as its address. A dereference gives a reference, which is
  the address again; dereferencing the null pointer is undefined behaviour.
\<close>

record static_ref =
  ref_ptr :: uintptr

definition ref_of_ptr :: "uintptr \<Rightarrow> static_ref" where
  "ref_of_ptr ptr = \<lparr>ref_ptr = ptr\<rparr>"

definition ref_of_addr :: "uintptr \<Rightarrow> static_ref" where
  "ref_of_addr addr = \<lparr>ref_ptr = addr\<rparr>"

definition ref_null :: static_ref where
  "ref_null = \<lparr>ref_ptr = 0\<rparr>"

definition ref_copy :: "static_ref \<Rightarrow> static_ref" where
  "ref_copy r = r"

definition ref_assign :: "static_ref \<Rightarrow> static_ref \<Rightarrow> static_ref" where
  "ref_assign this other = this\<lparr>ref_ptr := ref_ptr other\<rparr>"

definition ref_deref :: "static_ref \<Rightarrow> uintptr outcome" where
  "ref_deref r = (if ref_ptr r = 0 then Undefined else Returned (ref_ptr r))"

definition ref_arrow :: "static_ref \<Rightarrow> uintptr" where
  "ref_arrow r = ref_ptr r"

definition ref_get :: "static_ref \<Rightarrow> uintptr" where
  "ref_get r = ref_ptr r"

definition ref_valid :: "static_ref \<Rightarrow> bool" where
  "ref_valid r \<longleftrightarrow> ref_ptr r \<noteq> 0"

definition ref_eq :: "static_ref \<Rightarrow> static_ref \<Rightarrow> bool" where
  "ref_eq r q \<longleftrightarrow> ref_ptr r = ref_ptr q"

definition ref_ne :: "static_ref \<Rightarrow> static_ref \<Rightarrow> bool" where
  "ref_ne r q \<longleftrightarrow> ref_ptr r \<noteq> ref_ptr q"

lemmas ref_defs = ref_of_ptr_def ref_of_addr_def ref_null_def ref_copy_def ref_assign_def
  ref_deref_def ref_arrow_def ref_get_def ref_valid_def ref_eq_def ref_ne_def

text \<open>Comparison is identity, and the validity test is what makes a dereference defined.\<close>

lemma ref_eq_iff [simp]: "ref_eq r q \<longleftrightarrow> r = q" "ref_ne r q \<longleftrightarrow> r \<noteq> q"
  for r q :: static_ref
  by (cases r; cases q; simp add: ref_defs)+

lemma ref_valid_deref: "ref_valid r \<longleftrightarrow> ref_deref r = Returned (ref_get r)"
  by (simp add: ref_defs)

lemma ref_null_invalid: "\<not> ref_valid ref_null" "ref_deref ref_null = Undefined"
  by (simp_all add: ref_defs)

lemma ref_assign_eq: "ref_assign this other = other" for this other :: static_ref
  by (simp add: ref_defs)

end
