(* ===== verification/Veer.thy ===== *)
theory Veer
  imports Crc8
begin

text \<open>
  The VeeR chip support of the runtime kernel, \<^verbatim>\<open>src/runtime/kernel/veer/\<close>. The
  only state its code touches is the MIE bit of \<^verbatim>\<open>mstatus\<close>, and that only on
  RISC-V; every other operation is a placeholder that ignores its arguments.
\<close>

section \<open>The interrupt controller\<close>

record hart =
  mstatus :: u32

definition interrupts_init :: "hart \<Rightarrow> hart" where
  "interrupts_init h = h"

text \<open>The MIE bit, the immediate of both instructions.\<close>

definition mstatus_mie :: u32 where
  "mstatus_mie = 0x8"

text \<open>\<^verbatim>\<open>csrsi\<close> sets and \<^verbatim>\<open>csrci\<close> clears the bits of its immediate.\<close>

definition enable_interrupts :: "platform \<Rightarrow> hart \<Rightarrow> hart" where
  "enable_interrupts p h =
     (case p of Riscv32 \<Rightarrow> h\<lparr>mstatus := mstatus h OR mstatus_mie\<rparr> | Host \<Rightarrow> h)"

definition disable_interrupts :: "platform \<Rightarrow> hart \<Rightarrow> hart" where
  "disable_interrupts p h =
     (case p of Riscv32 \<Rightarrow> h\<lparr>mstatus := mstatus h AND NOT mstatus_mie\<rparr> | Host \<Rightarrow> h)"

definition enable_interrupt :: "u32 \<Rightarrow> hart \<Rightarrow> hart" where
  "enable_interrupt irq h = h"

definition disable_interrupt :: "u32 \<Rightarrow> hart \<Rightarrow> hart" where
  "disable_interrupt irq h = h"

definition interrupt_set_priority :: "u32 \<Rightarrow> u8 \<Rightarrow> hart \<Rightarrow> hart" where
  "interrupt_set_priority irq priority h = h"

definition interrupt_acknowledge :: "u32 \<Rightarrow> hart \<Rightarrow> hart" where
  "interrupt_acknowledge irq h = h"

section \<open>The chip\<close>

definition chip_init :: "hart \<Rightarrow> hart" where
  "chip_init h = h"

definition chip_id :: u32 where
  "chip_id = 0"

definition chip_configure_watchdog :: "u32 \<Rightarrow> hart \<Rightarrow> hart" where
  "chip_configure_watchdog timeout h = h"

definition chip_pet_watchdog :: "hart \<Rightarrow> hart" where
  "chip_pet_watchdog h = h"

section \<open>Masking interrupts\<close>

text \<open>A sequence of the two switches, in any order.\<close>

definition switch :: "platform \<Rightarrow> bool \<Rightarrow> hart \<Rightarrow> hart" where
  "switch p on = (if on then enable_interrupts p else disable_interrupts p)"

definition interrupts_enabled :: "hart \<Rightarrow> bool" where
  "interrupts_enabled h \<longleftrightarrow> bit (mstatus h) 3"

lemma bit_mie: "bit mstatus_mie n \<longleftrightarrow> n = 3"
proof -
  have *: "mstatus_mie = push_bit 3 1" by (simp add: mstatus_mie_def)
  show ?thesis unfolding * bit_push_bit_iff bit_1_iff by auto
qed

lemma switch_enabled: "interrupts_enabled (switch Riscv32 on h) \<longleftrightarrow> on"
  by (simp add: switch_def interrupts_enabled_def enable_interrupts_def disable_interrupts_def
      bit_or_iff bit_and_iff bit_not_iff bit_mie)

lemma switch_host: "switch Host on h = h"
  by (simp add: switch_def enable_interrupts_def disable_interrupts_def)

lemma switch_other: "mstatus (switch p on h) AND NOT mstatus_mie = mstatus h AND NOT mstatus_mie"
proof (cases p)
  case Riscv32
  then show ?thesis
    by (auto intro!: bit_word_eqI simp: switch_def enable_interrupts_def disable_interrupts_def
        bit_or_iff bit_and_iff bit_not_iff bit_mie)
qed (simp add: switch_host)

section \<open>Properties\<close>

text \<open>
  On RISC-V the last of any sequence of switches decides whether interrupts are enabled, and
  none of them changes another bit of \<^verbatim>\<open>mstatus\<close>; on the host they do nothing.
\<close>

theorem interrupts_switched:
  "(interrupts_enabled (fold (switch Riscv32) (ons @ [on]) h) \<longleftrightarrow> on) \<and>
   mstatus (fold (switch Riscv32) ons h) AND NOT mstatus_mie = mstatus h AND NOT mstatus_mie \<and>
   fold (switch Host) ons h = h"
proof (intro conjI)
  show "mstatus (fold (switch Riscv32) ons h) AND NOT mstatus_mie = mstatus h AND NOT mstatus_mie"
    by (induction ons arbitrary: h) (simp_all add: switch_other)
  show "fold (switch Host) ons h = h"
    by (induction ons) (simp_all add: switch_host)
qed (simp add: switch_enabled)

end
