(* ===== verification/Access.thy ===== *)
theory Access
  imports Romtime
begin

text \<open>
  What a piece of the firmware can do to the hardware: the accesses it records are the ones
  that moved the hardware from one state to the next, they stay within given sets of
  registers, and there is a bound on their number. The rules follow the constructs of the
  programs, so that the judgement of a whole program is found by applying them.
\<close>

section \<open>Replaying a trace\<close>

text \<open>\<open>bus_run b h es h'\<close>: the accesses \<open>es\<close>, made in order, lead from \<open>h\<close> to \<open>h'\<close>.\<close>

inductive bus_run :: "'h bus \<Rightarrow> 'h \<Rightarrow> event list \<Rightarrow> 'h \<Rightarrow> bool" for b where
  run_nil: "bus_run b h [] h"
| run_rd: "bus_read b a h = (v, h1) \<Longrightarrow> bus_run b h1 es h2 \<Longrightarrow> bus_run b h (Rd a v # es) h2"
| run_wr: "bus_run b (bus_write b a v h) es h2 \<Longrightarrow> bus_run b h (Wr a v # es) h2"

inductive_simps bus_run_simps [simp]:
  "bus_run b h [] h'"
  "bus_run b h (Rd a v # es) h'"
  "bus_run b h (Wr a v # es) h'"

lemma bus_run_append: "bus_run b h es h1 \<Longrightarrow> bus_run b h1 fs h2 \<Longrightarrow> bus_run b h (es @ fs) h2"
  by (induction rule: bus_run.induct) auto

text \<open>The accesses and the hardware they leave are determined by the reads and the writes.\<close>

lemma bus_run_unique: "bus_run b h es h1 \<Longrightarrow> bus_run b h es h2 \<Longrightarrow> h1 = h2"
  by (induction rule: bus_run.induct) auto

text \<open>A fact about the hardware that every access of a run keeps holds at its end.\<close>

lemma bus_run_invariant:
  assumes "bus_run b h es h'" "P h"
    and "\<And>a v h. Rd a v \<in> set es \<Longrightarrow> P h \<Longrightarrow> P (snd (bus_read b a h))"
    and "\<And>a v h. Wr a v \<in> set es \<Longrightarrow> P h \<Longrightarrow> P (bus_write b a v h)"
  shows "P h'"
  using assms
proof (induction rule: bus_run.induct)
  case (run_rd a h v h1 es h2)
  have "P h1" using run_rd.prems(1,2) run_rd.hyps(1) by (metis list.set_intros(1) snd_conv)
  then show ?case by (rule run_rd.IH) (auto intro: run_rd.prems)
next
  case (run_wr a v h es h2)
  have "P (bus_write b a v h)" using run_wr.prems(1,3) by (meson list.set_intros(1))
  then show ?case by (rule run_wr.IH) (auto intro: run_wr.prems)
qed simp

section \<open>Staying within a set of registers\<close>

fun event_within :: "u32 set \<Rightarrow> u32 set \<Rightarrow> event \<Rightarrow> bool" where
  "event_within R W (Rd a v) \<longleftrightarrow> a \<in> R"
| "event_within R W (Wr a v) \<longleftrightarrow> a \<in> W"

definition moved :: "'h bus \<Rightarrow> 'h mach \<Rightarrow> event list \<Rightarrow> 'h mach \<Rightarrow> bool" where
  "moved b s es s' \<longleftrightarrow> trace s' = trace s @ es \<and> bus_run b (hw s) es (hw s')"

text \<open>
  \<open>goes\<close>: by at most \<open>n\<close> accesses within the registers; \<open>confined\<close>: every run of
  the program does.
\<close>

definition goes :: "'h bus \<Rightarrow> u32 set \<Rightarrow> u32 set \<Rightarrow> nat \<Rightarrow> 'h mach \<Rightarrow> 'h mach \<Rightarrow> bool" where
  "goes b R W n s s' \<longleftrightarrow>
     (\<exists>es. moved b s es s' \<and> list_all (event_within R W) es \<and> length es \<le> n)"

definition confined :: "'h bus \<Rightarrow> u32 set \<Rightarrow> u32 set \<Rightarrow> nat \<Rightarrow> ('h, 'a) io \<Rightarrow> bool" where
  "confined b R W n m \<longleftrightarrow>
     (\<forall>s. goes b R W n s (snd (run_state m s)))"

lemma moved_refl: "moved b s [] s"
  by (simp add: moved_def)

lemma moved_trans: "moved b s es s1 \<Longrightarrow> moved b s1 fs s2 \<Longrightarrow> moved b s (es @ fs) s2"
  by (auto simp: moved_def intro: bus_run_append)

lemma confinedD:
  assumes "confined b R W n m"
  obtains es where "moved b s es (snd (run_state m s))" "list_all (event_within R W) es" "length es \<le> n"
  using assms unfolding confined_def goes_def by blast

lemma confined_goes: "confined b R W n m \<Longrightarrow> goes b R W n s (snd (run_state m s))"
  by (simp add: confined_def)

lemma goes_refl: "goes b R W n s s"
  unfolding goes_def by (intro exI [of _ "[]"]) (simp add: moved_refl)

lemma goes_trans: "goes b R W n s s1 \<Longrightarrow> goes b R W k s1 s2 \<Longrightarrow> goes b R W (n + k) s s2"
  unfolding goes_def
  by (elim exE conjE) (intro exI conjI, erule (1) moved_trans, simp_all)

lemma goes_mono: "goes b R W n s s1 \<Longrightarrow> n \<le> k \<Longrightarrow> goes b R W k s s1"
  unfolding goes_def by (meson order_trans)

lemma goes_read: "a \<in> R \<Longrightarrow> goes b R W 1 s (snd (run_state (mmio_read b a) s))"
  unfolding goes_def
  by (intro exI [of _ "[Rd a (fst (bus_read b a (hw s)))]"]) (simp add: moved_def run_mmio prod_eq_iff)

lemma goes_write: "a \<in> W \<Longrightarrow> goes b R W 1 s (snd (run_state (mmio_write b a v) s))"
  unfolding goes_def by (intro exI [of _ "[Wr a v]"]) (simp add: moved_def run_mmio)

lemma confined_cong: "(\<And>s. snd (run_state m s) = snd (run_state m' s)) \<Longrightarrow> confined b R W n m = confined b R W n m'"
  by (simp add: confined_def)

lemma confined_mono: "confined b R W n m \<Longrightarrow> n \<le> k \<Longrightarrow> confined b R W k m"
  by (meson confined_def goes_mono)

lemma event_within_mono: "event_within R W e \<Longrightarrow> R \<subseteq> R' \<Longrightarrow> W \<subseteq> W' \<Longrightarrow> event_within R' W' e"
  by (cases e) auto

lemma events_within_mono:
  "list_all (event_within R W) es \<Longrightarrow> R \<subseteq> R' \<Longrightarrow> W \<subseteq> W' \<Longrightarrow> list_all (event_within R' W') es"
  by (erule list.pred_mono_strong) (rule event_within_mono)

lemma confined_sets: "confined b R W n m \<Longrightarrow> R \<subseteq> R' \<Longrightarrow> W \<subseteq> W' \<Longrightarrow> confined b R' W' n m"
  unfolding confined_def goes_def by (meson events_within_mono)

section \<open>The rules\<close>

named_theorems confine \<open>rules of the confinement judgement\<close>

lemma confined_silent:
  "(\<And>s. hw (snd (run_state m s)) = hw s \<and> trace (snd (run_state m s)) = trace s) \<Longrightarrow> confined b R W 0 m"
  unfolding confined_def goes_def by (intro allI exI [of _ "[]"]) (simp add: moved_def)

lemma confined_return [confine]: "confined b R W 0 (return x)"
  by (rule confined_silent) simp

lemma confined_get [confine]: "confined b R W 0 State_Monad.get"
  by (rule confined_silent) simp

lemma confined_print [confine]: "confined b R W 0 (print str)"
  by (rule confined_silent) (simp add: frame)

lemma confined_println [confine]: "confined b R W 0 (println str)"
  by (rule confined_silent) (simp add: frame)

lemma confined_hex [confine]: "confined b R W 0 (print_hex_word v)"
  by (rule confined_silent) (simp add: frame)

lemma confined_set_printer [confine]: "confined b R W 0 (set_printer w)"
  by (rule confined_silent) (simp add: run_set_printer)

lemma confined_read [confine]: "a \<in> R \<Longrightarrow> confined b R W 1 (mmio_read b a)"
  unfolding confined_def by (intro allI goes_read)

lemma confined_write [confine]: "a \<in> W \<Longrightarrow> confined b R W 1 (mmio_write b a v)"
  unfolding confined_def by (intro allI goes_write)

lemma confined_bind [confine]:
  assumes "confined b R W n m" "\<And>x. confined b R W k (f x)"
  shows "confined b R W (n + k) (State_Monad.bind m f)"
  using assms unfolding confined_def by (auto intro: goes_trans)

lemma confined_if [confine]:
  "confined b R W n m \<Longrightarrow> confined b R W k m' \<Longrightarrow> confined b R W (max n k) (if c then m else m')"
  by (auto intro: confined_mono)

lemma confined_case_sum [confine]:
  assumes "\<And>e. confined b R W n (f e)" "\<And>a. confined b R W k (g a)"
  shows "confined b R W (max n k) (case x of Inl e \<Rightarrow> f e | Inr a \<Rightarrow> g a)"
  by (cases x) (simp_all add: assms [THEN confined_mono])

lemma confined_case_option [confine]:
  assumes "confined b R W n m" "\<And>a. confined b R W k (g a)"
  shows "confined b R W (max n k) (case x of None \<Rightarrow> m | Some a \<Rightarrow> g a)"
  by (cases x) (simp_all add: assms [THEN confined_mono])

lemma confined_or_return [confine]:
  assumes "confined b R W n m" "\<And>x. confined b R W k (f x)"
  shows "confined b R W (n + k) (or_return m f)"
proof -
  have "confined b R W (n + max 0 k) (or_return m f)"
    unfolding or_return_def by (intro confine assms)
  then show ?thesis by simp
qed

lemma confined_let [confine]: "confined b R W n (f x) \<Longrightarrow> confined b R W n (Let x f)"
  by simp

lemma confined_case_prod [confine]:
  "(\<And>x y. confined b R W n (f x y)) \<Longrightarrow> confined b R W n (case p of (x, y) \<Rightarrow> f x y)"
  by (cases p) simp

context status_poll
begin

lemma wait_goes: "a \<in> R \<Longrightarrow> goes b R W (poll_budget t) s (snd (run_state (wait t) s))"
proof (induction "poll_budget t" arbitrary: t s rule: less_induct)
  case less
  have one: "goes b R W (Suc 0) s (after s)"
    using goes_read [OF less.prems] by simp
  have budget: "Suc 0 \<le> poll_budget t" by (simp add: Suc_le_eq)
  have same: "goes b R W n s s1 \<Longrightarrow> hw s2 = hw s1 \<Longrightarrow> trace s2 = trace s1 \<Longrightarrow> goes b R W n s s2" for n s s1 s2
    by (simp add: goes_def moved_def)
  show ?case
  proof (cases rule: poll_cases [where s = s and t = t])
    case ready
    then show ?thesis using goes_mono [OF one budget] by (simp add: wait_ready)
  next
    case last
    then show ?thesis
      using same [OF goes_mono [OF one budget] leave_frame] by (simp add: wait_last)
  next
    case again
    have "goes b R W (Suc 0 + poll_budget (t - 1)) s (snd (run_state (wait (t - 1)) (again (after s))))"
      using goes_trans [OF same [OF one again_frame]
          less.hyps [OF countdown_measure [OF again(2)] less.prems]] .
    with again show ?thesis by (simp add: wait_again poll_budget_step)
  qed
qed

lemma wait_confined: "a \<in> R \<Longrightarrow> confined b R W (poll_budget t) (wait t)"
  by (simp add: confined_def wait_goes)

end

section \<open>What confinement gives\<close>

text \<open>A part of the hardware that no read and no allowed write touches is left alone.\<close>

lemma confined_keeps:
  assumes "confined b R W n m"
    and "\<And>a h. a \<in> R \<Longrightarrow> view (snd (bus_read b a h)) = view h"
    and "\<And>a v h. a \<in> W \<Longrightarrow> view (bus_write b a v h) = view h"
  shows "view (hw (snd (run_state m s))) = view (hw s)"
proof -
  obtain es where es: "moved b s es (snd (run_state m s))" "list_all (event_within R W) es"
    using assms(1) by (rule confinedD)
  have run: "bus_run b (hw s) es (hw (snd (run_state m s)))" using es(1) by (simp add: moved_def)
  have "\<forall>e \<in> set es. event_within R W e" using es(2) by (simp add: list_all_iff)
  then show ?thesis
    by (intro bus_run_invariant [OF run, where P = "\<lambda>h. view h = view (hw s)"])
      (auto simp: assms(2,3))
qed

end
