(* ===== verification/SocManager.thy ===== *)
theory SocManager
  imports Access
begin

text \<open>
  The Caliptra SoC manager, \<^verbatim>\<open>src/romtime/include/romtime/soc_manager.hpp\<close> and
  \<^verbatim>\<open>src/romtime/src/soc_manager.cpp\<close>: the mailbox protocol between the MCU and
  Caliptra, the response iterator and the checksum. Caller buffers are lists of words, the
  count passed beside a pointer is the list's length; an operation that writes a buffer
  returns it.
\<close>

section \<open>Constants\<close>

definition MAILBOX_SIZE :: usize where [reg_offsets]: "MAILBOX_SIZE = 256 * 1024"

definition MAX_WAIT_CYCLES :: u32 where [reg_offsets]: "MAX_WAIT_CYCLES = 400000"

definition MBOX_LOCK :: usize where [reg_offsets]: "MBOX_LOCK = 0x00"

definition MBOX_CMD :: usize where [reg_offsets]: "MBOX_CMD = 0x04"

definition MBOX_DLEN :: usize where [reg_offsets]: "MBOX_DLEN = 0x08"

definition MBOX_DATAIN :: usize where [reg_offsets]: "MBOX_DATAIN = 0x0C"

definition MBOX_DATAOUT :: usize where [reg_offsets]: "MBOX_DATAOUT = 0x10"

definition MBOX_STATUS :: usize where [reg_offsets]: "MBOX_STATUS = 0x14"

definition MBOX_EXECUTE :: usize where [reg_offsets]: "MBOX_EXECUTE = 0x18"

definition SOC_IFC_CPTRA_FW_ERROR_FATAL :: usize where [reg_offsets]:
  "SOC_IFC_CPTRA_FW_ERROR_FATAL = 0x00"

definition SOC_IFC_CPTRA_FW_ERROR_NON_FATAL :: usize where [reg_offsets]:
  "SOC_IFC_CPTRA_FW_ERROR_NON_FATAL = 0x04"

definition MBOX_STATUS_CMD_BUSY :: u32 where [reg_offsets]: "MBOX_STATUS_CMD_BUSY = 0x01"

definition MBOX_STATUS_CMD_FAILURE :: u32 where [reg_offsets]: "MBOX_STATUS_CMD_FAILURE = 0x02"

definition MBOX_STATUS_CMD_COMPLETE :: u32 where [reg_offsets]: "MBOX_STATUS_CMD_COMPLETE = 0x04"

definition MBOX_STATUS_DATA_READY :: u32 where [reg_offsets]: "MBOX_STATUS_DATA_READY = 0x08"

definition DEFAULT_SOC_IFC_ADDR :: u32 where [reg_offsets]: "DEFAULT_SOC_IFC_ADDR = 0x30030000"

definition DEFAULT_MBOX_ADDR :: u32 where [reg_offsets]: "DEFAULT_MBOX_ADDR = 0x30020000"

text \<open>The iterator class has register offsets of its own.\<close>

definition RESP_MBOX_DATAOUT :: usize where [reg_offsets]: "RESP_MBOX_DATAOUT = 0x00"

definition RESP_MBOX_EXECUTE :: usize where [reg_offsets]: "RESP_MBOX_EXECUTE = 0x04"

text \<open>Sizes of \<^verbatim>\<open>MailboxReqHeader\<close> (one word) and \<^verbatim>\<open>MailboxRespHeader\<close> (two).\<close>

definition REQ_HEADER_SIZE :: usize where [reg_offsets]: "REQ_HEADER_SIZE = 4"

definition RESP_HEADER_SIZE :: usize where [reg_offsets]: "RESP_HEADER_SIZE = 8"

text \<open>The error enumeration of the header, which the code never returns.\<close>

datatype caliptra_api_error =
    ApiSuccess | BufferTooLargeForMailbox | UnableToLockMailbox | MailboxTimeout | MailboxCmdFailed
  | MailboxRespTypeTooSmall | MailboxReqTypeTooSmall | MailboxNoResponseData | UnknownCommandStatus
  | MailboxRespInvalidChecksum

section \<open>The checksum\<close>

definition bytes_le :: "u32 \<Rightarrow> u8 list" where
  "bytes_le w = map (\<lambda>i. ucast (drop_bit (8 * i) w)) [0, 1, 2, 3]"

fun add_payload :: "u32 \<Rightarrow> u8 list \<Rightarrow> u32" where
  "add_payload checksum [] = checksum"
| "add_payload checksum (p # ps) = add_payload (checksum + ucast p) ps"

definition calc_checksum :: "u32 \<Rightarrow> u8 list \<Rightarrow> u32" where
  "calc_checksum cmd payload =
     (let checksum = 0;
          checksum = checksum + (drop_bit 0 cmd AND 0xFF);
          checksum = checksum + (drop_bit 8 cmd AND 0xFF);
          checksum = checksum + (drop_bit 16 cmd AND 0xFF);
          checksum = checksum + (drop_bit 24 cmd AND 0xFF);
          checksum = add_payload checksum payload
      in NOT checksum + 1)"

section \<open>The response iterator\<close>

record mailbox_response =
  resp_mbox_base :: uintptr
  resp_idx :: usize
  resp_dlen :: usize
  resp_checksum :: u32
  resp_expected :: u32
  resp_released :: bool

definition new_response :: "uintptr \<Rightarrow> usize \<Rightarrow> u32 \<Rightarrow> mailbox_response" where
  "new_response mbox_base dlen_bytes expected_checksum =
     \<lparr>resp_mbox_base = mbox_base, resp_idx = 0, resp_dlen = dlen_bytes, resp_checksum = 0,
      resp_expected = expected_checksum, resp_released = False\<rparr>"

definition response_destroy :: "'h bus \<Rightarrow> mailbox_response \<Rightarrow> ('h, unit) io" where
  "response_destroy b r =
     (if \<not> resp_released r then mmio_write b (resp_mbox_base r + RESP_MBOX_EXECUTE) 0 else return ())"

definition response_move :: "mailbox_response \<Rightarrow> mailbox_response \<times> mailbox_response" where
  "response_move other = (other, other\<lparr>resp_released := True\<rparr>)"

text \<open>Move assignment between two distinct objects.\<close>

definition response_move_assign :: "'h bus \<Rightarrow> mailbox_response \<Rightarrow> mailbox_response \<Rightarrow>
    ('h, mailbox_response \<times> mailbox_response) io" where
  "response_move_assign b this other = do {
     (if \<not> resp_released this then mmio_write b (resp_mbox_base this + RESP_MBOX_EXECUTE) 0
      else return ());
     return (other, other\<lparr>resp_released := True\<rparr>) }"

definition verify_checksum :: "mailbox_response \<Rightarrow> unit result" where
  "verify_checksum r =
     (let checksum = 0 - resp_checksum r
      in if checksum = resp_expected r then Ok () else Err MBOX_INVALID_RESPONSE)"

definition response_len :: "mailbox_response \<Rightarrow> usize" where
  "response_len r = resp_dlen r"

definition response_is_empty :: "mailbox_response \<Rightarrow> bool" where
  "response_is_empty r \<longleftrightarrow> resp_dlen r = 0"

definition word_count :: "mailbox_response \<Rightarrow> usize" where
  "word_count r = (resp_dlen r + 3) div 4"

definition response_next :: "'h bus \<Rightarrow> mailbox_response \<Rightarrow> ('h, u32 option \<times> mailbox_response) io" where
  "response_next b r =
     (if resp_idx r \<ge> word_count r then return (None, r)
      else if resp_idx r = 0 then return (Some (resp_expected r), r\<lparr>resp_idx := resp_idx r + 1\<rparr>)
      else do {
        data \<leftarrow> mmio_read b (resp_mbox_base r + RESP_MBOX_DATAOUT);
        let idx = resp_idx r + 1;
        let left = resp_dlen r - (idx - 1) * 4;
        let remaining_bytes = (if left > 4 then 4 else left);
        let valid_data = (if remaining_bytes < 4
                          then data AND (push_bit (unat (remaining_bytes * 8)) 1 - 1) else data);
        let checksum = foldl (\<lambda>c i. c + (drop_bit (i * 8) valid_data AND 0xFF))
                         (resp_checksum r) [0..<unat remaining_bytes];
        return (Some valid_data, r\<lparr>resp_idx := idx, resp_checksum := checksum\<rparr>) })"

definition response_reset :: "mailbox_response \<Rightarrow> mailbox_response" where
  "response_reset r = r\<lparr>resp_idx := 0, resp_checksum := 0\<rparr>"

section \<open>The SoC manager\<close>

record caliptra_soc =
  soc_ifc_addr :: uintptr
  soc_ifc_trng_addr :: uintptr
  soc_mbox_addr :: uintptr

definition value_or :: "'a option \<Rightarrow> 'a \<Rightarrow> 'a" where
  "value_or x d = (case x of Some v \<Rightarrow> v | None \<Rightarrow> d)"

definition new_caliptra_soc :: "u32 option \<Rightarrow> u32 option \<Rightarrow> u32 option \<Rightarrow> caliptra_soc" where
  "new_caliptra_soc ifc trng mbox =
     \<lparr>soc_ifc_addr = value_or ifc DEFAULT_SOC_IFC_ADDR,
      soc_ifc_trng_addr = value_or trng DEFAULT_SOC_IFC_ADDR,
      soc_mbox_addr = value_or mbox DEFAULT_MBOX_ADDR\<rparr>"

definition read_soc_ifc :: "'h bus \<Rightarrow> caliptra_soc \<Rightarrow> usize \<Rightarrow> ('h, u32) io" where [io_defs]:
  "read_soc_ifc b c offset = mmio_read b (soc_ifc_addr c + offset)"

definition read_soc_mbox :: "'h bus \<Rightarrow> caliptra_soc \<Rightarrow> usize \<Rightarrow> ('h, u32) io" where [io_defs]:
  "read_soc_mbox b c offset = mmio_read b (soc_mbox_addr c + offset)"

definition write_soc_ifc :: "'h bus \<Rightarrow> caliptra_soc \<Rightarrow> usize \<Rightarrow> u32 \<Rightarrow> ('h, unit) io" where [io_defs]:
  "write_soc_ifc b c offset v = mmio_write b (soc_ifc_addr c + offset) v"

definition write_soc_mbox :: "'h bus \<Rightarrow> caliptra_soc \<Rightarrow> usize \<Rightarrow> u32 \<Rightarrow> ('h, unit) io" where [io_defs]:
  "write_soc_mbox b c offset v = mmio_write b (soc_mbox_addr c + offset) v"

interpretation soc_ifc: register_block b "soc_ifc_addr c" "read_soc_ifc b c" "write_soc_ifc b c"
  for b c
  by unfold_locales (simp_all add: io_defs)

interpretation soc_mbox: register_block b "soc_mbox_addr c" "read_soc_mbox b c" "write_soc_mbox b c"
  for b c
  by unfold_locales (simp_all add: io_defs)

definition is_mailbox_busy :: "'h bus \<Rightarrow> caliptra_soc \<Rightarrow> ('h, bool) io" where
  "is_mailbox_busy b c = do {
     w \<leftarrow> read_soc_mbox b c MBOX_STATUS;
     return (w AND MBOX_STATUS_CMD_BUSY \<noteq> 0) }"

definition delay :: "('h, unit) io" where
  "delay = State (\<lambda>s. ((), s\<lparr>soc_counter := soc_counter s + 1\<rparr>))"

lemma run_delay: "run_state delay s = ((), s\<lparr>soc_counter := soc_counter s + 1\<rparr>)"
  by (simp add: delay_def)

definition lock_mailbox :: "'h bus \<Rightarrow> caliptra_soc \<Rightarrow> ('h, unit result) io" where
  "lock_mailbox b c = do {
     w \<leftarrow> read_soc_mbox b c MBOX_LOCK;
     return (if w AND 0x01 \<noteq> 0 then Err MBOX_LOCK_FAILED else Ok ()) }"

definition set_command :: "'h bus \<Rightarrow> caliptra_soc \<Rightarrow> u32 \<Rightarrow> usize \<Rightarrow> ('h, unit result) io" where
  "set_command b c cmd payload_len_bytes = do {
     w \<leftarrow> read_soc_mbox b c MBOX_LOCK;
     if w AND 0x01 = 0 then return (Err MBOX_LOCK_FAILED)
     else do {
       write_soc_mbox b c MBOX_CMD cmd;
       write_soc_mbox b c MBOX_DLEN payload_len_bytes;
       return (Ok ()) } }"

definition write_data :: "'h bus \<Rightarrow> caliptra_soc \<Rightarrow> u32 \<Rightarrow> ('h, unit result) io" where
  "write_data b c data = do {
     w \<leftarrow> read_soc_mbox b c MBOX_LOCK;
     if w AND 0x01 = 0 then return (Err MBOX_LOCK_FAILED)
     else do { write_soc_mbox b c MBOX_DATAIN data; return (Ok ()) } }"

definition execute_command :: "'h bus \<Rightarrow> caliptra_soc \<Rightarrow> ('h, unit result) io" where
  "execute_command b c = do {
     w \<leftarrow> read_soc_mbox b c MBOX_LOCK;
     if w AND 0x01 = 0 then return (Err MBOX_LOCK_FAILED)
     else do { write_soc_mbox b c MBOX_EXECUTE 0x01; return (Ok ()) } }"

fun write_all_datain :: "'h bus \<Rightarrow> caliptra_soc \<Rightarrow> u32 list \<Rightarrow> ('h, unit) io" where
  "write_all_datain b c [] = return ()"
| "write_all_datain b c (d # ds) = do { write_soc_mbox b c MBOX_DATAIN d; write_all_datain b c ds }"

definition start_mailbox_req :: "'h bus \<Rightarrow> caliptra_soc \<Rightarrow> u32 \<Rightarrow> usize \<Rightarrow> u32 list \<Rightarrow> ('h, unit result) io" where
  "start_mailbox_req b c cmd len_bytes data =
     (if len_bytes > MAILBOX_SIZE then return (Err MBOX_INVALID_RESPONSE)
      else or_return (lock_mailbox b c) (\<lambda>_.
           or_return (set_command b c cmd len_bytes) (\<lambda>_. do {
             write_all_datain b c data;
             write_soc_mbox b c MBOX_EXECUTE 0x01;
             return (Ok ()) })))"

definition initiate_request :: "'h bus \<Rightarrow> caliptra_soc \<Rightarrow> u32 \<Rightarrow> usize \<Rightarrow> ('h, unit result) io" where
  "initiate_request b c cmd len_bytes =
     (if len_bytes > MAILBOX_SIZE then return (Err MBOX_INVALID_RESPONSE)
      else or_return (lock_mailbox b c) (\<lambda>_. set_command b c cmd len_bytes))"

text \<open>The busy-wait of \<^verbatim>\<open>finish_mailbox_resp\<close>.\<close>

function wait_not_busy :: "'h bus \<Rightarrow> caliptra_soc \<Rightarrow> u32 \<Rightarrow> ('h, unit result) io" where
  "wait_not_busy b c timeout_cycles = do {
     w \<leftarrow> read_soc_mbox b c MBOX_STATUS;
     if w AND MBOX_STATUS_CMD_BUSY \<noteq> 0 then do {
       delay;
       if timeout_cycles - 1 = 0 then return (Err MBOX_TIMEOUT)
       else wait_not_busy b c (timeout_cycles - 1) }
     else return (Ok ()) }"
  by pat_completeness auto
termination
  by (relation "measure (\<lambda>(b, c, t). poll_budget t)") (simp_all add: countdown_measure)

declare wait_not_busy.simps [simp del]

definition finish_mailbox_resp :: "'h bus \<Rightarrow> caliptra_soc \<Rightarrow> usize \<Rightarrow> usize \<Rightarrow>
    ('h, mailbox_response option result) io" where
  "finish_mailbox_resp b c resp_min_size resp_size =
     (if resp_size < RESP_HEADER_SIZE then return (Err MBOX_INVALID_RESPONSE)
      else if resp_min_size < RESP_HEADER_SIZE then return (Err MBOX_INVALID_RESPONSE)
      else or_return (wait_not_busy b c MAX_WAIT_CYCLES) (\<lambda>_. do {
        status \<leftarrow> read_soc_mbox b c MBOX_STATUS;
        if status AND MBOX_STATUS_CMD_FAILURE \<noteq> 0 then do {
          write_soc_mbox b c MBOX_EXECUTE 0;
          error_code \<leftarrow> read_soc_ifc b c SOC_IFC_CPTRA_FW_ERROR_FATAL;
          (if error_code = 0 then do {
             _ \<leftarrow> read_soc_ifc b c SOC_IFC_CPTRA_FW_ERROR_NON_FATAL; return () }
           else return ());
          return (Err MBOX_CMD_FAILED) }
        else if status AND MBOX_STATUS_CMD_COMPLETE \<noteq> 0 then do {
          write_soc_mbox b c MBOX_EXECUTE 0;
          return (Ok None) }
        else if status AND MBOX_STATUS_DATA_READY = 0 then return (Err MBOX_INVALID_RESPONSE)
        else do {
          dlen_bytes \<leftarrow> read_soc_mbox b c MBOX_DLEN;
          expected_checksum \<leftarrow> read_soc_mbox b c MBOX_DATAOUT;
          return (Ok (Some (new_response (soc_mbox_addr c) dlen_bytes expected_checksum))) } }))"

text \<open>
  The read loop of \<^verbatim>\<open>exec_mailbox_req_u32\<close>: words beyond the caller's buffer are
  read and dropped. It runs on the machine state, so that the recursion can be seen to
  stop: every word moves the iterator's index up to the word count.
\<close>

lemma response_next_Some:
  "run_state (response_next b r) s = ((Some w, r'), s') \<Longrightarrow>
     resp_idx r < word_count r \<and> resp_idx r' = resp_idx r + 1 \<and> resp_dlen r' = resp_dlen r"
  by (auto simp: response_next_def run_mmio Let_def not_le word_gt_0 split: if_splits)

lemma index_step_measure: "i < n \<Longrightarrow> unat n - unat (i + 1) < unat n - unat i" for i n :: u32
  by unat_arith

function drain_response :: "'h bus \<Rightarrow> mailbox_response \<Rightarrow> usize \<Rightarrow> u32 list \<Rightarrow> 'h mach \<Rightarrow>
    (mailbox_response \<times> u32 list) \<times> 'h mach" where
  "drain_response b r i resp s =
     (case run_state (response_next b r) s of
        ((None, r'), s') \<Rightarrow> ((r', resp), s')
      | ((Some word, r'), s') \<Rightarrow>
          drain_response b r' (i + 1)
            (if i < of_nat (length resp) then resp[unat i := word] else resp) s')"
  by pat_completeness auto
termination
proof (relation "measure (\<lambda>(b, r, i, resp, s). unat (word_count r) - unat (resp_idx r))",
    goal_cases)
  case 1
  then show ?case by simp
next
  case (2 b r i resp s p s' q r' w)
  then have *: "run_state (response_next b r) s = ((Some w, r'), s')" by simp
  from response_next_Some [OF this] show ?case
    by (simp add: word_count_def index_step_measure)
qed

declare drain_response.simps [simp del]

definition exec_mailbox_req_u32 :: "'h bus \<Rightarrow> caliptra_soc \<Rightarrow> u32 \<Rightarrow> u32 list \<Rightarrow> u32 list \<Rightarrow>
    ('h, unit result \<times> u32 list \<times> u32 list) io" where
  "exec_mailbox_req_u32 b c cmd req resp =
     (let req_count = of_nat (length req) :: usize; resp_count = of_nat (length resp) :: usize
      in if req_count * 4 < REQ_HEADER_SIZE then return (Err MBOX_INVALID_RESPONSE, req, resp)
      else do {
        let payload_bytes = concat (map bytes_le (tl req));
        let checksum = calc_checksum cmd payload_bytes;
        let req = req[0 := checksum];
        start_result \<leftarrow> start_mailbox_req b c cmd (req_count * 4) req;
        case start_result of
          Inl e \<Rightarrow> return (Err e, req, resp)
        | Inr _ \<Rightarrow> do {
            let resp_len_bytes = resp_count * 4;
            finish_result \<leftarrow> finish_mailbox_resp b c resp_len_bytes resp_len_bytes;
            case finish_result of
              Inl e \<Rightarrow> return (Err e, req, resp)
            | Inr resp_opt \<Rightarrow> (case resp_opt of
                None \<Rightarrow> return (Err MBOX_INVALID_RESPONSE, req, resp)
              | Some response \<Rightarrow> do {
                  (response, resp) \<leftarrow> State (drain_response b response 0 resp);
                  response_destroy b response;
                  return (Ok (), req, resp) }) } })"

section \<open>Checksum lemmas\<close>

lemma add_payload_sum: "add_payload c ps = c + sum_list (map ucast ps)"
  by (induction ps arbitrary: c) simp_all

lemma byte_and_FF: "w AND 0xFF = ucast (ucast w :: u8)" for w :: u32
proof -
  have "w AND 0xFF = take_bit 8 w" by (simp add: take_bit_eq_mask mask_eq_exp_minus_1)
  then show ?thesis by (auto intro!: bit_word_eqI simp: bit_simps)
qed

lemma calc_checksum_eq:
  "calc_checksum cmd ps = - sum_list (map ucast (bytes_le cmd @ ps))"
proof -
  have *: "NOT x + 1 = - x" for x :: u32 by (simp add: minus_eq_not_plus_1)
  show ?thesis
    unfolding calc_checksum_def Let_def add_payload_sum *
    by (simp only: byte_and_FF bytes_le_def) (simp add: algebra_simps)
qed

lemma checksum_balances: "sum_list (map ucast (bytes_le cmd @ ps)) + calc_checksum cmd ps = 0"
  by (simp add: calc_checksum_eq)

end
