(* ===== verification/Handles.thy ===== *)
theory Handles
  imports SocManager
begin

text \<open>
  The life of \<^verbatim>\<open>CaliptraMailboxResponse\<close> objects: a program constructs them, moves
  them into new objects, assigns one to another, reads them and destroys them, in any
  order. The state is the set of live objects, by number, and the machine; the ghost
  counter \<open>made\<close> counts the responses constructed from a mailbox transaction.
\<close>

section \<open>Steps\<close>

record 'h handles =
  objs :: "nat \<Rightarrow> mailbox_response option"
  mach :: "'h mach"
  made :: nat

inductive handle_step :: "'h bus \<Rightarrow> uintptr \<Rightarrow> 'h handles \<Rightarrow> 'h handles \<Rightarrow> bool" for b mbase where
  construct: "objs st i = None \<Longrightarrow>
    handle_step b mbase st
      (st\<lparr>objs := (objs st)(i := Some (new_response mbase dlen expected)), made := Suc (made st)\<rparr>)"
| move_construct: "objs st i = Some r \<Longrightarrow> objs st j = None \<Longrightarrow> response_move r = (this, other) \<Longrightarrow>
    handle_step b mbase st (st\<lparr>objs := (objs st)(i := Some other, j := Some this)\<rparr>)"
| move_assign: "objs st i = Some r \<Longrightarrow> objs st j = Some q \<Longrightarrow> i \<noteq> j \<Longrightarrow>
    run_state (response_move_assign b q r) (mach st) = ((this, other), s') \<Longrightarrow>
    handle_step b mbase st (st\<lparr>objs := (objs st)(i := Some other, j := Some this), mach := s'\<rparr>)"
| self_assign: "objs st i = Some r \<Longrightarrow> handle_step b mbase st st"
| read: "objs st i = Some r \<Longrightarrow> run_state (response_next b r) (mach st) = ((w, r'), s') \<Longrightarrow>
    handle_step b mbase st (st\<lparr>objs := (objs st)(i := Some r'), mach := s'\<rparr>)"
| rewind: "objs st i = Some r \<Longrightarrow>
    handle_step b mbase st (st\<lparr>objs := (objs st)(i := Some (response_reset r))\<rparr>)"
| destroy: "objs st i = Some r \<Longrightarrow> run_state (response_destroy b r) (mach st) = ((), s') \<Longrightarrow>
    handle_step b mbase st (st\<lparr>objs := (objs st)(i := None), mach := s'\<rparr>)"

inductive handles_reachable :: "'h bus \<Rightarrow> uintptr \<Rightarrow> 'h mach \<Rightarrow> 'h handles \<Rightarrow> bool"
  for b mbase s where
  no_handles: "handles_reachable b mbase s \<lparr>objs = (\<lambda>_. None), mach = s, made = 0\<rparr>"
| one_step: "handles_reachable b mbase s st \<Longrightarrow> handle_step b mbase st st' \<Longrightarrow>
    handles_reachable b mbase s st'"

section \<open>The invariant\<close>

text \<open>The objects that still hold the mailbox.\<close>

definition holders :: "(nat \<Rightarrow> mailbox_response option) \<Rightarrow> nat set" where
  "holders f = {i. \<exists>r. f i = Some r \<and> \<not> resp_released r}"

definition handles_inv :: "uintptr \<Rightarrow> 'h mach \<Rightarrow> 'h handles \<Rightarrow> bool" where
  "handles_inv mbase s st \<longleftrightarrow>
     finite (holders (objs st)) \<and> (\<forall>i r. objs st i = Some r \<longrightarrow> resp_mbox_base r = mbase) \<and>
     (\<exists>n es. made st = card (holders (objs st)) + n \<and> trace (mach st) = trace s @ es \<and>
        writes es = replicate n (mbase + RESP_MBOX_EXECUTE, 0))"

text \<open>A step that writes \<open>k\<close> releases and takes away as many holders keeps it.\<close>

lemma handles_invI:
  assumes "handles_inv mbase s st" "finite (holders (objs st'))"
    and "\<And>i r. objs st' i = Some r \<Longrightarrow> resp_mbox_base r = mbase"
    and "trace (mach st') = trace (mach st) @ es"
    and "writes es = replicate k (mbase + RESP_MBOX_EXECUTE, 0)"
    and "made st' + card (holders (objs st)) = made st + card (holders (objs st')) + k"
  shows "handles_inv mbase s st'"
proof -
  obtain n es0 where n: "made st = card (holders (objs st)) + n"
    "trace (mach st) = trace s @ es0" "writes es0 = replicate n (mbase + RESP_MBOX_EXECUTE, 0)"
    using assms(1) by (auto simp: handles_inv_def)
  then have "made st' = card (holders (objs st')) + (n + k)"
    "trace (mach st') = trace s @ (es0 @ es)"
    "writes (es0 @ es) = replicate (n + k) (mbase + RESP_MBOX_EXECUTE, 0)"
    using assms(4-6) by (simp_all add: replicate_add)
  then show ?thesis
    using assms(2,3) unfolding handles_inv_def by blast
qed

lemma handles_inv_quiet:
  assumes "handles_inv mbase s st" "finite (holders (objs st'))"
    and "\<And>i r. objs st' i = Some r \<Longrightarrow> resp_mbox_base r = mbase"
    and "trace (mach st') = trace (mach st)"
    and "made st' + card (holders (objs st)) = made st + card (holders (objs st'))"
  shows "handles_inv mbase s st'"
  by (rule handles_invI [OF assms(1-3), where es = "[]" and k = 0]) (use assms(4,5) in simp_all)

text \<open>The release of the response \<open>q\<close>, unless it was released before.\<close>

lemma handles_inv_release:
  assumes "handles_inv mbase s st" "finite (holders (objs st'))"
    and "\<And>i r. objs st' i = Some r \<Longrightarrow> resp_mbox_base r = mbase"
    and "trace (mach st') = trace (mach st) @
      (if resp_released q then [] else [Wr (mbase + RESP_MBOX_EXECUTE) 0])"
    and "made st' + card (holders (objs st)) =
      made st + card (holders (objs st')) + (if resp_released q then 0 else 1)"
  shows "handles_inv mbase s st'"
  using handles_invI [OF assms(1-4) _ assms(5)] by (cases "resp_released q") auto

lemma holders_upd [simp]:
  "holders (f(i := Some r)) = (if resp_released r then holders f - {i} else insert i (holders f))"
  "holders (f(i := None)) = holders f - {i}"
  by (auto simp: holders_def)

lemma in_holders [simp]: "f i = Some r \<Longrightarrow> i \<in> holders f \<longleftrightarrow> \<not> resp_released r"
  "f i = None \<Longrightarrow> i \<notin> holders f"
  by (auto simp: holders_def)

lemma holders_none [simp]: "holders (\<lambda>_. None) = {}"
  by (simp add: holders_def)

lemma next_run:
  assumes "run_state (response_next b r) s = ((w, r'), s')"
  shows "resp_released r' = resp_released r" "resp_mbox_base r' = resp_mbox_base r"
    "\<exists>es. trace s' = trace s @ es \<and> writes es = []"
  using assms by (auto simp: response_next_def run_mmio Let_def split: if_splits)

lemma release_run:
  "run_state (response_destroy b r) s = ((), s') \<Longrightarrow>
     trace s' = trace s @
       (if resp_released r then [] else [Wr (resp_mbox_base r + RESP_MBOX_EXECUTE) 0])"
  by (auto simp: response_destroy_def run_mmio split: if_splits)

lemma assign_run:
  "run_state (response_move_assign b q r) s = ((this, other), s') \<Longrightarrow>
     this = r \<and> other = r\<lparr>resp_released := True\<rparr> \<and> trace s' = trace s @
       (if resp_released q then [] else [Wr (resp_mbox_base q + RESP_MBOX_EXECUTE) 0])"
  by (auto simp: response_move_assign_def run_mmio split: if_splits)

lemma inv_finite: "handles_inv mbase s st \<Longrightarrow> finite (holders (objs st))"
  and inv_base: "handles_inv mbase s st \<Longrightarrow> objs st i = Some r \<Longrightarrow> resp_mbox_base r = mbase"
  by (auto simp: handles_inv_def)

text \<open>Handing a response over from \<open>i\<close> to \<open>j\<close> loses the one \<open>j\<close> held, if any.\<close>

lemma holders_handed_over:
  assumes "finite (holders f)" "f i = Some r" "i \<noteq> j"
  shows "card (holders (f(i := Some (r\<lparr>resp_released := True\<rparr>), j := Some r))) +
    (if j \<in> holders f then 1 else 0) = card (holders f)"
proof (cases "resp_released r")
  case True
  then have "i \<notin> holders f" using assms(2) by simp
  then show ?thesis
    using True assms(1) card.remove [of "holders f" j] by simp
next
  case False
  then have "card (holders f) = Suc (card (holders f - {i}))"
    using assms(1,2) by (intro card.remove) simp_all
  then show ?thesis
    using False assms(1,3) by (simp add: card_insert_if)
qed

lemma step_inv:
  assumes "handle_step b mbase st st'" "handles_inv mbase s st"
  shows "handles_inv mbase s st'"
  using assms(1)
proof cases
  note inv = inv_finite [OF assms(2)] inv_base [OF assms(2)]
  note quiet = handles_inv_quiet [OF assms(2)] and release = handles_inv_release [OF assms(2)]
  {
    case (construct i dlen expected)
    then show ?thesis using inv by (intro quiet) (auto simp: new_response_def split: if_splits)
  next
    case (move_construct i r j this other)
    then have "other = r\<lparr>resp_released := True\<rparr>" "this = r" "i \<noteq> j" "j \<notin> holders (objs st)"
      by (auto simp: response_move_def)
    then show ?thesis
      using move_construct inv holders_handed_over [of "objs st" i r j]
      by (intro quiet) (auto split: if_splits)
  next
    case (move_assign i r j q this other s')
    from assign_run [OF move_assign(5)] show ?thesis
      using move_assign inv holders_handed_over [of "objs st" i r j]
      by (intro release [where q = q]) (auto split: if_splits)
  next
    case (self_assign i r)
    then show ?thesis using assms(2) by simp
  next
    case (read i r w r' s')
    from next_run(3) [OF read(3)] obtain es where "trace s' = trace (mach st) @ es" "writes es = []"
      by blast
    then show ?thesis
      using read next_run(1,2) [OF read(3)] inv
      by (intro handles_invI [OF assms(2), where es = es and k = 0])
        (auto simp: insert_absorb split: if_splits)
  next
    case (rewind i r)
    then show ?thesis
      using inv by (intro quiet) (auto simp: response_reset_def insert_absorb split: if_splits)
  next
    case (destroy i r s')
    then show ?thesis
      using release_run [OF destroy(3)] inv card.remove [of "holders (objs st)" i]
      by (intro release [where q = r]) (auto split: if_splits)
  }
qed

lemma reachable_inv: "handles_reachable b mbase s st \<Longrightarrow> handles_inv mbase s st"
proof (induction rule: handles_reachable.induct)
  case no_handles
  show ?case by (auto simp: handles_inv_def)
next
  case (one_step st st')
  then show ?case by (blast intro: step_inv)
qed

section \<open>Properties\<close>

text \<open>
  C15. However response objects are constructed, moved, assigned, read and destroyed, every
  response is released at most once and only by an object that holds it: the writes so far
  are one release for each response made that no live object still holds. When no object
  is left, each has been released exactly once.
\<close>

theorem responses_released_once:
  assumes "handles_reachable b mbase s st"
  shows "\<exists>es. trace (mach st) = trace s @ es \<and> card (holders (objs st)) \<le> made st \<and>
    writes es = replicate (made st - card (holders (objs st))) (mbase + RESP_MBOX_EXECUTE, 0) \<and>
    (objs st = (\<lambda>_. None) \<longrightarrow> length (writes es) = made st)"
proof -
  obtain n es where *: "made st = card (holders (objs st)) + n" "trace (mach st) = trace s @ es"
    "writes es = replicate n (mbase + RESP_MBOX_EXECUTE, 0)"
    using reachable_inv [OF assms] by (auto simp: handles_inv_def)
  then show ?thesis by (intro exI [of _ es]) auto
qed

text \<open>A response is constructed, moved into a second object, and both are destroyed.\<close>

lemma moved_and_destroyed:
  "handles_reachable ram_bus 0x30020000 (start_mach (\<lambda>_. 0))
     \<lparr>objs = (\<lambda>_. None),
      mach = snd (run_state (mmio_write ram_bus (0x30020000 + RESP_MBOX_EXECUTE) 0) (start_mach (\<lambda>_. 0))),
      made = 1\<rparr>"
proof -
  let ?r = "new_response 0x30020000 8 7" and ?m = "start_mach (\<lambda>_. 0 :: u32)"
  let ?st = "\<lambda>f m. \<lparr>objs = f, mach = m, made = 1\<rparr>"
  let ?f = "(\<lambda>_ :: nat. None)(0 := Some (?r\<lparr>resp_released := True\<rparr>), 1 := Some ?r)"
  let ?w = "snd (run_state (mmio_write ram_bus (0x30020000 + RESP_MBOX_EXECUTE) 0) ?m)"
  have 1: "handles_reachable ram_bus 0x30020000 ?m (?st ((\<lambda>_. None)(0 := Some ?r)) ?m)"
    using one_step [OF no_handles construct [where i = 0]] by simp
  have 2: "handles_reachable ram_bus 0x30020000 ?m (?st ?f ?m)"
    using one_step [OF 1 move_construct [where i = 0 and j = 1 and r = ?r]]
    by (simp add: response_move_def fun_upd_upd)
  have 3: "handles_reachable ram_bus 0x30020000 ?m (?st (?f(1 := None)) ?w)"
    using one_step [OF 2 destroy [where i = 1 and r = ?r]]
    by (simp add: response_destroy_def new_response_def run_mmio)
  have "handles_reachable ram_bus 0x30020000 ?m (?st (?f(1 := None, 0 := None)) ?w)"
    using one_step [OF 3 destroy [where i = 0 and r = "?r\<lparr>resp_released := True\<rparr>"]]
    by (simp add: response_destroy_def new_response_def)
  moreover have "?f(1 := None, 0 := None) = (\<lambda>_. None)" by auto
  ultimately show ?thesis by simp
qed

theorem responses_released_once_witness:
  "length (writes (trace (snd (run_state (mmio_write ram_bus (0x30020000 + RESP_MBOX_EXECUTE) 0)
     (start_mach (\<lambda>_. 0)))))) = 1"
  using responses_released_once [OF moved_and_destroyed] by simp

end
