(* ===== verification/Mailbox.thy ===== *)
theory Mailbox
  imports SocManager
begin

text \<open>
  What the mailbox operations of the SoC manager do, for any hardware: the words and the
  checksum the response iterator delivers, the order of the register accesses of a
  request, how the outcome of a command is classified, and what a whole
  \<^verbatim>\<open>exec_mailbox_req_u32\<close> leaves behind.
\<close>

section \<open>The response iterator\<close>

definition valid_part :: "nat \<Rightarrow> u32 \<Rightarrow> u32" where
  "valid_part n d = (if n < 4 then d AND mask (8 * n) else d)"

fun valid_words :: "nat \<Rightarrow> u32 list \<Rightarrow> u32 list" where
  "valid_words l [] = []"
| "valid_words l (d # ds) = valid_part (min 4 l) d # valid_words (l - 4) ds"

definition byte_sum :: "u8 list \<Rightarrow> u32" where
  "byte_sum ps = sum_list (map ucast ps)"

text \<open>The bytes a run of data words carries, when \<open>l\<close> of them are valid.\<close>

definition payload :: "nat \<Rightarrow> u32 list \<Rightarrow> u8 list" where
  "payload l ds = take l (concat (map bytes_le ds))"

lemma length_bytes_le [simp]: "length (bytes_le w) = 4"
  by (simp add: bytes_le_def)

lemma payload_Nil [simp]: "payload l [] = []"
  by (simp add: payload_def)

lemma payload_Cons: "payload l (d # ds) = take (min 4 l) (bytes_le d) @ payload (l - 4) ds"
  by (simp add: payload_def min_def)

lemma byte_sum_append [simp]: "byte_sum (xs @ ys) = byte_sum xs + byte_sum ys"
  by (simp add: byte_sum_def)

lemma valid_words_length [simp]: "length (valid_words l ds) = length ds"
  by (induction ds arbitrary: l) simp_all

lemma nat_upto_4: "n \<le> 4 \<Longrightarrow> n \<in> {0, 1, 2, 3, 4 :: nat}"
  by auto

lemma take_bytes_valid: "n \<le> 4 \<Longrightarrow> take n (bytes_le (valid_part n d)) = take n (bytes_le d)"
proof (drule nat_upto_4, elim insertE)
qed (auto simp: bytes_le_def valid_part_def bit_simps numeral_eq_Suc intro!: bit_word_eqI)

lemma checksum_loop:
  assumes "n \<le> 4"
  shows "foldl (\<lambda>c i. c + (drop_bit (i * 8) v AND 0xFF)) c [0..<n] = c + byte_sum (take n (bytes_le v))"
  using nat_upto_4 [OF assms]
  by (elim insertE; simp add: byte_sum_def bytes_le_def byte_and_FF numeral_eq_Suc)

text \<open>
  \<open>fits\<close>: the response is shorter than the address space by the three bytes that
  \<^verbatim>\<open>(dlen_bytes_ + 3) / 4\<close> adds, so the word count does not wrap.
\<close>

definition fits :: "mailbox_response \<Rightarrow> bool" where
  "fits r \<longleftrightarrow> unat (resp_dlen r) + 3 < 2 ^ 32"

lemma word_count_nat: "fits r \<Longrightarrow> unat (word_count r) = (unat (resp_dlen r) + 3) div 4"
  by (simp add: fits_def word_count_def unat_div unat_word_ariths)

definition bytes_left :: "mailbox_response \<Rightarrow> nat" where
  "bytes_left r = unat (resp_dlen r) - 4 * unat (resp_idx r)"

definition remaining :: "mailbox_response \<Rightarrow> u32" where
  "remaining r = (let left = resp_dlen r - resp_idx r * 4 in if left > 4 then 4 else left)"

lemma index_below_count:
  assumes "fits r" "resp_idx r < word_count r"
  shows "4 * unat (resp_idx r) < unat (resp_dlen r)"
  using assms word_count_nat [OF assms(1)] by (simp add: word_less_nat_alt)

lemma min_4_less: "min 4 x < 4 \<longleftrightarrow> x < (4 :: nat)"
  by auto

lemma remaining_nat:
  assumes "fits r" "resp_idx r < word_count r"
  shows "unat (remaining r) = min 4 (bytes_left r)" and "remaining r < 4 \<longleftrightarrow> bytes_left r < 4"
proof -
  note lt = index_below_count [OF assms]
  have dl: "unat (resp_dlen r) < 2 ^ 32" using assms(1) by (simp add: fits_def)
  have "unat (resp_idx r * 4) = unat (resp_idx r) * 4"
    using lt dl by (simp add: unat_times_4)
  then have left: "unat (resp_dlen r - resp_idx r * 4) = bytes_left r"
    using lt by (simp add: bytes_left_def unat_sub word_le_nat_alt)
  then show "unat (remaining r) = min 4 (bytes_left r)"
    by (simp add: remaining_def Let_def word_less_nat_alt)
  then show "remaining r < 4 \<longleftrightarrow> bytes_left r < 4"
    by (simp only: word_less_nat_alt) (simp add: min_4_less)
qed

abbreviation data_addr :: "mailbox_response \<Rightarrow> u32" where
  "data_addr r \<equiv> resp_mbox_base r + RESP_MBOX_DATAOUT"

lemma response_next_word:
  assumes "fits r" "resp_idx r < word_count r" "resp_idx r \<noteq> 0"
  shows "run_state (response_next b r) s =
     (let d = fst (bus_read b (data_addr r) (hw s)); n = min 4 (bytes_left r)
      in ((Some (valid_part n d),
           r\<lparr>resp_idx := resp_idx r + 1,
             resp_checksum := resp_checksum r + byte_sum (take n (bytes_le d))\<rparr>),
          snd (run_state (mmio_read b (data_addr r)) s)))"
proof -
  let ?n = "min 4 (bytes_left r)"
  have n: "unat (remaining r) = ?n" "remaining r < 4 \<longleftrightarrow> ?n < 4"
    using remaining_nat [OF assms(1,2)] by (simp_all only: min_4_less)
  have "unat (remaining r * 8) = 8 * ?n"
    using n by (simp add: unat_word_ariths)
  then have valid: "(if remaining r < 4 then d AND (push_bit (unat (remaining r * 8)) 1 - 1) else d)
      = valid_part ?n d" for d
    using n by (simp add: valid_part_def mask_eq_exp_minus_1)
  have "run_state (response_next b r) s =
      (let d = fst (bus_read b (data_addr r) (hw s));
           w = (if remaining r < 4 then d AND (push_bit (unat (remaining r * 8)) 1 - 1) else d)
       in ((Some w, r\<lparr>resp_idx := resp_idx r + 1,
             resp_checksum := foldl (\<lambda>c i. c + (drop_bit (i * 8) w AND 0xFF)) (resp_checksum r)
               [0..<unat (remaining r)]\<rparr>),
          snd (run_state (mmio_read b (data_addr r)) s)))"
    using assms(2,3)
    by (simp only: response_next_def run_if run_bind run_mmio remaining_def Let_def not_le [symmetric]
        if_False add_diff_cancel_right' fst_conv snd_conv run_state_return simp_thms)
  then show ?thesis
    by (simp only: valid n(1) checksum_loop [OF min.cobounded1] take_bytes_valid [OF min.cobounded1]
        Let_def)
qed

lemma response_next_first:
  "resp_idx r = 0 \<Longrightarrow> word_count r \<noteq> 0 \<Longrightarrow>
     run_state (response_next b r) s = ((Some (resp_expected r), r\<lparr>resp_idx := 1\<rparr>), s)"
  by (simp add: response_next_def)

lemma response_next_end:
  "resp_idx r \<ge> word_count r \<Longrightarrow> run_state (response_next b r) s = ((None, r), s)"
  by (simp add: response_next_def)

section \<open>Draining a response into the caller's buffer\<close>

fun overlay :: "nat \<Rightarrow> u32 list \<Rightarrow> u32 list \<Rightarrow> u32 list" where
  "overlay i buf [] = buf"
| "overlay i buf (w # ws) = overlay (Suc i) (if i < length buf then buf[i := w] else buf) ws"

lemma overlay_length [simp]: "length (overlay i buf ws) = length buf"
  by (induction ws arbitrary: i buf) simp_all

lemma overlay_nth:
  "k < length buf \<Longrightarrow>
     overlay i buf ws ! k = (if i \<le> k \<and> k < i + length ws then ws ! (k - i) else buf ! k)"
proof (induction ws arbitrary: i buf)
  case (Cons w ws)
  then show ?case
    by (cases "k \<le> i") (auto simp: nth_list_update nth_Cons' Suc_diff_Suc)
qed auto

lemma overlay_0: "overlay 0 buf ws = take (length buf) ws @ drop (length ws) buf"
  by (rule nth_equalityI) (auto simp: overlay_nth nth_append min_def)

lemma unat_Suc: "i < n \<Longrightarrow> unat (i + 1) = Suc (unat i)" for i n :: u32
  by unat_arith

lemma drain_end:
  "resp_idx r \<ge> word_count r \<Longrightarrow> drain_response b r i buf s = ((r, buf), s)"
  by (subst drain_response.simps) (simp add: response_next_end)

lemma drain_step:
  "run_state (response_next b r) s = ((Some w, r'), s') \<Longrightarrow>
     drain_response b r i buf s =
       drain_response b r' (i + 1) (if i < of_nat (length buf) then buf[unat i := w] else buf) s'"
  by (subst drain_response.simps) simp

definition drained :: "mailbox_response \<Rightarrow> u32 list \<Rightarrow> mailbox_response" where
  "drained r ds = r\<lparr>resp_idx := word_count r,
     resp_checksum := resp_checksum r + byte_sum (payload (bytes_left r) ds)\<rparr>"

definition after_word :: "mailbox_response \<Rightarrow> u32 \<Rightarrow> mailbox_response" where
  "after_word r d = r\<lparr>resp_idx := resp_idx r + 1,
     resp_checksum := resp_checksum r + byte_sum (take (min 4 (bytes_left r)) (bytes_le d))\<rparr>"

lemma after_word_count [simp]:
  "word_count (after_word r d) = word_count r" "data_addr (after_word r d) = data_addr r"
  "fits (after_word r d) = fits r" "resp_idx (after_word r d) = resp_idx r + 1"
  by (simp_all add: after_word_def word_count_def fits_def)

lemma after_word_left:
  "resp_idx r < word_count r \<Longrightarrow> bytes_left (after_word r d) = bytes_left r - 4"
  using unat_Suc [of "resp_idx r"] by (simp add: bytes_left_def after_word_def)

lemma drained_step:
  "resp_idx r < word_count r \<Longrightarrow> drained (after_word r d) ds = drained r (d # ds)"
  by (simp add: drained_def after_word_left payload_Cons)
    (simp add: after_word_def word_count_def add.assoc)

lemma drain_one:
  assumes "fits r" "resp_idx r \<noteq> 0" "resp_idx r < word_count r" "length buf < 2 ^ 32"
  shows "drain_response b r i buf s =
    (let d = fst (bus_read b (data_addr r) (hw s))
     in drain_response b (after_word r d) (i + 1)
       (if unat i < length buf then buf[unat i := valid_part (min 4 (bytes_left r)) d] else buf)
       (snd (run_state (mmio_read b (data_addr r)) s)))"
  using response_next_word [OF assms(1,3,2), of b s] assms(4)
  by (simp add: drain_step after_word_def Let_def word_less_nat_alt unat_of_nat)

lemma drain_words:
  assumes "fits r" "resp_idx r \<noteq> 0" "resp_idx r \<le> word_count r"
    and "length buf < 2 ^ 32" "unat i + (unat (word_count r) - unat (resp_idx r)) < 2 ^ 32"
  shows "\<exists>ds s'. drain_response b r i buf s =
      ((drained r ds, overlay (unat i) buf (valid_words (bytes_left r) ds)), s') \<and>
      length ds = unat (word_count r) - unat (resp_idx r) \<and>
      trace s' = trace s @ map (Rd (data_addr r)) ds"
  using assms
proof (induction "unat (word_count r) - unat (resp_idx r)" arbitrary: r i buf s)
  case 0
  then have "resp_idx r = word_count r" by (simp add: word_unat_eq_iff word_le_nat_alt)
  then show ?case
    using 0 by (intro exI [of _ "[]"] exI [of _ s]) (simp add: drain_end drained_def byte_sum_def)
next
  case (Suc n)
  then have lt: "resp_idx r < word_count r" by (simp add: word_less_nat_alt)
  note idx = unat_Suc [OF lt]
  have i: "unat (i + 1) = Suc (unat i)"
    using Suc.hyps(2) Suc.prems(5) by (simp add: unat_word_ariths)
  define d where "d = fst (bus_read b (data_addr r) (hw s))"
  define s1 where "s1 = snd (run_state (mmio_read b (data_addr r)) s)"
  define buf1 where "buf1 = (if unat i < length buf
    then buf[unat i := valid_part (min 4 (bytes_left r)) d] else buf)"
  let ?r = "after_word r d"
  have pre: "n = unat (word_count ?r) - unat (resp_idx ?r)" "fits ?r" "resp_idx ?r \<noteq> 0"
    "resp_idx ?r \<le> word_count ?r" "length buf1 < 2 ^ 32"
    "unat (i + 1) + (unat (word_count ?r) - unat (resp_idx ?r)) < 2 ^ 32"
    using Suc.hyps(2) Suc.prems idx i by (auto simp: buf1_def word_le_nat_alt)
  obtain ds s' where ds: "drain_response b ?r (i + 1) buf1 s1 =
      ((drained ?r ds, overlay (unat (i + 1)) buf1 (valid_words (bytes_left ?r) ds)), s')"
    "length ds = unat (word_count r) - unat (resp_idx ?r)"
    "trace s' = trace s1 @ map (Rd (data_addr r)) ds"
    using Suc.hyps(1) [OF pre, of s1] by auto
  show ?case
    using ds drain_one [OF Suc.prems(1,2) lt Suc.prems(4), of b i s] i idx Suc.hyps(2)
    by (intro exI [of _ "d # ds"] exI [of _ s'])
      (simp add: buf1_def [symmetric] d_def [symmetric] s1_def [symmetric] drained_step [OF lt]
        after_word_left [OF lt], simp add: buf1_def s1_def d_def run_mmio)
qed

text \<open>
  The first word an iterator hands out is the checksum it was built with; only the words
  after it come from the data register.
\<close>

lemma drain_fresh:
  assumes "unat dlen + 3 < 2 ^ 32" "dlen \<noteq> 0" "length buf < 2 ^ 32"
  shows "\<exists>ds s'. drain_response b (new_response mbase dlen expected) 0 buf s =
      ((drained ((new_response mbase dlen expected)\<lparr>resp_idx := 1\<rparr>) ds,
        overlay 0 buf (expected # valid_words (unat dlen - 4) ds)), s') \<and>
      length ds = (unat dlen + 3) div 4 - 1 \<and>
      trace s' = trace s @ map (Rd (mbase + RESP_MBOX_DATAOUT)) ds"
proof -
  let ?r = "new_response mbase dlen expected"
  let ?r1 = "?r\<lparr>resp_idx := 1\<rparr>"
  let ?buf = "if 0 < length buf then buf[0 := expected] else buf"
  have fits: "fits ?r1" using assms(1) by (simp add: fits_def new_response_def)
  have wc: "unat (word_count ?r1) = (unat dlen + 3) div 4" "word_count ?r1 = word_count ?r"
    using word_count_nat [OF fits] by (simp_all add: word_count_def new_response_def)
  have pos: "0 < (unat dlen + 3) div 4"
    using assms(2) by (simp add: unat_eq_0 [symmetric] div_greater_zero_iff)
  have "word_count ?r \<noteq> 0" using wc pos by (metis less_numeral_extra(3) unat_0)
  then have first: "run_state (response_next b ?r) s = ((Some expected, ?r1), s)"
    by (simp add: response_next_first new_response_def)
  have buf0: "(if 0 < (of_nat (length buf) :: usize) then buf[unat (0 :: usize) := expected] else buf) = ?buf"
    using assms(3) by (simp add: word_less_nat_alt unat_of_nat)
  have pre: "resp_idx ?r1 \<noteq> 0" "resp_idx ?r1 \<le> word_count ?r1" "length ?buf < 2 ^ 32"
    "unat (1 :: usize) + (unat (word_count ?r1) - unat (resp_idx ?r1)) < 2 ^ 32"
    using wc pos assms(1,3) by (simp_all add: word_le_nat_alt new_response_def)
  obtain ds s' where ds: "drain_response b ?r1 1 ?buf s =
      ((drained ?r1 ds, overlay (unat (1 :: usize)) ?buf (valid_words (bytes_left ?r1) ds)), s')"
    "length ds = unat (word_count ?r1) - unat (resp_idx ?r1)"
    "trace s' = trace s @ map (Rd (data_addr ?r1)) ds"
    using drain_words [OF fits pre, of b s] by blast
  have left: "bytes_left ?r1 = unat dlen - 4"
    by (simp add: bytes_left_def new_response_def)
  show ?thesis
  proof (intro exI [of _ ds] exI [of _ s'] conjI)
    show "drain_response b ?r 0 buf s = ((drained ?r1 ds,
        overlay 0 buf (expected # valid_words (unat dlen - 4) ds)), s')"
      using drain_step [OF first, of 0 buf] ds(1) left by (simp add: buf0)
  qed (use ds wc in \<open>simp_all add: new_response_def\<close>)
qed

lemma drain_no_writes:
  "\<exists>vs. trace (snd (drain_response b r i buf s)) = trace s @ map (Rd (data_addr r)) vs"
proof (induction b r i buf s rule: drain_response.induct)
  case (1 b r i buf s)
  show ?case
  proof (cases "fst (fst (run_state (response_next b r) s))")
    case None
    then obtain r' s' where n: "run_state (response_next b r) s = ((None, r'), s')"
      by (metis prod.collapse)
    then have "trace s' = trace s"
      by (auto simp: response_next_def Let_def split: if_splits)
    then show ?thesis
      using n by (subst drain_response.simps) (simp add: exI [of _ "[]"])
  next
    case (Some w)
    then obtain r' s' where n: "run_state (response_next b r) s = ((Some w, r'), s')"
      by (metis prod.collapse)
    then have tr: "data_addr r' = data_addr r"
      "\<exists>vs. trace s' = trace s @ map (Rd (data_addr r)) vs"
      by (auto simp: response_next_def Let_def run_mmio split: if_splits
          intro: exI [of _ "[]"] exI [of _ "[v]" for v])
    from 1 [OF n [symmetric]] tr show ?thesis
      unfolding drain_step [OF n] by (metis append_assoc map_append)
  qed
qed

section \<open>Starting a request\<close>

abbreviation mbox_reg :: "caliptra_soc \<Rightarrow> usize \<Rightarrow> u32" where
  "mbox_reg c off \<equiv> soc_mbox_addr c + off"

lemma write_all_datain_trace:
  "trace (snd (run_state (write_all_datain b c ds) s)) =
     trace s @ map (Wr (mbox_reg c MBOX_DATAIN)) ds"
  by (induction ds arbitrary: s) (simp_all add: soc_mbox.wr_trace)

text \<open>The two reads of the lock register that open a request.\<close>

definition lock_reads :: "'h bus \<Rightarrow> caliptra_soc \<Rightarrow> 'h mach \<Rightarrow> u32 \<times> u32" where
  "lock_reads b c s =
     (polled b (mbox_reg c MBOX_LOCK) 0 (hw s), polled b (mbox_reg c MBOX_LOCK) 1 (hw s))"

definition request_writes :: "caliptra_soc \<Rightarrow> u32 \<Rightarrow> usize \<Rightarrow> u32 list \<Rightarrow> event list" where
  "request_writes c cmd len data =
     [Wr (mbox_reg c MBOX_CMD) cmd, Wr (mbox_reg c MBOX_DLEN) len] @
     map (Wr (mbox_reg c MBOX_DATAIN)) data @ [Wr (mbox_reg c MBOX_EXECUTE) 1]"

lemmas request_defs = lock_mailbox_def set_command_def request_writes_def lock_reads_def
  soc_mbox.wr_trace io_defs run_mmio write_all_datain_trace

lemma start_too_long:
  "len > MAILBOX_SIZE \<Longrightarrow>
     run_state (start_mailbox_req b c cmd len data) s = (Err MBOX_INVALID_RESPONSE, s)"
  by (simp add: start_mailbox_req_def)

lemma start_locked:
  "len \<le> MAILBOX_SIZE \<Longrightarrow> fst (lock_reads b c s) AND 1 \<noteq> 0 \<Longrightarrow>
     fst (run_state (start_mailbox_req b c cmd len data) s) = Err MBOX_LOCK_FAILED \<and>
     trace (snd (run_state (start_mailbox_req b c cmd len data) s)) =
       trace s @ [Rd (mbox_reg c MBOX_LOCK) (fst (lock_reads b c s))]"
  by (simp add: start_mailbox_req_def run_or_return request_defs)

lemma start_not_taken:
  "len \<le> MAILBOX_SIZE \<Longrightarrow> fst (lock_reads b c s) AND 1 = 0 \<Longrightarrow> snd (lock_reads b c s) AND 1 = 0 \<Longrightarrow>
     fst (run_state (start_mailbox_req b c cmd len data) s) = Err MBOX_LOCK_FAILED \<and>
     trace (snd (run_state (start_mailbox_req b c cmd len data) s)) =
       trace s @ [Rd (mbox_reg c MBOX_LOCK) (fst (lock_reads b c s)),
                  Rd (mbox_reg c MBOX_LOCK) (snd (lock_reads b c s))]"
  by (simp add: start_mailbox_req_def run_or_return request_defs)

lemma start_taken:
  "len \<le> MAILBOX_SIZE \<Longrightarrow> fst (lock_reads b c s) AND 1 = 0 \<Longrightarrow> snd (lock_reads b c s) AND 1 \<noteq> 0 \<Longrightarrow>
     fst (run_state (start_mailbox_req b c cmd len data) s) = Ok () \<and>
     trace (snd (run_state (start_mailbox_req b c cmd len data) s)) =
       trace s @ [Rd (mbox_reg c MBOX_LOCK) (fst (lock_reads b c s)),
                  Rd (mbox_reg c MBOX_LOCK) (snd (lock_reads b c s))] @
       request_writes c cmd len data"
  by (simp add: start_mailbox_req_def run_or_return request_defs)

lemmas start_cases = start_too_long start_locked start_not_taken start_taken

text \<open>A request either leaves no write behind or all of them, and \<open>Ok\<close> says which.\<close>

lemma start_writes:
  "\<exists>es. trace (snd (run_state (start_mailbox_req b c cmd len data) s)) = trace s @ es \<and>
     writes es = (case fst (run_state (start_mailbox_req b c cmd len data) s) of
       Inl _ \<Rightarrow> [] | Inr _ \<Rightarrow> writes (request_writes c cmd len data))"
proof -
  consider "len > MAILBOX_SIZE" | "len \<le> MAILBOX_SIZE" "fst (lock_reads b c s) AND 1 \<noteq> 0"
    | "len \<le> MAILBOX_SIZE" "fst (lock_reads b c s) AND 1 = 0" "snd (lock_reads b c s) AND 1 = 0"
    | "len \<le> MAILBOX_SIZE" "fst (lock_reads b c s) AND 1 = 0" "snd (lock_reads b c s) AND 1 \<noteq> 0"
    by fastforce
  then show ?thesis
    by cases (simp_all add: start_cases)
qed

section \<open>Waiting for the command\<close>

interpretation cmd_poll: status_poll b "mbox_reg c MBOX_STATUS"
    "\<lambda>v. v AND MBOX_STATUS_CMD_BUSY = 0" MBOX_TIMEOUT "wait_not_busy b c"
    "\<lambda>s. snd (run_state delay s)" "\<lambda>s. snd (run_state delay s)"
  for b c
proof
  fix t s
  show "run_state (wait_not_busy b c t) s =
      (let v = fst (run_state (mmio_read b (mbox_reg c MBOX_STATUS)) s);
           s1 = snd (run_state (mmio_read b (mbox_reg c MBOX_STATUS)) s)
       in if v AND MBOX_STATUS_CMD_BUSY = 0 then (Ok (), s1)
          else if t - 1 = 0 then (Err MBOX_TIMEOUT, snd (run_state delay s1))
          else run_state (wait_not_busy b c (t - 1)) (snd (run_state delay s1)))"
    by (subst wait_not_busy.simps) (simp add: io_defs Let_def)
qed (simp_all add: run_delay)

section \<open>Classifying the outcome\<close>

text \<open>
  What the accesses after the busy-wait show, and the result that goes with them: a failed
  command and a completed one release the mailbox by clearing EXECUTE; a data response
  leaves it set for the iterator.
\<close>

inductive finish_ends ::
    "caliptra_soc \<Rightarrow> event list \<Rightarrow> mailbox_response option result \<Rightarrow> bool" for c where
  failed_fatal: "st AND MBOX_STATUS_CMD_FAILURE \<noteq> 0 \<Longrightarrow> e \<noteq> 0 \<Longrightarrow>
    finish_ends c [Rd (mbox_reg c MBOX_STATUS) st, Wr (mbox_reg c MBOX_EXECUTE) 0,
      Rd (soc_ifc_addr c + SOC_IFC_CPTRA_FW_ERROR_FATAL) e] (Err MBOX_CMD_FAILED)"
| failed_non_fatal: "st AND MBOX_STATUS_CMD_FAILURE \<noteq> 0 \<Longrightarrow>
    finish_ends c [Rd (mbox_reg c MBOX_STATUS) st, Wr (mbox_reg c MBOX_EXECUTE) 0,
      Rd (soc_ifc_addr c + SOC_IFC_CPTRA_FW_ERROR_FATAL) 0,
      Rd (soc_ifc_addr c + SOC_IFC_CPTRA_FW_ERROR_NON_FATAL) e] (Err MBOX_CMD_FAILED)"
| complete: "st AND MBOX_STATUS_CMD_FAILURE = 0 \<Longrightarrow> st AND MBOX_STATUS_CMD_COMPLETE \<noteq> 0 \<Longrightarrow>
    finish_ends c [Rd (mbox_reg c MBOX_STATUS) st, Wr (mbox_reg c MBOX_EXECUTE) 0] (Ok None)"
| no_data: "st AND MBOX_STATUS_CMD_FAILURE = 0 \<Longrightarrow> st AND MBOX_STATUS_CMD_COMPLETE = 0 \<Longrightarrow>
    st AND MBOX_STATUS_DATA_READY = 0 \<Longrightarrow>
    finish_ends c [Rd (mbox_reg c MBOX_STATUS) st] (Err MBOX_INVALID_RESPONSE)"
| data: "st AND MBOX_STATUS_CMD_FAILURE = 0 \<Longrightarrow> st AND MBOX_STATUS_CMD_COMPLETE = 0 \<Longrightarrow>
    st AND MBOX_STATUS_DATA_READY \<noteq> 0 \<Longrightarrow>
    finish_ends c [Rd (mbox_reg c MBOX_STATUS) st, Rd (mbox_reg c MBOX_DLEN) d,
      Rd (mbox_reg c MBOX_DATAOUT) x] (Ok (Some (new_response (soc_mbox_addr c) d x)))"

inductive_cases finish_ends_OkE: "finish_ends c es (Ok (Some r))"
inductive_cases finish_ends_NoneE: "finish_ends c es (Ok None)"
inductive_cases finish_ends_ErrE: "finish_ends c es (Err e)"

definition classify :: "'h bus \<Rightarrow> caliptra_soc \<Rightarrow> ('h, mailbox_response option result) io" where
  "classify b c = do {
     status \<leftarrow> read_soc_mbox b c MBOX_STATUS;
     if status AND MBOX_STATUS_CMD_FAILURE \<noteq> 0 then do {
       write_soc_mbox b c MBOX_EXECUTE 0;
       error_code \<leftarrow> read_soc_ifc b c SOC_IFC_CPTRA_FW_ERROR_FATAL;
       (if error_code = 0 then do {
          _ \<leftarrow> read_soc_ifc b c SOC_IFC_CPTRA_FW_ERROR_NON_FATAL; return () }
        else return ());
       return (Err MBOX_CMD_FAILED) }
     else if status AND MBOX_STATUS_CMD_COMPLETE \<noteq> 0 then do {
       write_soc_mbox b c MBOX_EXECUTE 0;
       return (Ok None) }
     else if status AND MBOX_STATUS_DATA_READY = 0 then return (Err MBOX_INVALID_RESPONSE)
     else do {
       dlen_bytes \<leftarrow> read_soc_mbox b c MBOX_DLEN;
       expected_checksum \<leftarrow> read_soc_mbox b c MBOX_DATAOUT;
       return (Ok (Some (new_response (soc_mbox_addr c) dlen_bytes expected_checksum))) } }"

lemma finish_split:
  "resp_size \<ge> RESP_HEADER_SIZE \<Longrightarrow> resp_min_size \<ge> RESP_HEADER_SIZE \<Longrightarrow>
     run_state (finish_mailbox_resp b c resp_min_size resp_size) s =
       run_state (or_return (wait_not_busy b c MAX_WAIT_CYCLES) (\<lambda>_. classify b c)) s"
  by (simp only: finish_mailbox_resp_def classify_def not_le [symmetric] if_False simp_thms)

lemma classify_ends:
  "\<exists>es. trace (snd (run_state (classify b c) s)) = trace s @ es \<and>
     finish_ends c es (fst (run_state (classify b c) s))"
  by (auto simp: classify_def io_defs run_mmio intro: finish_ends.intros)

lemma finish_short:
  "resp_size < RESP_HEADER_SIZE \<or> resp_min_size < RESP_HEADER_SIZE \<Longrightarrow>
     run_state (finish_mailbox_resp b c resp_min_size resp_size) s = (Err MBOX_INVALID_RESPONSE, s)"
  by (auto simp: finish_mailbox_resp_def)

lemma MAX_WAIT_budget: "poll_budget MAX_WAIT_CYCLES = 400000"
  by (simp add: poll_budget_def reg_offsets)

abbreviation busy :: "u32 \<Rightarrow> bool" where
  "busy v \<equiv> v AND MBOX_STATUS_CMD_BUSY \<noteq> 0"

lemma finish_run:
  fixes b :: "'h bus"
  assumes "resp_size \<ge> RESP_HEADER_SIZE" "resp_min_size \<ge> RESP_HEADER_SIZE"
  fixes c s
  defines "res \<equiv> run_state (finish_mailbox_resp b c resp_min_size resp_size) s"
  shows "\<exists>vs es. trace (snd res) = trace s @ map (Rd (mbox_reg c MBOX_STATUS)) vs @ es \<and>
     vs \<noteq> [] \<and> length vs \<le> 400000 \<and> (\<forall>v \<in> set (butlast vs). busy v) \<and>
     (if busy (last vs) then fst res = Err MBOX_TIMEOUT \<and> length vs = 400000 \<and> es = []
      else finish_ends c es (fst res))"
proof -
  let ?w = "run_state (wait_not_busy b c MAX_WAIT_CYCLES) s"
  obtain vs where vs: "trace (snd ?w) = trace s @ map (Rd (mbox_reg c MBOX_STATUS)) vs"
    and run: "cmd_poll.run_of MAX_WAIT_CYCLES (fst ?w) vs"
    using cmd_poll.wait_trace by blast
  show ?thesis
  proof (cases "busy (last vs)")
    case True
    then have "fst ?w = Err MBOX_TIMEOUT" "length vs = 400000"
      using run by (simp_all add: cmd_poll.run_of_def MAX_WAIT_budget)
    with True run vs show ?thesis
      by (intro exI [of _ vs] exI [of _ "[]"])
        (simp add: res_def finish_split [OF assms(1,2)] cmd_poll.run_of_def)
  next
    case False
    then have ok: "fst ?w = Ok ()"
      using run by (simp add: cmd_poll.run_of_def)
    obtain es where "trace (snd (run_state (classify b c) (snd ?w))) = trace (snd ?w) @ es"
      "finish_ends c es (fst (run_state (classify b c) (snd ?w)))"
      using classify_ends by blast
    with False run vs ok show ?thesis
      by (intro exI [of _ vs] exI [of _ es])
        (simp add: res_def finish_split [OF assms(1,2)] cmd_poll.run_of_def MAX_WAIT_budget)
  qed
qed

section \<open>A whole request\<close>

text \<open>
  \<open>exec_mailbox_req_u32\<close> in three stages, each with the state it starts from. The names
  abbreviate them for the proofs.
\<close>

definition stamped :: "u32 \<Rightarrow> u32 list \<Rightarrow> u32 list" where
  "stamped cmd req = req[0 := calc_checksum cmd (concat (map bytes_le (tl req)))]"

definition byte_len :: "u32 list \<Rightarrow> usize" where
  "byte_len ws = of_nat (length ws) * 4"

definition started :: "'h bus \<Rightarrow> caliptra_soc \<Rightarrow> u32 \<Rightarrow> u32 list \<Rightarrow> 'h mach \<Rightarrow> unit result \<times> 'h mach" where
  "started b c cmd req s = run_state (start_mailbox_req b c cmd (byte_len req) (stamped cmd req)) s"

definition finished :: "'h bus \<Rightarrow> caliptra_soc \<Rightarrow> u32 \<Rightarrow> u32 list \<Rightarrow> u32 list \<Rightarrow> 'h mach \<Rightarrow>
    mailbox_response option result \<times> 'h mach" where
  "finished b c cmd req resp s =
     run_state (finish_mailbox_resp b c (byte_len resp) (byte_len resp)) (snd (started b c cmd req s))"

lemma exec_too_short:
  "byte_len req < REQ_HEADER_SIZE \<Longrightarrow>
     run_state (exec_mailbox_req_u32 b c cmd req resp) s = ((Err MBOX_INVALID_RESPONSE, req, resp), s)"
  by (simp add: exec_mailbox_req_u32_def byte_len_def Let_def)

lemma exec_run:
  assumes "byte_len req \<ge> REQ_HEADER_SIZE"
  shows "run_state (exec_mailbox_req_u32 b c cmd req resp) s =
    (case started b c cmd req s of
       (Inl e, s1) \<Rightarrow> ((Err e, stamped cmd req, resp), s1)
     | (Inr _, s1) \<Rightarrow>
         (case finished b c cmd req resp s of
            (Inl e, s2) \<Rightarrow> ((Err e, stamped cmd req, resp), s2)
          | (Inr None, s2) \<Rightarrow> ((Err MBOX_INVALID_RESPONSE, stamped cmd req, resp), s2)
          | (Inr (Some r), s2) \<Rightarrow>
              (case drain_response b r 0 resp s2 of
                 ((r', resp'), s3) \<Rightarrow>
                   ((Ok (), stamped cmd req, resp'), snd (run_state (response_destroy b r') s3)))))"
  using assms
  by (simp add: exec_mailbox_req_u32_def byte_len_def [symmetric] stamped_def [symmetric]
      started_def [symmetric] finished_def [symmetric] Let_def not_le [symmetric]
      split: sum.splits option.splits prod.splits)

lemma drain_keeps:
  assumes step: "\<And>r s. f (snd (fst (run_state (response_next b r) s))) = f r"
  shows "f (fst (fst (drain_response b r i buf s))) = f r"
proof (induction "unat (word_count r) - unat (resp_idx r)" arbitrary: r i buf s rule: less_induct)
  case less
  obtain w r' s' where n: "run_state (response_next b r) s = ((w, r'), s')"
    by (metis prod.collapse)
  with step [of r s] have keep: "f r' = f r" by simp
  show ?case
  proof (cases w)
    case None
    then show ?thesis using n keep by (subst drain_response.simps) simp
  next
    case (Some x)
    then have n': "run_state (response_next b r) s = ((Some x, r'), s')" using n by simp
    have "unat (word_count r') - unat (resp_idx r') < unat (word_count r) - unat (resp_idx r)"
      using response_next_Some [OF n'] by (simp add: word_count_def index_step_measure)
    from less [OF this] show ?thesis using keep by (simp add: drain_step [OF n'])
  qed
qed

lemma drain_released: "resp_released (fst (fst (drain_response b r i buf s))) = resp_released r"
  by (rule drain_keeps) (auto simp: response_next_def Let_def)

lemma drain_base: "resp_mbox_base (fst (fst (drain_response b r i buf s))) = resp_mbox_base r"
  by (rule drain_keeps) (auto simp: response_next_def Let_def)

lemma finished_ends:
  assumes "fst (finished b c cmd req resp s) = x" "x \<noteq> Err MBOX_TIMEOUT"
    and "byte_len resp \<ge> RESP_HEADER_SIZE"
  shows "\<exists>vs es. trace (snd (finished b c cmd req resp s)) =
      trace (snd (started b c cmd req s)) @ map (Rd (mbox_reg c MBOX_STATUS)) vs @ es \<and>
    finish_ends c es x"
  using finish_run [OF assms(3,3), of b c "snd (started b c cmd req s)"] assms(1,2)
  by (auto simp: finished_def split: if_splits)

lemma exec_ok:
  assumes "fst (run_state (exec_mailbox_req_u32 b c cmd req resp) s) = (Ok (), req', resp')"
  shows "req' = stamped cmd req \<and> (\<exists>es.
    trace (snd (run_state (exec_mailbox_req_u32 b c cmd req resp) s)) = trace s @ es \<and>
    writes es = writes (request_writes c cmd (byte_len req) (stamped cmd req)) @
      [(soc_mbox_addr c + RESP_MBOX_EXECUTE, 0)])"
proof -
  have len: "byte_len req \<ge> REQ_HEADER_SIZE"
    by (rule ccontr) (use assms in \<open>simp add: exec_too_short\<close>)
  obtain s1 s2 r where st: "started b c cmd req s = (Ok (), s1)"
    and fin: "finished b c cmd req resp s = (Ok (Some r), s2)"
    and req': "req' = stamped cmd req"
    using assms unfolding exec_run [OF len]
    by (auto split: prod.splits sum.splits option.splits)
  obtain es1 where es1: "trace s1 = trace s @ es1"
    "writes es1 = writes (request_writes c cmd (byte_len req) (stamped cmd req))"
    using start_writes [of b c cmd "byte_len req" "stamped cmd req" s] st
    by (auto simp: started_def)
  have rl: "byte_len resp \<ge> RESP_HEADER_SIZE"
    by (rule ccontr) (use fin in \<open>simp add: finished_def finish_short\<close>)
  obtain vs es where "trace s2 = trace s1 @ map (Rd (mbox_reg c MBOX_STATUS)) vs @ es"
    and ends: "finish_ends c es (Ok (Some r))"
    using finished_ends [OF _ _ rl, of b c cmd req s "Ok (Some r)"] st fin by auto
  moreover from ends obtain d x where "r = new_response (soc_mbox_addr c) d x" "writes es = []"
    by (auto elim: finish_ends_OkE)
  moreover obtain us where "trace (snd (drain_response b r 0 resp s2)) =
      trace s2 @ map (Rd (data_addr r)) us"
    using drain_no_writes by blast
  ultimately show ?thesis
    using es1 drain_released [of b r 0 resp s2] drain_base [of b r 0 resp s2]
    by (auto simp: exec_run [OF len] st fin req' response_destroy_def new_response_def run_mmio
        split: prod.splits)
qed

lemma start_err:
  "fst (run_state (start_mailbox_req b c cmd len data) s) = Err e \<Longrightarrow>
     e = MBOX_INVALID_RESPONSE \<or> e = MBOX_LOCK_FAILED"
  by (auto simp: start_mailbox_req_def run_or_return lock_mailbox_def set_command_def
      split: if_splits)

fun finish_release :: "caliptra_soc \<Rightarrow> mailbox_response option result \<Rightarrow> (u32 \<times> u32) list" where
  "finish_release c (Inl e) = (if e = MBOX_CMD_FAILED then [(mbox_reg c MBOX_EXECUTE, 0)] else [])"
| "finish_release c (Inr None) = [(mbox_reg c MBOX_EXECUTE, 0)]"
| "finish_release c (Inr (Some r)) = []"

lemma finish_ends_release: "finish_ends c es x \<Longrightarrow> writes es = finish_release c x"
  by (induction rule: finish_ends.induct) simp_all

lemma finish_ends_err: "finish_ends c es (Err e) \<Longrightarrow> e = MBOX_CMD_FAILED \<or> e = MBOX_INVALID_RESPONSE"
  by (auto elim: finish_ends_ErrE)

lemma finish_writes:
  fixes b :: "'h bus" and c s resp_min_size resp_size
  defines "res \<equiv> run_state (finish_mailbox_resp b c resp_min_size resp_size) s"
  shows "(\<exists>es. trace (snd res) = trace s @ es \<and> writes es = finish_release c (fst res)) \<and>
    fst res \<noteq> Err MBOX_LOCK_FAILED"
proof (cases "resp_size < RESP_HEADER_SIZE \<or> resp_min_size < RESP_HEADER_SIZE")
  case True
  then show ?thesis by (auto simp: res_def finish_short)
next
  case False
  then have "resp_size \<ge> RESP_HEADER_SIZE" "resp_min_size \<ge> RESP_HEADER_SIZE" by (simp_all add: not_less)
  from finish_run [OF this, of b c s] obtain vs es where
    tr: "trace (snd res) = trace s @ map (Rd (mbox_reg c MBOX_STATUS)) vs @ es"
    and ends: "if busy (last vs) then fst res = Err MBOX_TIMEOUT \<and> length vs = 400000 \<and> es = []
      else finish_ends c es (fst res)"
    unfolding res_def by blast
  have "writes es = finish_release c (fst res) \<and> fst res \<noteq> Err MBOX_LOCK_FAILED"
    using ends by (cases "busy (last vs)") (auto dest: finish_ends_release finish_ends_err)
  with tr show ?thesis by (intro conjI exI [of _ "map (Rd (mbox_reg c MBOX_STATUS)) vs @ es"]) simp_all
qed

text \<open>The writes to one register, from all the writes of a trace.\<close>

lemma written_to_writes: "written_to a es = map snd (filter (\<lambda>w. fst w = a) (writes es))"
  by (induction es rule: writes.induct) auto

lemma writes_map_Wr [simp]: "writes (map (Wr a) vs) = map (Pair a) vs"
  by (induction vs) auto

lemma filter_map_Pair [simp]:
  "filter (\<lambda>w. fst w = x) (map (Pair a) vs) = (if a = x then map (Pair a) vs else [])"
  by (induction vs) auto

lemma request_written:
  "written_to (mbox_reg c MBOX_EXECUTE) (request_writes c cmd len data) = [1]"
  "written_to (mbox_reg c MBOX_CMD) (request_writes c cmd len data) = [cmd]"
  by (simp_all add: written_to_writes request_writes_def reg_offsets)

text \<open>
  The values a request leaves in EXECUTE, by its result, of the errors that name one cause.
\<close>

fun execute_account :: "unit result \<Rightarrow> u32 list \<Rightarrow> bool" where
  "execute_account (Inr _) vs \<longleftrightarrow> vs = [1]"
| "execute_account (Inl e) vs \<longleftrightarrow>
     (e = MBOX_LOCK_FAILED \<longrightarrow> vs = []) \<and> (e = MBOX_TIMEOUT \<longrightarrow> vs = [1]) \<and>
     (e = MBOX_CMD_FAILED \<longrightarrow> vs = [1, 0])"

lemma exec_accounts_err:
  assumes "fst (fst (run_state (exec_mailbox_req_u32 b c cmd req resp) s)) = Err e"
  shows "\<exists>es. trace (snd (run_state (exec_mailbox_req_u32 b c cmd req resp) s)) = trace s @ es \<and>
    execute_account (Err e) (written_to (mbox_reg c MBOX_EXECUTE) es)"
proof (cases "byte_len req \<ge> REQ_HEADER_SIZE")
  case False
  then have "run_state (exec_mailbox_req_u32 b c cmd req resp) s = ((Err MBOX_INVALID_RESPONSE, req, resp), s)"
    by (simp add: exec_too_short)
  with assms show ?thesis by auto
next
  case len: True
  obtain x1 s1 where st: "started b c cmd req s = (x1, s1)" by (cases "started b c cmd req s")
  obtain x2 s2 where fin: "finished b c cmd req resp s = (x2, s2)"
    by (cases "finished b c cmd req resp s")
  obtain es1 where es1: "trace s1 = trace s @ es1" "writes es1 = (case x1 of Inl _ \<Rightarrow> [] |
      Inr _ \<Rightarrow> writes (request_writes c cmd (byte_len req) (stamped cmd req)))"
    using start_writes [of b c cmd "byte_len req" "stamped cmd req" s] st by (auto simp: started_def)
  obtain es2 where es2: "trace s2 = trace s1 @ es2" "writes es2 = finish_release c x2"
    and x2: "x2 \<noteq> Err MBOX_LOCK_FAILED"
    using finish_writes [of b c "byte_len resp" "byte_len resp" s1] fin st
    by (auto simp: finished_def)
  show ?thesis
  proof (cases x1)
    case (Inl e1)
    then have "e = MBOX_INVALID_RESPONSE \<or> e = MBOX_LOCK_FAILED"
      using st start_err [of b c cmd "byte_len req" "stamped cmd req" s e1] assms
      by (simp add: exec_run [OF len] started_def)
    then show ?thesis
      using Inl st es1 by (auto simp: exec_run [OF len] written_to_writes)
  next
    case (Inr u)
    then have one: "written_to (mbox_reg c MBOX_EXECUTE) es1 = [1]"
      using es1(2) request_written(1) by (simp add: written_to_writes)
    have "x2 = Err e \<or> x2 = Ok None \<and> e = MBOX_INVALID_RESPONSE"
      using assms st Inr fin by (auto simp: exec_run [OF len] split: sum.splits option.splits prod.splits)
    then show ?thesis
      using st fin Inr es1(1) one es2 x2
      by (auto simp: exec_run [OF len] written_to_writes)
  qed
qed

lemma exec_accounts:
  "\<exists>es. trace (snd (run_state (exec_mailbox_req_u32 b c cmd req resp) s)) = trace s @ es \<and>
    execute_account (fst (fst (run_state (exec_mailbox_req_u32 b c cmd req resp) s)))
      (written_to (mbox_reg c MBOX_EXECUTE) es)"
proof (cases "fst (fst (run_state (exec_mailbox_req_u32 b c cmd req resp) s))")
  case (Inr u)
  then obtain req' resp' where
    "fst (run_state (exec_mailbox_req_u32 b c cmd req resp) s) = (Ok (), req', resp')"
    by (metis (full_types) old.unit.exhaust prod.collapse)
  from exec_ok [OF this] obtain es where
    "trace (snd (run_state (exec_mailbox_req_u32 b c cmd req resp) s)) = trace s @ es"
    "writes es = writes (request_writes c cmd (byte_len req) (stamped cmd req)) @
      [(soc_mbox_addr c + RESP_MBOX_EXECUTE, 0)]"
    by auto
  then show ?thesis
    using Inr request_written(1) [of c cmd "byte_len req" "stamped cmd req"]
    by (intro exI [of _ es]) (simp add: written_to_writes reg_offsets)
qed (use exec_accounts_err in auto)

section \<open>Properties\<close>

text \<open>
  C23. A request stamps the checksum of its command and payload into the first word and
  leaves the rest of the caller's buffer alone, whatever becomes of the request: the bytes
  of the command, the bytes of the payload and the stamp add up to zero.
\<close>

theorem request_checksum_stamped:
  assumes "byte_len req \<ge> REQ_HEADER_SIZE" "req \<noteq> []"
  shows "let req' = fst (snd (fst (run_state (exec_mailbox_req_u32 b c cmd req resp) s)))
    in tl req' = tl req \<and> byte_sum (bytes_le cmd) + byte_sum (concat (map bytes_le (tl req'))) + hd req' = 0"
proof -
  have "fst (snd (fst (run_state (exec_mailbox_req_u32 b c cmd req resp) s))) = stamped cmd req"
    by (simp add: exec_run [OF assms(1)] split: prod.splits sum.splits option.splits)
  moreover obtain w ws where "req = w # ws" using assms(2) by (cases req) auto
  ultimately show ?thesis
    using checksum_balances [of cmd "concat (map bytes_le (tl req))"]
    by (simp add: stamped_def Let_def byte_sum_def)
qed

theorem request_checksum_stamped_witness:
  "tl (fst (snd (fst (run_state (exec_mailbox_req_u32 ram_bus (new_caliptra_soc None None None) 0x1234
     [0, 0xAABB] [0, 0]) (start_mach (\<lambda>_. 1)))))) = [0xAABB]"
  using request_checksum_stamped [of "[0, 0xAABB]" ram_bus "new_caliptra_soc None None None" "0x1234"
      "[0, 0]" "start_mach (\<lambda>_. 1)"]
  by (simp add: byte_len_def reg_offsets Let_def)

text \<open>
  C17. A request either writes nothing and fails, or it found the lock free, then taken for
  itself, and wrote the command, the length, every data word in order and last of all
  EXECUTE.
\<close>

theorem start_request_protocol:
  "let res = run_state (start_mailbox_req b c cmd len data) s
   in \<exists>es. trace (snd res) = trace s @ es \<and>
     (case fst res of
        Inl e \<Rightarrow> writes es = [] \<and> (e = MBOX_INVALID_RESPONSE \<longleftrightarrow> len > MAILBOX_SIZE)
      | Inr _ \<Rightarrow> len \<le> MAILBOX_SIZE \<and> (\<exists>free mine. free AND 1 = 0 \<and> mine AND 1 \<noteq> 0 \<and>
          es = [Rd (mbox_reg c MBOX_LOCK) free, Rd (mbox_reg c MBOX_LOCK) mine,
                Wr (mbox_reg c MBOX_CMD) cmd, Wr (mbox_reg c MBOX_DLEN) len] @
               map (Wr (mbox_reg c MBOX_DATAIN)) data @ [Wr (mbox_reg c MBOX_EXECUTE) 1]))"
proof -
  consider "len > MAILBOX_SIZE" | "len \<le> MAILBOX_SIZE" "fst (lock_reads b c s) AND 1 \<noteq> 0"
    | "len \<le> MAILBOX_SIZE" "fst (lock_reads b c s) AND 1 = 0" "snd (lock_reads b c s) AND 1 = 0"
    | "len \<le> MAILBOX_SIZE" "fst (lock_reads b c s) AND 1 = 0" "snd (lock_reads b c s) AND 1 \<noteq> 0"
    by fastforce
  then show ?thesis
    by cases (simp_all add: start_cases request_writes_def Let_def)
qed

text \<open>
  C16. Finishing a command polls the status at most 400000 times; every poll but the last
  saw it busy. If the last saw it busy too the result is a timeout and nothing more is
  accessed; otherwise the accesses that follow and the result are one of the five ways of
  \<open>finish_ends\<close>: of them only a failed and a completed command clear EXECUTE.
\<close>

theorem finish_outcome:
  assumes "resp_size \<ge> RESP_HEADER_SIZE" "resp_min_size \<ge> RESP_HEADER_SIZE"
  shows "let res = run_state (finish_mailbox_resp b c resp_min_size resp_size) s
    in \<exists>vs es. trace (snd res) = trace s @ map (Rd (mbox_reg c MBOX_STATUS)) vs @ es \<and>
      vs \<noteq> [] \<and> length vs \<le> 400000 \<and> (\<forall>v \<in> set (butlast vs). busy v) \<and>
      (if busy (last vs) then fst res = Err MBOX_TIMEOUT \<and> length vs = 400000 \<and> es = []
       else finish_ends c es (fst res))"
  unfolding Let_def by (rule finish_run [OF assms])

theorem finish_outcome_witness:
  "fst (run_state (finish_mailbox_resp ram_bus (new_caliptra_soc None None None) 8 8)
     (start_mach (\<lambda>_. 4))) \<noteq> Err MBOX_LOCK_FAILED"
  using finish_outcome [of 8 8 ram_bus "new_caliptra_soc None None None" "start_mach (\<lambda>_. 4)"]
  by (auto simp: reg_offsets Let_def split: if_splits dest: finish_ends_err)

text \<open>
  The response iterator hands out the expected checksum as its first word and then one
  word per four bytes, each read once from its data register, the bytes past the length of
  the last one masked off; the caller's buffer receives as many of them as fit and keeps
  the rest. The iterator's data register has offset 0, the LOCK register of the mailbox.
\<close>

theorem mailbox_response_stream:
  assumes "unat dlen + 3 < 2 ^ 32" "dlen \<noteq> 0" "length buf < 2 ^ 32"
  shows "let res = drain_response b (new_response (soc_mbox_addr c) dlen expected) 0 buf s
    in \<exists>ds. length ds = (unat dlen + 3) div 4 - 1 \<and>
      trace (snd res) = trace s @ map (Rd (mbox_reg c MBOX_LOCK)) ds \<and>
      snd (fst res) = take (length buf) (expected # valid_words (unat dlen - 4) ds) @
        drop (Suc (length ds)) buf"
proof -
  obtain ds s' where "drain_response b (new_response (soc_mbox_addr c) dlen expected) 0 buf s =
      ((drained ((new_response (soc_mbox_addr c) dlen expected)\<lparr>resp_idx := 1\<rparr>) ds,
        overlay 0 buf (expected # valid_words (unat dlen - 4) ds)), s')"
    "length ds = (unat dlen + 3) div 4 - 1"
    "trace s' = trace s @ map (Rd (soc_mbox_addr c + RESP_MBOX_DATAOUT)) ds"
    using drain_fresh [OF assms] by blast
  then show ?thesis
    unfolding Let_def
    by (intro exI [of _ ds]) (simp add: overlay_0 reg_offsets del: overlay.simps)
qed

theorem mailbox_response_stream_witness:
  "\<exists>w. snd (fst (drain_response ram_bus (new_response (soc_mbox_addr (new_caliptra_soc None None None)) 6 77)
     0 [0, 0, 9] (start_mach (\<lambda>_. 0x11223344)))) = [77, w, 9]"
  using mailbox_response_stream [of 6 "[0, 0, 9]" ram_bus "new_caliptra_soc None None None" 77
      "start_mach (\<lambda>_. 0x11223344)"]
  by (auto simp: Let_def length_Suc_conv)

text \<open>
  C24. After the whole response was read, \<^verbatim>\<open>verify_checksum\<close> accepts it exactly
  when the expected word is the checksum, for command 0, of the payload bytes that were
  read.
\<close>

theorem response_checksum_accepted:
  assumes "unat dlen + 3 < 2 ^ 32" "dlen \<noteq> 0" "length buf < 2 ^ 32"
  shows "let res = drain_response b (new_response mbase dlen expected) 0 buf s
    in \<exists>ds. trace (snd res) = trace s @ map (Rd (mbase + RESP_MBOX_DATAOUT)) ds \<and>
      (verify_checksum (fst (fst res)) = Ok () \<longleftrightarrow>
         expected = calc_checksum 0 (payload (unat dlen - 4) ds))"
proof -
  obtain ds s' where d: "drain_response b (new_response mbase dlen expected) 0 buf s =
      ((drained ((new_response mbase dlen expected)\<lparr>resp_idx := 1\<rparr>) ds,
        overlay 0 buf (expected # valid_words (unat dlen - 4) ds)), s')"
    "trace s' = trace s @ map (Rd (mbase + RESP_MBOX_DATAOUT)) ds"
    using drain_fresh [OF assms] by blast
  have "calc_checksum 0 ps = - byte_sum ps" for ps
    by (simp add: calc_checksum_eq byte_sum_def bytes_le_def)
  then have "verify_checksum (drained ((new_response mbase dlen expected)\<lparr>resp_idx := 1\<rparr>) ds) = Ok () \<longleftrightarrow>
      expected = calc_checksum 0 (payload (unat dlen - 4) ds)"
    by (auto simp: verify_checksum_def drained_def new_response_def bytes_left_def Let_def)
  with d show ?thesis by (auto simp: Let_def)
qed

theorem response_checksum_accepted_witness:
  "verify_checksum (fst (fst (drain_response ram_bus (new_response 0 6 0xFFFFFFFE) 0 []
     (start_mach (\<lambda>_. 0x70101))))) = Ok ()"
proof -
  have "trace (snd (drain_response ram_bus (new_response 0 6 0xFFFFFFFE) 0 [] (start_mach (\<lambda>_. 0x70101)))) =
      [Rd 0 0x70101]"
    by code_simp
  then show ?thesis
    using response_checksum_accepted [of 6 "[]" ram_bus 0 "0xFFFFFFFE" "start_mach (\<lambda>_. 0x70101)"]
    by (auto simp: Let_def reg_offsets start_mach_def payload_def valid_part_def calc_checksum_eq
        bytes_le_def map_eq_Cons_conv)
qed

text \<open>
  What a whole request leaves in EXECUTE, by its result: after a success and after a
  timeout the register was only ever written 1, so the mailbox is not released; it is
  released after a failed command. After a success the last write, meant to release it,
  goes to the command register.
\<close>

theorem mailbox_not_released:
  "let res = run_state (exec_mailbox_req_u32 b c cmd req resp) s
   in \<exists>es. trace (snd res) = trace s @ es \<and>
     (case fst (fst res) of
        Inr _ \<Rightarrow> written_to (mbox_reg c MBOX_EXECUTE) es = [1] \<and>
          (\<exists>ws. writes es = ws @ [(mbox_reg c MBOX_CMD, 0)])
      | Inl e \<Rightarrow> (e = MBOX_LOCK_FAILED \<longrightarrow> written_to (mbox_reg c MBOX_EXECUTE) es = []) \<and>
          (e = MBOX_TIMEOUT \<longrightarrow> written_to (mbox_reg c MBOX_EXECUTE) es = [1]) \<and>
          (e = MBOX_CMD_FAILED \<longrightarrow> written_to (mbox_reg c MBOX_EXECUTE) es = [1, 0]))"
proof (cases "fst (fst (run_state (exec_mailbox_req_u32 b c cmd req resp) s))")
  case (Inl e)
  then show ?thesis using exec_accounts_err [OF Inl] by (simp add: Let_def)
next
  case (Inr u)
  then obtain req' resp' where
    "fst (run_state (exec_mailbox_req_u32 b c cmd req resp) s) = (Ok (), req', resp')"
    by (metis (full_types) old.unit.exhaust prod.collapse)
  from exec_ok [OF this] obtain es where
    es: "trace (snd (run_state (exec_mailbox_req_u32 b c cmd req resp) s)) = trace s @ es"
      "writes es = writes (request_writes c cmd (byte_len req) (stamped cmd req)) @
        [(soc_mbox_addr c + RESP_MBOX_EXECUTE, 0)]"
    by auto
  then have "written_to (mbox_reg c MBOX_EXECUTE) es = [1]"
    using request_written(1) [of c cmd "byte_len req" "stamped cmd req"]
    by (simp add: written_to_writes reg_offsets)
  with es Inr show ?thesis
    by (auto simp: Let_def reg_offsets)
qed

text \<open>A mailbox that is free, then taken, and answers with data of no length.\<close>

definition taking_bus :: "u32 bus" where
  "taking_bus =
     \<lparr>bus_read = \<lambda>a h. if a = 0x30020000 then (h, 1) else if a = 0x30020014 then (8, h) else (0, h),
      bus_write = \<lambda>a v h. h, bus_csr = \<lambda>_ h. (0, h)\<rparr>"

lemma taking_bus_answers:
  "fst (fst (run_state (exec_mailbox_req_u32 taking_bus (new_caliptra_soc None None None) 1 [0] [0, 0])
     (start_mach 0))) = Ok ()"
  by code_simp

theorem mailbox_not_released_witness:
  "written_to (mbox_reg (new_caliptra_soc None None None) MBOX_EXECUTE)
     (trace (snd (run_state (exec_mailbox_req_u32 taking_bus (new_caliptra_soc None None None) 1 [0] [0, 0])
       (start_mach 0)))) = [1]"
  using mailbox_not_released [of taking_bus "new_caliptra_soc None None None" 1 "[0]" "[0, 0]" "start_mach 0"]
  by (simp add: Let_def taking_bus_answers)

end
