(* ===== verification/MailboxRun.thy ===== *)
theory MailboxRun
  imports Mailbox
begin

text \<open>
  A successful \<^verbatim>\<open>exec_mailbox_req_u32\<close> from its first register access to its
  last, put together from the stages of theory Mailbox, and the buffers it was given.
\<close>

section \<open>Draining a response of any length\<close>

text \<open>
  The number of words a response of \<open>d\<close> bytes has: \<^verbatim>\<open>(dlen_bytes_ + 3) / 4\<close>, whose
  sum wraps for the three largest lengths.
\<close>

definition response_words :: "usize \<Rightarrow> nat" where
  "response_words d = unat ((d + 3) div 4)"

lemma response_words_fit:
  assumes "response_words d \<noteq> 0"
  shows "unat d + 3 < 2 ^ 32" "d \<noteq> 0" "response_words d = (unat d + 3) div 4"
proof -
  have pos: "4 \<le> unat (d + 3)"
    using assms unfolding response_words_def
    by (simp only: unat_div) (simp add: div_eq_0_iff)
  show fit: "unat d + 3 < 2 ^ 32"
  proof (rule ccontr)
    assume "\<not> unat d + 3 < 2 ^ 32"
    then have "unat (d + 3) = unat d + 3 - 2 ^ 32"
      using u32_bound [of d] by (simp add: unat_word_ariths mod_if)
    with pos u32_bound [of d] show False by simp
  qed
  then have *: "unat (d + 3) = unat d + 3" by (simp add: unat_word_ariths)
  show "response_words d = (unat d + 3) div 4"
    unfolding response_words_def by (simp only: unat_div *) simp
  show "d \<noteq> 0" using pos * by auto
qed

lemma drain_any:
  assumes "length buf < 2 ^ 32"
  shows "\<exists>ds r' s'. drain_response b (new_response mbase d x) 0 buf s =
      ((r', take (length buf) (take (response_words d) (x # valid_words (unat d - 4) ds)) @
            drop (response_words d) buf), s') \<and>
      length ds = response_words d - 1 \<and>
      trace s' = trace s @ map (Rd (mbase + RESP_MBOX_DATAOUT)) ds"
proof (cases "response_words d = 0")
  case True
  then have "word_count (new_response mbase d x) = 0"
    by (simp add: response_words_def word_count_def new_response_def unat_eq_0)
  then have "drain_response b (new_response mbase d x) 0 buf s = ((new_response mbase d x, buf), s)"
    by (intro drain_end) simp
  with True show ?thesis by (intro exI [of _ "[]"]) simp
next
  case False
  note n = response_words_fit [OF False]
  obtain ds s' where ds: "drain_response b (new_response mbase d x) 0 buf s =
      ((drained ((new_response mbase d x)\<lparr>resp_idx := 1\<rparr>) ds,
        overlay 0 buf (x # valid_words (unat d - 4) ds)), s')"
    "length ds = response_words d - 1"
    "trace s' = trace s @ map (Rd (mbase + RESP_MBOX_DATAOUT)) ds"
    using drain_fresh [OF n(1,2) assms, of b mbase x s] unfolding n(3) by blast
  have "length (x # valid_words (unat d - 4) ds) = response_words d"
    using ds(2) False by simp
  then have "overlay 0 buf (x # valid_words (unat d - 4) ds) =
      take (length buf) (take (response_words d) (x # valid_words (unat d - 4) ds)) @
        drop (response_words d) buf"
    unfolding overlay_0 by (metis take_all_iff order_refl)
  with ds show ?thesis by (metis (no_types))
qed

lemma drain_length: "length (snd (fst (drain_response b r i buf s))) = length buf"
proof (induction b r i buf s rule: drain_response.induct)
  case (1 b r i buf s)
  obtain w r' s' where n: "run_state (response_next b r) s = ((w, r'), s')"
    by (metis prod.collapse)
  show ?case
  proof (cases w)
    case None
    then show ?thesis using n by (subst drain_response.simps) simp
  next
    case (Some x)
    then have n': "run_state (response_next b r) s = ((Some x, r'), s')" using n by simp
    from 1 [OF n' [symmetric]] show ?thesis by (simp add: drain_step [OF n'])
  qed
qed

text \<open>The buffers of the caller keep their lengths, whatever becomes of the request.\<close>

lemma exec_buffer_lengths:
  "fst (run_state (exec_mailbox_req_u32 b c cmd req resp) s) = (x, req', resp') \<Longrightarrow>
     length req' = length req \<and> length resp' = length resp"
  using drain_length [of b _ 0 resp]
  by (cases "byte_len req < REQ_HEADER_SIZE")
    (auto simp: exec_too_short exec_run not_less stamped_def
      split: prod.splits sum.splits option.splits, metis fst_conv snd_conv)

section \<open>The stages of a success\<close>

lemma started_ok:
  assumes "fst (started b c cmd req s) = Ok ()"
  shows "\<exists>free mine. free AND 1 = 0 \<and> mine AND 1 \<noteq> 0 \<and> byte_len req \<le> MAILBOX_SIZE \<and>
    trace (snd (started b c cmd req s)) = trace s @
      [Rd (mbox_reg c MBOX_LOCK) free, Rd (mbox_reg c MBOX_LOCK) mine] @
      request_writes c cmd (byte_len req) (stamped cmd req)"
proof -
  consider "byte_len req > MAILBOX_SIZE"
    | "byte_len req \<le> MAILBOX_SIZE" "fst (lock_reads b c s) AND 1 \<noteq> 0"
    | "byte_len req \<le> MAILBOX_SIZE" "fst (lock_reads b c s) AND 1 = 0" "snd (lock_reads b c s) AND 1 = 0"
    | "byte_len req \<le> MAILBOX_SIZE" "fst (lock_reads b c s) AND 1 = 0" "snd (lock_reads b c s) AND 1 \<noteq> 0"
    by fastforce
  then show ?thesis
    using assms by cases (auto simp: started_def start_cases)
qed

definition data_ready :: "u32 \<Rightarrow> bool" where
  "data_ready st \<longleftrightarrow> st AND MBOX_STATUS_CMD_FAILURE = 0 \<and> st AND MBOX_STATUS_CMD_COMPLETE = 0 \<and>
     st AND MBOX_STATUS_DATA_READY \<noteq> 0"

lemma finished_data:
  assumes "fst (finished b c cmd req resp s) = Ok (Some r)"
  shows "\<exists>vs st d x. r = new_response (soc_mbox_addr c) d x \<and> data_ready st \<and>
    vs \<noteq> [] \<and> length vs \<le> 400000 \<and> (\<forall>v \<in> set (butlast vs). busy v) \<and> \<not> busy (last vs) \<and>
    trace (snd (finished b c cmd req resp s)) = trace (snd (started b c cmd req s)) @
      map (Rd (mbox_reg c MBOX_STATUS)) vs @
      [Rd (mbox_reg c MBOX_STATUS) st, Rd (mbox_reg c MBOX_DLEN) d, Rd (mbox_reg c MBOX_DATAOUT) x]"
proof -
  have rl: "byte_len resp \<ge> RESP_HEADER_SIZE"
    by (rule ccontr) (use assms in \<open>simp add: finished_def finish_short\<close>)
  obtain vs es where vs: "trace (snd (finished b c cmd req resp s)) =
      trace (snd (started b c cmd req s)) @ map (Rd (mbox_reg c MBOX_STATUS)) vs @ es"
    "vs \<noteq> []" "length vs \<le> 400000" "\<forall>v \<in> set (butlast vs). busy v" "\<not> busy (last vs)"
    "finish_ends c es (Ok (Some r))"
    using finish_run [OF rl rl, of b c "snd (started b c cmd req s)"] assms
    by (auto simp: finished_def split: if_splits)
  from vs(6) show ?thesis
    by (cases rule: finish_ends_OkE) (use vs in \<open>auto simp: data_ready_def\<close>)
qed

text \<open>The two registers of the iterator are other registers of the mailbox.\<close>

lemma same_offsets: "RESP_MBOX_DATAOUT = MBOX_LOCK" "RESP_MBOX_EXECUTE = MBOX_CMD"
  by (simp_all add: reg_offsets)

section \<open>A request that succeeds\<close>

lemma exec_ok_parts:
  assumes "fst (fst (run_state (exec_mailbox_req_u32 b c cmd req resp) s)) = Ok ()"
  obtains s1 s2 r where "byte_len req \<ge> REQ_HEADER_SIZE" "started b c cmd req s = (Ok (), s1)"
    "finished b c cmd req resp s = (Ok (Some r), s2)"
proof -
  have len: "byte_len req \<ge> REQ_HEADER_SIZE"
    by (rule ccontr) (use assms in \<open>simp add: exec_too_short\<close>)
  then show ?thesis
    using assms that unfolding exec_run [OF len]
    by (auto split: prod.splits sum.splits option.splits)
qed

text \<open>Once it is known that there is data, the rest of the request is determined.\<close>

lemma exec_after_data:
  assumes len: "byte_len req \<ge> REQ_HEADER_SIZE" and buf: "length resp < 2 ^ 32"
    and st: "started b c cmd req s = (Ok (), s1)"
    and fin: "finished b c cmd req resp s = (Ok (Some (new_response (soc_mbox_addr c) d x)), s2)"
  obtains ds s3 where "length ds = response_words d - 1"
    "trace s3 = trace s2 @ map (Rd (mbox_reg c MBOX_LOCK)) ds @ [Wr (mbox_reg c MBOX_CMD) 0]"
    "run_state (exec_mailbox_req_u32 b c cmd req resp) s =
      ((Ok (), stamped cmd req,
        take (length resp) (take (response_words d) (x # valid_words (unat d - 4) ds)) @
          drop (response_words d) resp), s3)"
proof -
  let ?r = "new_response (soc_mbox_addr c) d x"
  obtain ds r' s3 where drain: "drain_response b ?r 0 resp s2 =
      ((r', take (length resp) (take (response_words d) (x # valid_words (unat d - 4) ds)) @
            drop (response_words d) resp), s3)"
    "length ds = response_words d - 1"
    "trace s3 = trace s2 @ map (Rd (mbox_reg c RESP_MBOX_DATAOUT)) ds"
    using drain_any [OF buf, of b "soc_mbox_addr c" d x s2] by blast
  have "\<not> resp_released r'" "resp_mbox_base r' = soc_mbox_addr c"
    using drain_released [of b ?r 0 resp s2] drain_base [of b ?r 0 resp s2] drain(1)
    by (simp_all add: new_response_def)
  then show ?thesis
    using drain
    by (intro that [of ds "snd (run_state (mmio_write b (soc_mbox_addr c + RESP_MBOX_EXECUTE) 0) s3)"])
      (simp_all add: exec_run [OF len] st fin response_destroy_def run_mmio same_offsets)
qed

section \<open>Properties\<close>

text \<open>
  C11. A request that succeeds made exactly these accesses: it found the lock free and then
  taken, wrote the command, the length, the stamped request and EXECUTE, polled the status
  until it was not busy, read the status, the length and the checksum, read the words of
  the response after the first one from the LOCK register, and wrote 0 to the command
  register. The caller's buffer then starts with the checksum and those words, as many as
  the response has and as fit, and keeps the rest.
\<close>

theorem mailbox_transaction:
  assumes "fst (fst (run_state (exec_mailbox_req_u32 b c cmd req resp) s)) = Ok ()"
    and "length resp < 2 ^ 32"
  shows "let res = run_state (exec_mailbox_req_u32 b c cmd req resp) s
    in \<exists>free mine vs st d x ds. free AND 1 = 0 \<and> mine AND 1 \<noteq> 0 \<and> data_ready st \<and>
      vs \<noteq> [] \<and> length vs \<le> 400000 \<and> (\<forall>v \<in> set (butlast vs). busy v) \<and> \<not> busy (last vs) \<and>
      length ds = response_words d - 1 \<and>
      trace (snd res) = trace s @
        [Rd (mbox_reg c MBOX_LOCK) free, Rd (mbox_reg c MBOX_LOCK) mine,
         Wr (mbox_reg c MBOX_CMD) cmd, Wr (mbox_reg c MBOX_DLEN) (byte_len req)] @
        map (Wr (mbox_reg c MBOX_DATAIN)) (stamped cmd req) @ [Wr (mbox_reg c MBOX_EXECUTE) 1] @
        map (Rd (mbox_reg c MBOX_STATUS)) vs @
        [Rd (mbox_reg c MBOX_STATUS) st, Rd (mbox_reg c MBOX_DLEN) d, Rd (mbox_reg c MBOX_DATAOUT) x] @
        map (Rd (mbox_reg c MBOX_LOCK)) ds @ [Wr (mbox_reg c MBOX_CMD) 0] \<and>
      snd (snd (fst res)) =
        take (length resp) (take (response_words d) (x # valid_words (unat d - 4) ds)) @
        drop (response_words d) resp"
proof -
  obtain s1 s2 r where len: "byte_len req \<ge> REQ_HEADER_SIZE"
    and st: "started b c cmd req s = (Ok (), s1)"
    and fin: "finished b c cmd req resp s = (Ok (Some r), s2)"
    by (rule exec_ok_parts [OF assms(1)])
  obtain free mine where lock: "free AND 1 = 0" "mine AND 1 \<noteq> 0"
    "trace s1 = trace s @ [Rd (mbox_reg c MBOX_LOCK) free, Rd (mbox_reg c MBOX_LOCK) mine] @
      request_writes c cmd (byte_len req) (stamped cmd req)"
    using started_ok [of b c cmd req s] st by auto
  obtain vs w d x where poll: "r = new_response (soc_mbox_addr c) d x" "data_ready w"
    "vs \<noteq> []" "length vs \<le> 400000" "\<forall>v \<in> set (butlast vs). busy v" "\<not> busy (last vs)"
    "trace s2 = trace s1 @ map (Rd (mbox_reg c MBOX_STATUS)) vs @
      [Rd (mbox_reg c MBOX_STATUS) w, Rd (mbox_reg c MBOX_DLEN) d, Rd (mbox_reg c MBOX_DATAOUT) x]"
    using finished_data [of b c cmd req resp s r] st fin by auto
  obtain ds s3 where ds: "length ds = response_words d - 1"
    "trace s3 = trace s2 @ map (Rd (mbox_reg c MBOX_LOCK)) ds @ [Wr (mbox_reg c MBOX_CMD) 0]"
    and run: "run_state (exec_mailbox_req_u32 b c cmd req resp) s =
      ((Ok (), stamped cmd req,
        take (length resp) (take (response_words d) (x # valid_words (unat d - 4) ds)) @
          drop (response_words d) resp), s3)"
    by (rule exec_after_data [OF len assms(2) st fin [unfolded poll(1)]])
  have "trace s3 = trace s @
      [Rd (mbox_reg c MBOX_LOCK) free, Rd (mbox_reg c MBOX_LOCK) mine,
       Wr (mbox_reg c MBOX_CMD) cmd, Wr (mbox_reg c MBOX_DLEN) (byte_len req)] @
      map (Wr (mbox_reg c MBOX_DATAIN)) (stamped cmd req) @ [Wr (mbox_reg c MBOX_EXECUTE) 1] @
      map (Rd (mbox_reg c MBOX_STATUS)) vs @
      [Rd (mbox_reg c MBOX_STATUS) w, Rd (mbox_reg c MBOX_DLEN) d, Rd (mbox_reg c MBOX_DATAOUT) x] @
      map (Rd (mbox_reg c MBOX_LOCK)) ds @ [Wr (mbox_reg c MBOX_CMD) 0]"
    by (simp add: ds(2) poll(7) lock(3) request_writes_def)
  with lock(1,2) poll(2-6) ds(1) show ?thesis
    unfolding run Let_def fst_conv snd_conv by blast
qed

theorem mailbox_transaction_witness:
  "last (trace (snd (run_state (exec_mailbox_req_u32 taking_bus (new_caliptra_soc None None None) 1 [0] [0, 0])
     (start_mach 0)))) = Wr 0x30020004 0"
  using mailbox_transaction [OF taking_bus_answers]
  by (auto simp: Let_def new_caliptra_soc_def value_or_def reg_offsets)

end
