(* ===== verification/MailboxLock.thy ===== *)
theory MailboxLock
  imports MailboxRun
begin

text \<open>
  Sequences of mailbox requests on a mailbox that has a lock: reading LOCK tells whether it
  is taken and takes it, and only clearing EXECUTE releases it. A request that succeeded
  never clears EXECUTE, so it is the last one that does.
\<close>

section \<open>A request stays in the mailbox\<close>

definition mailbox_regs :: "caliptra_soc \<Rightarrow> u32 set" where
  "mailbox_regs c = mbox_reg c ` {MBOX_LOCK, MBOX_CMD, MBOX_DLEN, MBOX_DATAIN, MBOX_DATAOUT,
     MBOX_STATUS, MBOX_EXECUTE}"

definition error_regs :: "caliptra_soc \<Rightarrow> u32 set" where
  "error_regs c = {soc_ifc_addr c + SOC_IFC_CPTRA_FW_ERROR_FATAL,
     soc_ifc_addr c + SOC_IFC_CPTRA_FW_ERROR_NON_FATAL}"

lemma mailbox_regs_in:
  "mbox_reg c MBOX_LOCK \<in> mailbox_regs c" "mbox_reg c MBOX_CMD \<in> mailbox_regs c"
  "mbox_reg c MBOX_DLEN \<in> mailbox_regs c" "mbox_reg c MBOX_DATAIN \<in> mailbox_regs c"
  "mbox_reg c MBOX_DATAOUT \<in> mailbox_regs c" "mbox_reg c MBOX_STATUS \<in> mailbox_regs c"
  "mbox_reg c MBOX_EXECUTE \<in> mailbox_regs c"
  by (simp_all add: mailbox_regs_def)

lemma request_reads_in:
  "x \<in> mailbox_regs c \<Longrightarrow> x \<in> mailbox_regs c \<union> error_regs c"
  "soc_ifc_addr c + SOC_IFC_CPTRA_FW_ERROR_FATAL \<in> mailbox_regs c \<union> error_regs c"
  "soc_ifc_addr c + SOC_IFC_CPTRA_FW_ERROR_NON_FATAL \<in> mailbox_regs c \<union> error_regs c"
  by (simp_all add: error_regs_def)

abbreviation in_mailbox :: "'h bus \<Rightarrow> caliptra_soc \<Rightarrow> nat \<Rightarrow> ('h, 'a) io \<Rightarrow> bool" where
  "in_mailbox b c n m \<equiv> confined b (mailbox_regs c \<union> error_regs c) (mailbox_regs c) n m"

lemmas in_mailbox_intros = confine request_reads_in(2,3) mailbox_regs_in
  mailbox_regs_in [THEN request_reads_in(1)]

lemma write_all_datain_confined: "in_mailbox b c (length ds) (write_all_datain b c ds)"
proof (induction ds)
  case Nil
  show ?case by (simp add: confined_return)
next
  case (Cons d ds)
  have "in_mailbox b c (1 + length ds) (write_all_datain b c (d # ds))"
    unfolding write_all_datain.simps io_defs by (rule in_mailbox_intros Cons)+
  then show ?case by simp
qed

lemma start_confined: "in_mailbox b c (length data + 5) (start_mailbox_req b c cmd len data)"
  unfolding start_mailbox_req_def lock_mailbox_def set_command_def io_defs
  by (rule confined_mono, (rule in_mailbox_intros write_all_datain_confined [unfolded io_defs])+) simp

lemma wait_not_busy_confined: "in_mailbox b c 400000 (wait_not_busy b c MAX_WAIT_CYCLES)"
  unfolding MAX_WAIT_budget [symmetric]
  by (rule cmd_poll.wait_confined) (rule in_mailbox_intros)

lemma finish_confined: "in_mailbox b c 400004 (finish_mailbox_resp b c n k)"
  unfolding finish_mailbox_resp_def io_defs
  by (rule confined_mono, (rule in_mailbox_intros wait_not_busy_confined)+) simp

text \<open>Each word of the response costs at most one read of the iterator's data register.\<close>

lemma next_goes:
  "data_addr r \<in> R \<Longrightarrow> goes b R W 1 s (snd (run_state (response_next b r) s))"
  unfolding response_next_def
  by (rule confined_goes, rule confined_mono, (rule confine | assumption)+) simp

lemma drain_goes:
  "data_addr r \<in> R \<Longrightarrow>
     goes b R W (unat (word_count r) - unat (resp_idx r)) s (snd (drain_response b r i buf s))"
proof (induction b r i buf s rule: drain_response.induct)
  case (1 b r i buf s)
  obtain w r' s' where n: "run_state (response_next b r) s = ((w, r'), s')"
    by (metis prod.collapse)
  show ?case
  proof (cases w)
    case None
    then have "s' = s" using n by (auto simp: response_next_def Let_def split: if_splits)
    then show ?thesis using n None goes_refl by (subst drain_response.simps) simp
  next
    case (Some x)
    then have n': "run_state (response_next b r) s = ((Some x, r'), s')" using n by simp
    have same: "data_addr r' = data_addr r" "word_count r' = word_count r"
      using n' by (auto simp: response_next_def Let_def word_count_def split: if_splits)
    have lt: "resp_idx r < word_count r" "resp_idx r' = resp_idx r + 1"
      using response_next_Some [OF n'] by simp_all
    have "goes b R W 1 s s'" using next_goes [OF 1(2), of b W s] n' by simp
    moreover have "goes b R W (unat (word_count r') - unat (resp_idx r')) s'
        (snd (drain_response b r' (i + 1)
          (if i < of_nat (length buf) then buf[unat i := x] else buf) s'))"
      using 1(1) [OF n' [symmetric] refl refl] 1(2) same by simp
    ultimately show ?thesis
      unfolding drain_step [OF n']
      by (rule goes_mono [OF goes_trans])
        (use lt unat_Suc [of "resp_idx r" "word_count r"] in \<open>simp add: same word_less_nat_alt\<close>)
  qed
qed

lemma word_count_bound: "unat (word_count r) \<le> 2 ^ 30"
proof -
  have "unat (word_count r) = unat (resp_dlen r + 3) div 4" by (simp add: word_count_def unat_div)
  then show ?thesis using u32_bound [of "resp_dlen r + 3"] by simp
qed

lemma destroy_confined:
  "resp_mbox_base r + RESP_MBOX_EXECUTE \<in> W \<Longrightarrow> confined b R W 1 (response_destroy b r)"
  unfolding response_destroy_def
  by (rule confined_mono, (rule confine | assumption)+) simp

lemma exec_not_started:
  "byte_len req \<ge> REQ_HEADER_SIZE \<Longrightarrow> started b c cmd req s = (Inl e, s1) \<Longrightarrow>
     run_state (exec_mailbox_req_u32 b c cmd req resp) s = ((Err e, stamped cmd req, resp), s1)"
  by (simp add: exec_run)

lemma drain_release_goes:
  assumes "data_addr r \<in> R" "resp_mbox_base r + RESP_MBOX_EXECUTE \<in> W"
    and dr: "drain_response b r 0 buf s = ((r', buf'), s')"
  shows "goes b R W (2 ^ 30 + 1) s (snd (run_state (response_destroy b r') s'))"
proof -
  have "goes b R W (unat (word_count r)) s s'"
    using drain_goes [OF assms(1), of b W s 0 buf] dr by (auto elim: goes_mono)
  then have "goes b R W (2 ^ 30) s s'" by (rule goes_mono) (rule word_count_bound)
  moreover have "resp_mbox_base r' + RESP_MBOX_EXECUTE \<in> W"
    using drain_base [of b r 0 buf s] dr assms(2) by simp
  then have "goes b R W 1 s' (snd (run_state (response_destroy b r') s'))"
    by (intro confined_goes destroy_confined)
  ultimately show ?thesis by (rule goes_trans)
qed

text \<open>The whole request.\<close>

lemma exec_goes:
  "goes b (mailbox_regs c \<union> error_regs c) (mailbox_regs c) (length req + 400010 + 2 ^ 30) s
     (snd (run_state (exec_mailbox_req_u32 b c cmd req resp) s))" (is "goes b ?R ?W ?n s ?s'")
proof (cases "byte_len req \<ge> REQ_HEADER_SIZE")
  case False
  then show ?thesis by (simp add: exec_too_short goes_refl)
next
  case len: True
  obtain x1 s1 where st: "started b c cmd req s = (x1, s1)" by (cases "started b c cmd req s")
  obtain x2 s2 where fin: "finished b c cmd req resp s = (x2, s2)"
    by (cases "finished b c cmd req resp s")
  have g1: "goes b ?R ?W (length req + 5) s s1"
    using confined_goes [OF start_confined [of b c "stamped cmd req" cmd "byte_len req"], of s] st
    by (simp add: started_def stamped_def)
  have g2: "goes b ?R ?W (length req + 400009) s s2"
    using goes_trans [OF g1 confined_goes [OF finish_confined [of b c "byte_len resp" "byte_len resp"], of s1]]
      fin st by (simp add: finished_def add.commute)
  consider (one) e where "x1 = Inl e" | (two) u where "x1 = Inr u" "\<nexists>r. x2 = Inr (Some r)"
    | (three) u r where "x1 = Inr u" "x2 = Inr (Some r)"
    by (cases x1) auto
  then show ?thesis
  proof cases
    case one
    then show ?thesis by (simp add: exec_run [OF len] st) (rule goes_mono [OF g1], simp)
  next
    case two
    then have "?s' = s2"
      by (cases x2) (auto simp: exec_run [OF len] st fin split: option.splits)
    then show ?thesis by (simp add: goes_mono [OF g2])
  next
    case three
    have base: "resp_mbox_base r = soc_mbox_addr c"
      using finished_data [of b c cmd req resp s r] fin three(2) by (auto simp: new_response_def)
    have regs: "data_addr r \<in> ?R" "resp_mbox_base r + RESP_MBOX_EXECUTE \<in> ?W"
      unfolding base same_offsets by (simp_all add: mailbox_regs_in)
    obtain r' resp' s3 where dr: "drain_response b r 0 resp s2 = ((r', resp'), s3)"
      by (metis prod.collapse)
    from goes_trans [OF g2 drain_release_goes [OF regs dr]] show ?thesis
      by (simp add: exec_run [OF len] st fin three dr goes_mono)
  qed
qed

section \<open>A mailbox with a lock\<close>

definition lock_device :: "'h bus \<Rightarrow> caliptra_soc \<Rightarrow> ('h \<Rightarrow> bool) \<Rightarrow> bool" where
  "lock_device b c locked \<longleftrightarrow>
     (\<forall>h. (fst (bus_read b (mbox_reg c MBOX_LOCK) h) AND 1 \<noteq> 0) = locked h) \<and>
     (\<forall>h. locked (snd (bus_read b (mbox_reg c MBOX_LOCK) h))) \<and>
     (\<forall>a h. a \<noteq> mbox_reg c MBOX_LOCK \<longrightarrow> locked (snd (bus_read b a h)) = locked h) \<and>
     (\<forall>a v h. locked (bus_write b a v h) \<longleftrightarrow>
        locked h \<and> \<not> (a = mbox_reg c MBOX_EXECUTE \<and> v AND 1 = 0))"

text \<open>A lock stays taken while no clear bit is written to EXECUTE, and a read takes it.\<close>

definition no_release :: "caliptra_soc \<Rightarrow> event list \<Rightarrow> bool" where
  "no_release c es \<longleftrightarrow> list_all (\<lambda>v. v AND 1 \<noteq> 0) (written_to (mbox_reg c MBOX_EXECUTE) es)"

lemma locked_run:
  assumes "lock_device b c locked" "bus_run b h es h'" "no_release c es"
    and "locked h \<or> (\<exists>v. Rd (mbox_reg c MBOX_LOCK) v \<in> set es)"
  shows "locked h'"
  using assms(2-4)
proof (induction rule: bus_run.induct)
  case (run_rd a h v h1 es h2)
  have "snd (bus_read b a h) = h1" using run_rd.hyps(1) by simp
  then have "locked h1 \<or> (\<exists>v. Rd (mbox_reg c MBOX_LOCK) v \<in> set es)"
    using run_rd.prems(2) assms(1) by (cases "a = mbox_reg c MBOX_LOCK") (auto simp: lock_device_def)
  then show ?case using run_rd.IH run_rd.prems(1) by (simp add: no_release_def)
next
  case (run_wr a v h es h2)
  have "locked (bus_write b a v h) \<or> (\<exists>v. Rd (mbox_reg c MBOX_LOCK) v \<in> set es)"
    using run_wr.prems assms(1) by (auto simp: lock_device_def no_release_def split: if_splits)
  then show ?case using run_wr.IH run_wr.prems(1) by (simp add: no_release_def split: if_splits)
qed simp

text \<open>A request of a length the mailbox takes, on a taken mailbox, is refused at once.\<close>

definition request_legal :: "u32 list \<Rightarrow> bool" where
  "request_legal req \<longleftrightarrow> REQ_HEADER_SIZE \<le> byte_len req \<and> byte_len req \<le> MAILBOX_SIZE"

lemma locked_refuses:
  assumes "lock_device b c locked" "locked (hw s)" "request_legal req"
  shows "fst (fst (run_state (exec_mailbox_req_u32 b c cmd req resp) s)) = Err MBOX_LOCK_FAILED"
proof -
  have len: "byte_len req \<ge> REQ_HEADER_SIZE" "byte_len req \<le> MAILBOX_SIZE"
    using assms(3) by (simp_all add: request_legal_def)
  have "fst (lock_reads b c s) AND 1 \<noteq> 0"
    using assms(1,2) by (simp add: lock_reads_def lock_device_def)
  then show ?thesis
    using start_locked [OF len(2), of b c s cmd "stamped cmd req"]
    by (metis exec_not_started [OF len(1)] fst_conv prod.collapse started_def)
qed

text \<open>Any request that begins on a taken mailbox leaves it taken.\<close>

lemma locked_keeps:
  assumes "lock_device b c locked" "locked (hw s)"
  shows "locked (hw (snd (run_state (exec_mailbox_req_u32 b c cmd req resp) s)))"
proof (cases "request_legal req")
  case True
  have err: "fst (fst (run_state (exec_mailbox_req_u32 b c cmd req resp) s)) = Err MBOX_LOCK_FAILED"
    by (rule locked_refuses [OF assms True])
  obtain es where es: "moved b s es (snd (run_state (exec_mailbox_req_u32 b c cmd req resp) s))"
    using exec_goes unfolding goes_def by blast
  then have "no_release c es"
    using exec_accounts_err [OF err] by (auto simp: moved_def no_release_def)
  with es assms show ?thesis by (auto simp: moved_def intro: locked_run)
next
  case False
  show ?thesis
  proof (cases "byte_len req \<ge> REQ_HEADER_SIZE")
    case True
    with False have "byte_len req > MAILBOX_SIZE" by (simp add: request_legal_def)
    then show ?thesis
      using assms(2) by (simp add: exec_run [OF True] started_def start_too_long)
  qed (use assms(2) in \<open>simp add: exec_too_short\<close>)
qed

text \<open>A success and a timeout end on a taken mailbox.\<close>

lemma exec_started:
  assumes "fst (fst (run_state (exec_mailbox_req_u32 b c cmd req resp) s)) \<in> {Ok (), Err MBOX_TIMEOUT}"
  shows "byte_len req \<ge> REQ_HEADER_SIZE" "fst (started b c cmd req s) = Ok ()"
proof -
  show len: "byte_len req \<ge> REQ_HEADER_SIZE"
    by (rule ccontr) (use assms in \<open>simp add: exec_too_short\<close>)
  show "fst (started b c cmd req s) = Ok ()"
  proof (cases "fst (started b c cmd req s)")
    case (Inl e)
    then have "e = MBOX_INVALID_RESPONSE \<or> e = MBOX_LOCK_FAILED"
      using start_err [of b c cmd "byte_len req" "stamped cmd req" s e] by (simp add: started_def)
    moreover have "fst (fst (run_state (exec_mailbox_req_u32 b c cmd req resp) s)) = Err e"
      using Inl exec_not_started [OF len, of b c cmd s e] by (metis fst_conv prod.collapse)
    ultimately show ?thesis using assms by auto
  qed simp
qed

lemma exec_after_start:
  assumes "byte_len req \<ge> REQ_HEADER_SIZE" "fst (started b c cmd req s) = Ok ()"
  shows "\<exists>es. trace (snd (run_state (exec_mailbox_req_u32 b c cmd req resp) s)) =
    trace (snd (started b c cmd req s)) @ es"
proof -
  obtain s1 where st: "started b c cmd req s = (Ok (), s1)"
    using assms(2) by (metis prod.collapse)
  obtain x2 s2 where fin: "finished b c cmd req resp s = (x2, s2)"
    by (cases "finished b c cmd req resp s")
  obtain es2 where es2: "trace s2 = trace s1 @ es2"
    using finish_writes [of b c "byte_len resp" "byte_len resp" s1] fin st by (auto simp: finished_def)
  show ?thesis
  proof (cases "\<exists>r. x2 = Inr (Some r)")
    case True
    then obtain r where r: "x2 = Inr (Some r)" by blast
    obtain r' resp' s3 where dr: "drain_response b r 0 resp s2 = ((r', resp'), s3)"
      by (metis prod.collapse)
    obtain vs where "trace s3 = trace s2 @ map (Rd (data_addr r)) vs"
      using drain_no_writes [of b r 0 resp s2] dr by auto
    then show ?thesis
      using es2 by (simp add: exec_run [OF assms(1)] st fin r dr response_destroy_def run_mmio)
  next
    case False
    then show ?thesis
      using es2 by (cases x2) (auto simp: exec_run [OF assms(1)] st fin split: option.splits)
  qed
qed

lemma exec_takes:
  assumes "lock_device b c locked"
    and "fst (fst (run_state (exec_mailbox_req_u32 b c cmd req resp) s)) \<in> {Ok (), Err MBOX_TIMEOUT}"
  shows "locked (hw (snd (run_state (exec_mailbox_req_u32 b c cmd req resp) s)))"
proof -
  note st = exec_started [OF assms(2)]
  obtain es where es: "moved b s es (snd (run_state (exec_mailbox_req_u32 b c cmd req resp) s))"
    using exec_goes unfolding goes_def by blast
  obtain free mine fs where "trace (snd (run_state (exec_mailbox_req_u32 b c cmd req resp) s)) =
      trace s @ Rd (mbox_reg c MBOX_LOCK) free # Rd (mbox_reg c MBOX_LOCK) mine # fs"
    using started_ok [OF st(2)] exec_after_start [OF st] by fastforce
  with es have "es = Rd (mbox_reg c MBOX_LOCK) free # Rd (mbox_reg c MBOX_LOCK) mine # fs"
    by (simp add: moved_def)
  moreover have "no_release c es"
    using exec_accounts [of b c cmd req resp s] es assms(2) by (auto simp: moved_def no_release_def)
  ultimately show ?thesis
    using locked_run [OF assms(1), of "hw s" es] es by (auto simp: moved_def)
qed

section \<open>Sequences of requests\<close>

text \<open>Each request is a command with its request and response buffers; the results in order.\<close>

fun send_all :: "'h bus \<Rightarrow> caliptra_soc \<Rightarrow> (u32 \<times> u32 list \<times> u32 list) list \<Rightarrow> ('h, unit result list) io" where
  "send_all b c [] = return []"
| "send_all b c ((cmd, req, resp) # qs) = do {
     (r, req', resp') \<leftarrow> exec_mailbox_req_u32 b c cmd req resp;
     rs \<leftarrow> send_all b c qs;
     return (r # rs) }"

lemma run_send_Cons:
  "run_state (send_all b c ((cmd, req, resp) # qs)) s =
     (let (x, s1) = run_state (exec_mailbox_req_u32 b c cmd req resp) s;
          (rs, s2) = run_state (send_all b c qs) s1
      in (fst x # rs, s2))"
  by (simp add: Let_def case_prod_beta)

lemma send_length: "length (fst (run_state (send_all b c qs) s)) = length qs"
  by (induction b c qs arbitrary: s rule: send_all.induct)
    (simp_all add: run_send_Cons case_prod_beta Let_def del: send_all.simps(2))

lemma locked_refuses_all:
  assumes "lock_device b c locked" "locked (hw s)" "j < length qs" "request_legal (fst (snd (qs ! j)))"
  shows "fst (run_state (send_all b c qs) s) ! j = Err MBOX_LOCK_FAILED"
  using assms(2-4)
proof (induction qs arbitrary: s j)
  case (Cons q qs)
  obtain cmd req resp where q: "q = (cmd, req, resp)" by (cases q)
  show ?case
  proof (cases j)
    case 0
    then show ?thesis
      using locked_refuses [OF assms(1) Cons.prems(1)] Cons.prems(3)
      by (simp add: q run_send_Cons case_prod_beta Let_def del: send_all.simps(2))
  next
    case (Suc k)
    then show ?thesis
      using Cons.IH [OF locked_keeps [OF assms(1) Cons.prems(1)]] Cons.prems(2,3)
      by (simp add: q run_send_Cons case_prod_beta Let_def del: send_all.simps(2))
  qed
qed simp

lemma one_success:
  assumes "lock_device b c locked" "i < j" "j < length qs"
    and "fst (run_state (send_all b c qs) s) ! i \<in> {Ok (), Err MBOX_TIMEOUT}"
    and "request_legal (fst (snd (qs ! j)))"
  shows "fst (run_state (send_all b c qs) s) ! j = Err MBOX_LOCK_FAILED"
  using assms(2-5)
proof (induction qs arbitrary: s i j)
  case (Cons q qs)
  obtain cmd req resp where q: "q = (cmd, req, resp)" by (cases q)
  obtain k where j: "j = Suc k" using Cons.prems(1) by (cases j) auto
  let ?s1 = "snd (run_state (exec_mailbox_req_u32 b c cmd req resp) s)"
  have rest: "fst (run_state (send_all b c (q # qs)) s) =
      fst (fst (run_state (exec_mailbox_req_u32 b c cmd req resp) s)) #
      fst (run_state (send_all b c qs) ?s1)"
    by (simp add: q run_send_Cons case_prod_beta Let_def del: send_all.simps(2))
  show ?case
  proof (cases i)
    case 0
    then have "locked (hw ?s1)" using Cons.prems(3) exec_takes [OF assms(1)] by (simp add: rest)
    then show ?thesis
      using locked_refuses_all [OF assms(1)] Cons.prems(2,4) by (simp add: rest j)
  next
    case (Suc m)
    then show ?thesis using Cons.IH [of m k ?s1] Cons.prems by (simp add: rest j)
  qed
qed simp

text \<open>A mailbox that is a lock and answers every command with data of no length.\<close>

definition lock_bus :: "bool bus" where
  "lock_bus =
     \<lparr>bus_read = \<lambda>a h. if a = 0x30020000 then (if h then 1 else 0, True)
                     else if a = 0x30020014 then (8, h) else (0, h),
      bus_write = \<lambda>a v h. h \<and> \<not> (a = 0x30020018 \<and> v AND 1 = 0),
      bus_csr = \<lambda>_ h. (0, h)\<rparr>"

abbreviation default_soc :: caliptra_soc where
  "default_soc \<equiv> new_caliptra_soc None None None"

lemma lock_bus_device: "lock_device lock_bus default_soc (\<lambda>h. h)"
  by (simp add: lock_device_def lock_bus_def new_caliptra_soc_def value_or_def reg_offsets)

lemma lock_bus_first:
  "fst (run_state (send_all lock_bus default_soc [(1, [0], [0, 0]), (2, [0], [0, 0])]) (start_mach False)) ! 0
     = Ok ()"
  by code_simp

section \<open>Properties\<close>

text \<open>
  C13. On a mailbox whose LOCK register is a lock that only clearing EXECUTE releases, at
  most one request of any sequence succeeds: once a request has succeeded, or timed out,
  every later request of a legal length fails with \<^verbatim>\<open>MBOX_LOCK_FAILED\<close>, whatever
  the commands and whatever the mailbox answers.
\<close>

theorem mailbox_serves_one_request:
  assumes "lock_device b c locked" "i < j" "j < length qs"
    and "fst (run_state (send_all b c qs) s) ! i \<in> {Ok (), Err MBOX_TIMEOUT}"
    and "request_legal (fst (snd (qs ! j)))"
  shows "fst (run_state (send_all b c qs) s) ! j = Err MBOX_LOCK_FAILED"
  by (rule one_success [OF assms])

theorem mailbox_serves_one_request_witness:
  "fst (run_state (send_all lock_bus default_soc [(1, [0], [0, 0]), (2, [0], [0, 0])]) (start_mach False)) ! 1
     = Err MBOX_LOCK_FAILED"
  using mailbox_serves_one_request [OF lock_bus_device, of 0 1
      "[(1, [0], [0, 0]), (2, [0], [0, 0])]" "start_mach False"] lock_bus_first
  by (simp add: request_legal_def byte_len_def reg_offsets del: send_all.simps)

text \<open>
  C14. A request touches only the seven registers of the mailbox and reads the two error
  registers of the SoC interface, whatever the mailbox answers. Its accesses are at most
  the words of the request, the 400000 polls, ten more, and the words of the response:
  their number is the mailbox's to choose, up to \<open>2^30\<close>.
\<close>

theorem mailbox_request_confined:
  "\<exists>es. trace (snd (run_state (exec_mailbox_req_u32 b c cmd req resp) s)) = trace s @ es \<and>
     bus_run b (hw s) es (hw (snd (run_state (exec_mailbox_req_u32 b c cmd req resp) s))) \<and>
     list_all (event_within (mailbox_regs c \<union> error_regs c) (mailbox_regs c)) es \<and>
     length es \<le> length req + 400010 + 2 ^ 30"
  using exec_goes unfolding goes_def moved_def by blast

end
