(* ===== verification/MailboxService.thy ===== *)
theory MailboxService
  imports MailboxLock
begin

text \<open>
  What the mailbox operations amount to for a caller, on a mailbox with a lock that answers
  each command in its own way: a service with one bit of state. Every sequence of requests
  has the results of the service and leaves the lock as the service does.
\<close>

section \<open>The service\<close>

text \<open>How the mailbox answers a command, when it is done: with a status bit, none, or never.\<close>

datatype mailbox_answer = Fails | Completes | HasData | Silent | Hangs

type_synonym mailbox_request = "u32 \<times> u32 list \<times> u32 list"

text \<open>
  One request: the result, and whether the lock is taken afterwards. A command that
  completed without data is an error of the call, and only it and a failed one give the
  lock back.
\<close>

definition serve :: "(u32 \<Rightarrow> mailbox_answer) \<Rightarrow> mailbox_request \<Rightarrow> bool \<Rightarrow> unit result \<times> bool" where
  "serve answer q taken = (case q of (cmd, req, resp) \<Rightarrow>
     if \<not> request_legal req then (Err MBOX_INVALID_RESPONSE, taken)
     else if taken then (Err MBOX_LOCK_FAILED, True)
     else if byte_len resp < RESP_HEADER_SIZE then (Err MBOX_INVALID_RESPONSE, True)
     else (case answer cmd of
         Fails \<Rightarrow> (Err MBOX_CMD_FAILED, False)
       | Completes \<Rightarrow> (Err MBOX_INVALID_RESPONSE, False)
       | HasData \<Rightarrow> (Ok (), True)
       | Silent \<Rightarrow> (Err MBOX_INVALID_RESPONSE, True)
       | Hangs \<Rightarrow> (Err MBOX_TIMEOUT, True)))"

fun serve_all :: "(u32 \<Rightarrow> mailbox_answer) \<Rightarrow> mailbox_request list \<Rightarrow> bool \<Rightarrow> unit result list \<times> bool" where
  "serve_all answer [] taken = ([], taken)"
| "serve_all answer (q # qs) taken =
     (let (r, t1) = serve answer q taken; (rs, t2) = serve_all answer qs t1 in (r # rs, t2))"

section \<open>A mailbox that answers\<close>

text \<open>
  The status shows the answer to the command written last, and turns not busy within the
  polls the driver makes unless the command hangs; the error registers of the SoC interface
  are not the lock.
\<close>

definition shows_answer :: "mailbox_answer \<Rightarrow> u32 \<Rightarrow> bool" where
  "shows_answer a st \<longleftrightarrow> (case a of
     Fails \<Rightarrow> st AND MBOX_STATUS_CMD_FAILURE \<noteq> 0
   | Completes \<Rightarrow> st AND MBOX_STATUS_CMD_FAILURE = 0 \<and> st AND MBOX_STATUS_CMD_COMPLETE \<noteq> 0
   | HasData \<Rightarrow> data_ready st
   | Silent \<Rightarrow> st AND MBOX_STATUS_CMD_FAILURE = 0 \<and> st AND MBOX_STATUS_CMD_COMPLETE = 0 \<and>
       st AND MBOX_STATUS_DATA_READY = 0
   | Hangs \<Rightarrow> True)"

definition mailbox_device ::
    "'h bus \<Rightarrow> caliptra_soc \<Rightarrow> ('h \<Rightarrow> bool) \<Rightarrow> ('h \<Rightarrow> u32) \<Rightarrow> (u32 \<Rightarrow> mailbox_answer) \<Rightarrow> bool" where
  "mailbox_device b c locked cmd_of answer \<longleftrightarrow>
     lock_device b c locked \<and> mbox_reg c MBOX_LOCK \<notin> error_regs c \<and>
     (\<forall>a h. cmd_of (snd (bus_read b a h)) = cmd_of h) \<and>
     (\<forall>a v h. cmd_of (bus_write b a v h) = (if a = mbox_reg c MBOX_CMD then v else cmd_of h)) \<and>
     (\<forall>h. shows_answer (answer (cmd_of h)) (fst (bus_read b (mbox_reg c MBOX_STATUS) h))) \<and>
     (\<forall>h. answer (cmd_of h) = Hangs \<longleftrightarrow>
        (\<forall>n < 400000. busy (polled b (mbox_reg c MBOX_STATUS) n h)))"

lemma mailbox_device_laws:
  assumes "mailbox_device b c locked cmd_of answer"
  shows "lock_device b c locked"
    and "cmd_of (snd (bus_read b a h)) = cmd_of h"
    and "cmd_of (bus_write b a v h) = (if a = mbox_reg c MBOX_CMD then v else cmd_of h)"
    and "shows_answer (answer (cmd_of h)) (fst (bus_read b (mbox_reg c MBOX_STATUS) h))"
    and "answer (cmd_of h) = Hangs \<longleftrightarrow> (\<forall>n < 400000. busy (polled b (mbox_reg c MBOX_STATUS) n h))"
    and "mbox_reg c MBOX_LOCK \<notin> error_regs c"
  using assms unfolding mailbox_device_def by blast+

lemma lock_device_laws:
  assumes "lock_device b c locked"
  shows "fst (bus_read b (mbox_reg c MBOX_LOCK) h) AND 1 \<noteq> 0 \<longleftrightarrow> locked h"
    and "locked (snd (bus_read b (mbox_reg c MBOX_LOCK) h))"
    and "a \<noteq> mbox_reg c MBOX_LOCK \<Longrightarrow> locked (snd (bus_read b a h)) = locked h"
    and "locked (bus_write b a v h) \<longleftrightarrow> locked h \<and> \<not> (a = mbox_reg c MBOX_EXECUTE \<and> v AND 1 = 0)"
  using assms unfolding lock_device_def by blast+

text \<open>The command a run leaves is the last one it wrote.\<close>

lemma cmd_run:
  assumes "mailbox_device b c locked cmd_of answer" "bus_run b h es h'"
  shows "cmd_of h' = (case rev (written_to (mbox_reg c MBOX_CMD) es) of [] \<Rightarrow> cmd_of h | v # vs \<Rightarrow> v)"
  using assms(2)
proof (induction rule: bus_run.induct)
  case (run_rd a h v h1 es h2)
  then show ?case
    using mailbox_device_laws(2) [OF assms(1), of a h] by (simp split: list.splits)
next
  case (run_wr a v h es h2)
  then show ?case
    using mailbox_device_laws(3) [OF assms(1), of a v h]
    by (cases "rev (written_to (mbox_reg c MBOX_CMD) es)") (auto split: if_splits)
qed simp

section \<open>The stages of a request\<close>

text \<open>A legal request on a free mailbox is started, takes the lock and writes its command.\<close>

lemma service_start:
  assumes dev: "mailbox_device b c locked cmd_of answer" and "request_legal req" "\<not> locked (hw s)"
  shows "fst (started b c cmd req s) = Ok ()"
    and "locked (hw (snd (started b c cmd req s)))" and "cmd_of (hw (snd (started b c cmd req s))) = cmd"
proof -
  note lock = lock_device_laws [OF mailbox_device_laws(1) [OF dev]]
  have len: "byte_len req \<le> MAILBOX_SIZE" using assms(2) by (simp add: request_legal_def)
  have "fst (lock_reads b c s) AND 1 = 0" "snd (lock_reads b c s) AND 1 \<noteq> 0"
    using lock(1) [of "hw s"] lock(1) [of "snd (bus_read b (mbox_reg c MBOX_LOCK) (hw s))"]
      lock(2) assms(3) by (simp_all add: lock_reads_def)
  note taken = start_taken [OF len this, of cmd "stamped cmd req"]
  show ok: "fst (started b c cmd req s) = Ok ()" using taken by (simp add: started_def)
  obtain es where es: "moved b s es (snd (started b c cmd req s))"
    using confined_goes [OF start_confined [of b c "stamped cmd req" cmd "byte_len req"], of s]
    by (auto simp: goes_def started_def)
  with taken have run: "bus_run b (hw s) es (hw (snd (started b c cmd req s)))"
    and tr: "es = [Rd (mbox_reg c MBOX_LOCK) (fst (lock_reads b c s)),
      Rd (mbox_reg c MBOX_LOCK) (snd (lock_reads b c s))] @ request_writes c cmd (byte_len req) (stamped cmd req)"
    by (simp_all add: moved_def started_def)
  have "no_release c es" "written_to (mbox_reg c MBOX_CMD) es = [cmd]"
    unfolding tr no_release_def by (simp_all add: request_written)
  moreover have "Rd (mbox_reg c MBOX_LOCK) (fst (lock_reads b c s)) \<in> set es" by (simp add: tr)
  ultimately show "locked (hw (snd (started b c cmd req s)))" "cmd_of (hw (snd (started b c cmd req s))) = cmd"
    using locked_run [OF mailbox_device_laws(1) [OF dev] run] cmd_run [OF dev run] by (blast, simp)
qed

text \<open>The polls of the status change nothing the service knows of.\<close>

lemma service_wait:
  assumes dev: "mailbox_device b c locked cmd_of answer"
  shows "fst (run_state (wait_not_busy b c MAX_WAIT_CYCLES) s) =
      (if answer (cmd_of (hw s)) = Hangs then Err MBOX_TIMEOUT else Ok ())"
    and "cmd_of (hw (snd (run_state (wait_not_busy b c MAX_WAIT_CYCLES) s))) = cmd_of (hw s)"
    and "locked (hw (snd (run_state (wait_not_busy b c MAX_WAIT_CYCLES) s))) = locked (hw s)"
proof -
  show "fst (run_state (wait_not_busy b c MAX_WAIT_CYCLES) s) =
      (if answer (cmd_of (hw s)) = Hangs then Err MBOX_TIMEOUT else Ok ())"
    unfolding mailbox_device_laws(5) [OF dev] by (auto simp: cmd_poll.wait_result MAX_WAIT_budget)
  note conf = cmd_poll.wait_confined [of c "{mbox_reg c MBOX_STATUS}" b "{}" MAX_WAIT_CYCLES]
  have apart: "mbox_reg c MBOX_STATUS \<noteq> mbox_reg c MBOX_LOCK" by (simp add: reg_offsets)
  show "cmd_of (hw (snd (run_state (wait_not_busy b c MAX_WAIT_CYCLES) s))) = cmd_of (hw s)"
    by (rule confined_keeps [OF conf]) (simp_all add: mailbox_device_laws(2) [OF dev])
  show "locked (hw (snd (run_state (wait_not_busy b c MAX_WAIT_CYCLES) s))) = locked (hw s)"
    by (rule confined_keeps [OF conf])
      (use lock_device_laws(3) [OF mailbox_device_laws(1) [OF dev]] apart in simp_all)
qed

text \<open>What is read and written once the command is done, and what it leaves of the lock.\<close>

lemma classify_answer:
  assumes dev: "mailbox_device b c locked cmd_of answer" and "locked (hw s)"
    and "answer (cmd_of (hw s)) \<noteq> Hangs"
  shows "case answer (cmd_of (hw s)) of
      Fails \<Rightarrow> fst (run_state (classify b c) s) = Err MBOX_CMD_FAILED \<and>
        \<not> locked (hw (snd (run_state (classify b c) s)))
    | Completes \<Rightarrow> fst (run_state (classify b c) s) = Ok None \<and>
        \<not> locked (hw (snd (run_state (classify b c) s)))
    | Silent \<Rightarrow> fst (run_state (classify b c) s) = Err MBOX_INVALID_RESPONSE \<and>
        locked (hw (snd (run_state (classify b c) s)))
    | _ \<Rightarrow> \<exists>r. fst (run_state (classify b c) s) = Ok (Some r)"
proof -
  note lock = lock_device_laws [OF mailbox_device_laws(1) [OF dev]]
  have status: "mbox_reg c MBOX_STATUS \<noteq> mbox_reg c MBOX_LOCK" by (simp add: reg_offsets)
  have errors: "soc_ifc_addr c + SOC_IFC_CPTRA_FW_ERROR_FATAL \<noteq> mbox_reg c MBOX_LOCK"
    "soc_ifc_addr c + SOC_IFC_CPTRA_FW_ERROR_NON_FATAL \<noteq> mbox_reg c MBOX_LOCK"
    using mailbox_device_laws(6) [OF dev] unfolding error_regs_def by force+
  note read = lock(3) [OF status] errors [THEN lock(3)]
  show ?thesis
    using mailbox_device_laws(4) [OF dev, of "hw s"] assms(2,3) read lock(4)
    by (cases "answer (cmd_of (hw s))")
      (simp_all add: classify_def io_defs run_mmio shows_answer_def data_ready_def)
qed

section \<open>A request is served\<close>

text \<open>The completion of a started request, up to the read of the final status.\<close>

lemma service_finish:
  assumes dev: "mailbox_device b c locked cmd_of answer" and "request_legal req" "\<not> locked (hw s)"
    and rl: "byte_len resp \<ge> RESP_HEADER_SIZE"
  obtains s2 where "locked (hw s2)" "cmd_of (hw s2) = cmd"
    and "finished b c cmd req resp s =
      (if answer cmd = Hangs then (Err MBOX_TIMEOUT, s2) else run_state (classify b c) s2)"
proof
  let ?s1 = "snd (started b c cmd req s)"
  let ?s2 = "snd (run_state (wait_not_busy b c MAX_WAIT_CYCLES) ?s1)"
  note start = service_start [OF dev assms(2,3), of cmd] and wait = service_wait [OF dev, of ?s1]
  show "locked (hw ?s2)" "cmd_of (hw ?s2) = cmd" using start(2,3) wait(2,3) by simp_all
  show "finished b c cmd req resp s =
      (if answer cmd = Hangs then (Err MBOX_TIMEOUT, ?s2) else run_state (classify b c) ?s2)"
    using start(3) wait(1) by (simp add: finished_def finish_split [OF rl rl])
qed

lemma exec_served_free:
  assumes dev: "mailbox_device b c locked cmd_of answer" and free: "request_legal req" "\<not> locked (hw s)"
    and rl: "byte_len resp \<ge> RESP_HEADER_SIZE"
  shows "(fst (fst (run_state (exec_mailbox_req_u32 b c cmd req resp) s)),
      locked (hw (snd (run_state (exec_mailbox_req_u32 b c cmd req resp) s)))) =
    serve answer (cmd, req, resp) False"
    (is "(fst (fst ?run), locked (hw (snd ?run))) = _")
proof -
  have len: "byte_len req \<ge> REQ_HEADER_SIZE" using free(1) by (simp add: request_legal_def)
  obtain s1 where st: "started b c cmd req s = (Ok (), s1)"
    using service_start(1) [OF dev free] by (metis prod.collapse)
  obtain s2 where s2: "locked (hw s2)" "cmd_of (hw s2) = cmd" and fin: "finished b c cmd req resp s =
      (if answer cmd = Hangs then (Err MBOX_TIMEOUT, s2) else run_state (classify b c) s2)"
    by (rule service_finish [OF dev free rl])
  note ans = classify_answer [OF dev s2(1), unfolded s2(2)]
  have served: "serve answer (cmd, req, resp) False = (case answer cmd of
         Fails \<Rightarrow> (Err MBOX_CMD_FAILED, False) | Completes \<Rightarrow> (Err MBOX_INVALID_RESPONSE, False)
       | HasData \<Rightarrow> (Ok (), True) | Silent \<Rightarrow> (Err MBOX_INVALID_RESPONSE, True)
       | Hangs \<Rightarrow> (Err MBOX_TIMEOUT, True))"
    using free(1) rl by (simp add: serve_def not_less [symmetric])
  show ?thesis
  proof (cases "answer cmd = HasData")
    case True
    then obtain r s3 where "finished b c cmd req resp s = (Ok (Some r), s3)"
      using ans fin by (auto simp: prod_eq_iff)
    then have "fst (fst ?run) = Ok ()" by (simp add: exec_run [OF len] st split: prod.splits)
    with exec_takes [OF mailbox_device_laws(1) [OF dev], of cmd req resp s] True show ?thesis
      by (simp add: served)
  next
    case False
    then show ?thesis
      using ans s2(1) unfolding served exec_run [OF len] st
      by (cases "answer cmd"; cases "run_state (classify b c) s2") (simp_all add: fin)
  qed
qed

lemma exec_served:
  assumes dev: "mailbox_device b c locked cmd_of answer"
  shows "(fst (fst (run_state (exec_mailbox_req_u32 b c cmd req resp) s)),
      locked (hw (snd (run_state (exec_mailbox_req_u32 b c cmd req resp) s)))) =
    serve answer (cmd, req, resp) (locked (hw s))"
proof -
  note lockdev = mailbox_device_laws(1) [OF dev]
  consider (short) "byte_len req < REQ_HEADER_SIZE"
    | (long) "byte_len req \<ge> REQ_HEADER_SIZE" "byte_len req > MAILBOX_SIZE"
    | (taken) "request_legal req" "locked (hw s)"
    | (no_room) "request_legal req" "\<not> locked (hw s)" "byte_len resp < RESP_HEADER_SIZE"
    | (free) "request_legal req" "\<not> locked (hw s)" "byte_len resp \<ge> RESP_HEADER_SIZE"
    unfolding request_legal_def by (metis not_le)
  then show ?thesis
  proof cases
    case taken
    then show ?thesis
      using locked_refuses [OF lockdev taken(2,1)] locked_keeps [OF lockdev taken(2)]
      by (simp add: serve_def)
  next
    case no_room
    then have len: "byte_len req \<ge> REQ_HEADER_SIZE" by (simp add: request_legal_def)
    obtain s1 where st: "started b c cmd req s = (Ok (), s1)"
      using service_start(1) [OF dev no_room(1,2)] by (metis prod.collapse)
    with service_start(2) [OF dev no_room(1,2), of cmd] no_room show ?thesis
      by (simp add: serve_def exec_run [OF len] finished_def finish_short)
  next
    case free
    with exec_served_free [OF dev free, of cmd] show ?thesis by simp
  next
    case short
    then have "\<not> request_legal req" by (simp add: request_legal_def not_le)
    then show ?thesis using short by (simp add: serve_def exec_too_short)
  next
    case long
    then have "\<not> request_legal req" by (simp add: request_legal_def not_le)
    then show ?thesis using long by (simp add: serve_def exec_run started_def start_too_long)
  qed
qed

lemma send_served:
  assumes dev: "mailbox_device b c locked cmd_of answer"
  shows "(fst (run_state (send_all b c qs) s), locked (hw (snd (run_state (send_all b c qs) s)))) =
    serve_all answer qs (locked (hw s))"
proof (induction qs arbitrary: s)
  case (Cons q qs)
  obtain cmd req resp where q: "q = (cmd, req, resp)" by (cases q)
  from exec_served [OF dev, of cmd req resp s]
    Cons.IH [of "snd (run_state (exec_mailbox_req_u32 b c cmd req resp) s)"]
  show ?case
    by (simp add: q run_send_Cons case_prod_beta Let_def prod_eq_iff del: send_all.simps(2))
qed simp

section \<open>A mailbox to run on\<close>

text \<open>
  Its answer to a command is the command modulo 5; after EXECUTE is set it is busy for two
  polls, and a command that hangs keeps it busy.
\<close>

record sample_mailbox =
  sample_locked :: bool
  sample_cmd :: u32
  sample_busy :: nat

definition sample_answer :: "u32 \<Rightarrow> mailbox_answer" where
  "sample_answer cmd = [HasData, Fails, Completes, Silent, Hangs] ! (unat cmd mod 5)"

definition sample_status :: "mailbox_answer \<Rightarrow> u32" where
  "sample_status a = (case a of Fails \<Rightarrow> 2 | Completes \<Rightarrow> 4 | HasData \<Rightarrow> 8 | Silent \<Rightarrow> 0 | Hangs \<Rightarrow> 1)"

definition sample_bus :: "sample_mailbox bus" where
  "sample_bus =
     \<lparr>bus_read = \<lambda>a h.
        if a = 0x30020000 then (if sample_locked h then 1 else 0, h\<lparr>sample_locked := True\<rparr>)
        else if a = 0x30020014 then
          (sample_status (sample_answer (sample_cmd h)) OR (if sample_busy h mod 3 = 0 then 0 else 1),
           h\<lparr>sample_busy := sample_busy h - 1\<rparr>)
        else (0, h),
      bus_write = \<lambda>a v h.
        if a = 0x30020018 then
          h\<lparr>sample_locked := sample_locked h \<and> v AND 1 \<noteq> 0, sample_busy := 2\<rparr>
        else if a = 0x30020004 then h\<lparr>sample_cmd := v\<rparr>
        else h,
      bus_csr = \<lambda>_ h. (0, h)\<rparr>"

lemma sample_poll:
  "sample_cmd (snd (bus_read sample_bus a h)) = sample_cmd h"
  "fst (bus_read sample_bus 0x30020014 h) AND 1 = 0 \<longleftrightarrow>
     sample_answer (sample_cmd h) \<noteq> Hangs \<and> sample_busy h mod 3 = 0"
  "sample_busy (snd (bus_read sample_bus 0x30020014 h)) = sample_busy h - 1"
  by (auto simp: sample_bus_def sample_status_def split: mailbox_answer.splits)

lemma sample_polled:
  "polled sample_bus 0x30020014 n h AND 1 = 0 \<longleftrightarrow>
     sample_answer (sample_cmd h) \<noteq> Hangs \<and> (sample_busy h - n) mod 3 = 0"
  by (induction n arbitrary: h) (simp_all add: sample_poll del: and_one_eq)

lemma sample_ready: "sample_answer (sample_cmd h) = Hangs \<longleftrightarrow>
    (\<forall>n < 400000. polled sample_bus 0x30020014 n h AND 1 \<noteq> 0)"
proof -
  let ?n = "sample_busy h mod 3"
  have "?n < 400000" by (rule less_trans [of _ 3]) simp_all
  moreover have "(sample_busy h - ?n) mod 3 = 0" by (simp add: minus_mod_eq_mult_div)
  then have "polled sample_bus 0x30020014 ?n h AND 1 = 0 \<longleftrightarrow> sample_answer (sample_cmd h) \<noteq> Hangs"
    unfolding sample_polled by simp
  ultimately show ?thesis using sample_polled [of _ h] by metis
qed

lemma sample_shows: "shows_answer (sample_answer (sample_cmd h)) (fst (bus_read sample_bus 0x30020014 h))"
  by (auto simp: sample_bus_def sample_status_def shows_answer_def data_ready_def reg_offsets
      split: mailbox_answer.splits)

lemma sample_device: "mailbox_device sample_bus default_soc sample_locked sample_cmd sample_answer"
  using sample_ready sample_shows
  by (simp add: mailbox_device_def lock_device_def error_regs_def new_caliptra_soc_def value_or_def
      reg_offsets sample_poll(1) del: and_one_eq) (simp add: sample_bus_def)

definition sample_fresh :: sample_mailbox where
  "sample_fresh = \<lparr>sample_locked = False, sample_cmd = 0, sample_busy = 0\<rparr>"

section \<open>Properties\<close>

text \<open>
  C12. On a mailbox with a lock that answers every command in its own way, or hangs on it,
  any sequence of requests has the results of the service and leaves the lock as it does:
  a request is refused while the lock is taken; a failed command and one that completed
  without data give the lock back, both as errors of the call; every other command keeps
  it for good, answered or not, and so does a response buffer too short to take a header.
\<close>

theorem mailbox_refines_service:
  assumes "mailbox_device b c locked cmd_of answer"
  shows "(fst (run_state (send_all b c qs) s), locked (hw (snd (run_state (send_all b c qs) s)))) =
    serve_all answer qs (locked (hw s))"
  by (rule send_served [OF assms])

theorem mailbox_refines_service_witness:
  "fst (run_state (send_all sample_bus default_soc
     [(1, [0], [0, 0]), (2, [0, 9], [0, 0]), (5, [0], [0, 0]), (1, [0], [0, 0])]) (start_mach sample_fresh)) =
   [Err MBOX_CMD_FAILED, Err MBOX_INVALID_RESPONSE, Ok (), Err MBOX_LOCK_FAILED]"
proof -
  have "serve_all sample_answer
      [(1, [0], [0, 0]), (2, [0, 9], [0, 0]), (5, [0], [0, 0]), (1, [0], [0, 0])] False =
    ([Err MBOX_CMD_FAILED, Err MBOX_INVALID_RESPONSE, Ok (), Err MBOX_LOCK_FAILED], True)"
    by code_simp
  then show ?thesis
    using mailbox_refines_service [OF sample_device,
        of "[(1, [0], [0, 0]), (2, [0, 9], [0, 0]), (5, [0], [0, 0]), (1, [0], [0, 0])]"
           "start_mach sample_fresh"]
    by (simp add: sample_fresh_def del: send_all.simps serve_all.simps)
qed

end
