(* ===== verification/Otp.thy ===== *)
theory Otp
  imports Access
begin

text \<open>
  The OTP controller driver, \<^verbatim>\<open>src/rom/include/rom/otp.hpp\<close> and
  \<^verbatim>\<open>src/rom/src/otp.cpp\<close>. A \<^verbatim>\<open>std::span\<close> is a list; a
  function that fills one returns it.
\<close>

section \<open>Data\<close>

datatype otp_partition =
    CreatorSwCfg | OwnerSwCfg | RotCreatorAuthCodesign | RotCreatorAuthState | HwCfg0 | HwCfg1
  | Secret0 | Secret1 | Secret2 | LifeCycle

datatype otp_error =
    OtpNone | MacroError | MacroEccCorrectable | MacroEccUncorrectable | MacroWriteBlank
  | CheckTimeout | CheckLocked | AccessError

record otp =
  otp_base :: uintptr

definition OTP_REG_STATUS :: usize where [reg_offsets]: "OTP_REG_STATUS = 0x00"

definition OTP_REG_ERR_CODE :: usize where [reg_offsets]: "OTP_REG_ERR_CODE = 0x04"

definition OTP_REG_DIRECT_ACCESS_CMD :: usize where [reg_offsets]: "OTP_REG_DIRECT_ACCESS_CMD = 0x08"

definition OTP_REG_DIRECT_ACCESS_ADDR :: usize where [reg_offsets]: "OTP_REG_DIRECT_ACCESS_ADDR = 0x0C"

definition OTP_REG_DIRECT_ACCESS_WDATA_0 :: usize where [reg_offsets]:
  "OTP_REG_DIRECT_ACCESS_WDATA_0 = 0x10"

definition OTP_REG_DIRECT_ACCESS_RDATA_0 :: usize where [reg_offsets]:
  "OTP_REG_DIRECT_ACCESS_RDATA_0 = 0x18"

definition OTP_CMD_READ :: u32 where [reg_offsets]: "OTP_CMD_READ = 0x01"

definition OTP_CMD_WRITE :: u32 where [reg_offsets]: "OTP_CMD_WRITE = 0x02"

definition OTP_CMD_DIGEST :: u32 where [reg_offsets]: "OTP_CMD_DIGEST = 0x04"

text \<open>Registers the driver declares and does not use.\<close>

definition OTP_REG_DIRECT_ACCESS_WDATA_1 :: usize where [reg_offsets]: "OTP_REG_DIRECT_ACCESS_WDATA_1 = 0x14"

definition OTP_REG_DIRECT_ACCESS_RDATA_1 :: usize where [reg_offsets]: "OTP_REG_DIRECT_ACCESS_RDATA_1 = 0x1C"

definition OTP_REG_CHECK_TRIGGER :: usize where [reg_offsets]: "OTP_REG_CHECK_TRIGGER = 0x20"

definition OTP_REG_CHECK_PENDING :: usize where [reg_offsets]: "OTP_REG_CHECK_PENDING = 0x24"

definition OTP_REG_INTEGRITY_CHECK :: usize where [reg_offsets]: "OTP_REG_INTEGRITY_CHECK = 0x28"

definition OTP_REG_CONSISTENCY_CHECK :: usize where [reg_offsets]: "OTP_REG_CONSISTENCY_CHECK = 0x2C"

definition OTP_STATUS_IDLE :: u32 where [reg_offsets]: "OTP_STATUS_IDLE = 0x01"

definition OTP_STATUS_ERROR :: u32 where [reg_offsets]: "OTP_STATUS_ERROR = 0x02"

text \<open>The default argument of \<^verbatim>\<open>wait_for_idle\<close>.\<close>

definition OTP_TIMEOUT_CYCLES :: u32 where [reg_offsets]: "OTP_TIMEOUT_CYCLES = 10000"

section \<open>Registers\<close>

definition otp_read_reg :: "'h bus \<Rightarrow> otp \<Rightarrow> usize \<Rightarrow> ('h, u32) io" where [io_defs]:
  "otp_read_reg b p offset = mmio_read b (otp_base p + offset)"

definition otp_write_reg :: "'h bus \<Rightarrow> otp \<Rightarrow> usize \<Rightarrow> u32 \<Rightarrow> ('h, unit) io" where [io_defs]:
  "otp_write_reg b p offset v = mmio_write b (otp_base p + offset) v"

definition otp_modify_reg :: "'h bus \<Rightarrow> otp \<Rightarrow> usize \<Rightarrow> u32 \<Rightarrow> u32 \<Rightarrow> ('h, unit) io" where [io_defs]:
  "otp_modify_reg b p offset msk v = do {
     current \<leftarrow> otp_read_reg b p offset;
     otp_write_reg b p offset ((current AND NOT msk) OR (v AND msk)) }"

interpretation otp_regs: modifiable_block b "otp_base p" "otp_read_reg b p" "otp_write_reg b p"
  "otp_modify_reg b p" for b p
  by unfold_locales (simp_all add: io_defs Let_def)

section \<open>Operations\<close>

definition new_otp :: "uintptr \<Rightarrow> otp" where
  "new_otp base_addr = \<lparr>otp_base = base_addr\<rparr>"

definition otp_is_idle :: "'h bus \<Rightarrow> otp \<Rightarrow> ('h, bool) io" where
  "otp_is_idle b p = do {
     w \<leftarrow> otp_read_reg b p OTP_REG_STATUS;
     return (w AND OTP_STATUS_IDLE \<noteq> 0) }"

definition otp_has_error :: "'h bus \<Rightarrow> otp \<Rightarrow> ('h, bool) io" where
  "otp_has_error b p = do {
     w \<leftarrow> otp_read_reg b p OTP_REG_STATUS;
     return (w AND OTP_STATUS_ERROR \<noteq> 0) }"

definition otp_error_of :: "u32 \<Rightarrow> otp_error" where
  "otp_error_of w =
     (let err_code = w AND 0x07 in
      if err_code = 0 then OtpNone
      else if err_code = 1 then MacroError
      else if err_code = 2 then MacroEccCorrectable
      else if err_code = 3 then MacroEccUncorrectable
      else if err_code = 4 then MacroWriteBlank
      else if err_code = 5 then CheckTimeout
      else if err_code = 6 then CheckLocked
      else if err_code = 7 then AccessError
      else MacroError)"

definition otp_error_status :: "'h bus \<Rightarrow> otp \<Rightarrow> ('h, otp_error) io" where
  "otp_error_status b p = do {
     e \<leftarrow> otp_has_error b p;
     if \<not> e then return OtpNone
     else do {
       w \<leftarrow> otp_read_reg b p OTP_REG_ERR_CODE;
       return (otp_error_of w) } }"

text \<open>The wait loop, on its counter.\<close>

function otp_wait_for_idle :: "'h bus \<Rightarrow> otp \<Rightarrow> u32 \<Rightarrow> ('h, unit result) io" where
  "otp_wait_for_idle b p timeout_cycles = do {
     idle \<leftarrow> otp_is_idle b p;
     if \<not> idle then
       (if timeout_cycles - 1 = 0 then return (Err TIMEOUT)
        else otp_wait_for_idle b p (timeout_cycles - 1))
     else return (Ok ()) }"
  by pat_completeness auto
termination
  by (relation "measure (\<lambda>(b, p, t). poll_budget t)") (simp_all add: countdown_measure)

declare otp_wait_for_idle.simps [simp del]

definition otp_init :: "'h bus \<Rightarrow> otp \<Rightarrow> ('h, unit result) io" where
  "otp_init b p = otp_wait_for_idle b p OTP_TIMEOUT_CYCLES"

definition otp_read_word :: "'h bus \<Rightarrow> otp \<Rightarrow> u32 \<Rightarrow> ('h, u32 result) io" where
  "otp_read_word b p addr =
     or_return (otp_wait_for_idle b p OTP_TIMEOUT_CYCLES) (\<lambda>_. do {
       otp_write_reg b p OTP_REG_DIRECT_ACCESS_ADDR addr;
       otp_write_reg b p OTP_REG_DIRECT_ACCESS_CMD OTP_CMD_READ;
       or_return (otp_wait_for_idle b p OTP_TIMEOUT_CYCLES) (\<lambda>_. do {
         e \<leftarrow> otp_has_error b p;
         if e then return (Err OTP_READ_ERROR)
         else do {
           v \<leftarrow> otp_read_reg b p OTP_REG_DIRECT_ACCESS_RDATA_0;
           return (Ok v) } }) })"

text \<open>
  \<open>otp_read_words_from b p addr i n buffer\<close> is the loop at index \<open>i\<close> with \<open>n\<close>
  iterations to go; the words read before a failure stay in the buffer.
\<close>

fun otp_read_words_from ::
    "'h bus \<Rightarrow> otp \<Rightarrow> u32 \<Rightarrow> nat \<Rightarrow> nat \<Rightarrow> u32 list \<Rightarrow> ('h, unit result \<times> u32 list) io" where
  "otp_read_words_from b p addr i 0 buffer = return (Ok (), buffer)"
| "otp_read_words_from b p addr i (Suc n) buffer = do {
     r \<leftarrow> otp_read_word b p (addr + of_nat i * 4);
     case r of
       Inl e \<Rightarrow> return (Err e, buffer)
     | Inr v \<Rightarrow> otp_read_words_from b p addr (Suc i) n (buffer[i := v]) }"

definition otp_read_words :: "'h bus \<Rightarrow> otp \<Rightarrow> u32 \<Rightarrow> u32 list \<Rightarrow> ('h, unit result \<times> u32 list) io" where
  "otp_read_words b p addr buffer = otp_read_words_from b p addr 0 (length buffer) buffer"

definition otp_write_word :: "'h bus \<Rightarrow> otp \<Rightarrow> u32 \<Rightarrow> u32 \<Rightarrow> ('h, unit result) io" where
  "otp_write_word b p addr v =
     or_return (otp_wait_for_idle b p OTP_TIMEOUT_CYCLES) (\<lambda>_. do {
       otp_write_reg b p OTP_REG_DIRECT_ACCESS_ADDR addr;
       otp_write_reg b p OTP_REG_DIRECT_ACCESS_WDATA_0 v;
       otp_write_reg b p OTP_REG_DIRECT_ACCESS_CMD OTP_CMD_WRITE;
       or_return (otp_wait_for_idle b p OTP_TIMEOUT_CYCLES) (\<lambda>_. do {
         e \<leftarrow> otp_has_error b p;
         return (if e then Err OTP_WRITE_ERROR else Ok ()) }) })"

fun otp_write_words_from :: "'h bus \<Rightarrow> otp \<Rightarrow> u32 \<Rightarrow> nat \<Rightarrow> u32 list \<Rightarrow> ('h, unit result) io" where
  "otp_write_words_from b p addr i [] = return (Ok ())"
| "otp_write_words_from b p addr i (d # ds) =
     or_return (otp_write_word b p (addr + of_nat i * 4) d)
       (\<lambda>_. otp_write_words_from b p addr (Suc i) ds)"

definition otp_write_words :: "'h bus \<Rightarrow> otp \<Rightarrow> u32 \<Rightarrow> u32 list \<Rightarrow> ('h, unit result) io" where
  "otp_write_words b p addr data = otp_write_words_from b p addr 0 data"

definition otp_lock_partition :: "'h bus \<Rightarrow> otp \<Rightarrow> otp_partition \<Rightarrow> ('h, unit result) io" where
  "otp_lock_partition b p part = do {
     otp_write_reg b p OTP_REG_DIRECT_ACCESS_CMD OTP_CMD_DIGEST;
     otp_wait_for_idle b p OTP_TIMEOUT_CYCLES }"

definition otp_is_partition_locked :: "otp \<Rightarrow> otp_partition \<Rightarrow> bool" where
  "otp_is_partition_locked p part = False"

definition otp_partition_size :: "otp \<Rightarrow> otp_partition \<Rightarrow> usize" where
  "otp_partition_size p part = (case part of
     CreatorSwCfg \<Rightarrow> 1024 | OwnerSwCfg \<Rightarrow> 1024
   | HwCfg0 \<Rightarrow> 256 | HwCfg1 \<Rightarrow> 256
   | Secret0 \<Rightarrow> 512 | Secret1 \<Rightarrow> 512 | Secret2 \<Rightarrow> 512
   | LifeCycle \<Rightarrow> 128
   | _ \<Rightarrow> 0)"

definition otp_clear_error :: "'h bus \<Rightarrow> otp \<Rightarrow> ('h, unit) io" where
  "otp_clear_error b p = otp_write_reg b p OTP_REG_ERR_CODE 0"

section \<open>Waiting\<close>

abbreviation otp_reg :: "otp \<Rightarrow> usize \<Rightarrow> u32" where
  "otp_reg p off \<equiv> otp_base p + off"

interpretation otp_poll: status_poll b "otp_reg p OTP_REG_STATUS"
    "\<lambda>v. v AND OTP_STATUS_IDLE \<noteq> 0" TIMEOUT "otp_wait_for_idle b p" "\<lambda>s. s" "\<lambda>s. s"
  for b p
proof
  fix t s
  show "run_state (otp_wait_for_idle b p t) s =
      (let v = fst (run_state (mmio_read b (otp_reg p OTP_REG_STATUS)) s);
           s1 = snd (run_state (mmio_read b (otp_reg p OTP_REG_STATUS)) s)
       in if v AND OTP_STATUS_IDLE \<noteq> 0 then (Ok (), s1)
          else if t - 1 = 0 then (Err TIMEOUT, s1)
          else run_state (otp_wait_for_idle b p (t - 1)) s1)"
    by (subst otp_wait_for_idle.simps) (simp add: otp_is_idle_def io_defs Let_def)
qed simp_all

lemma otp_timeout_budget: "poll_budget OTP_TIMEOUT_CYCLES = 10000"
  by (simp add: poll_budget_def reg_offsets)

abbreviation otp_wait :: "'h bus \<Rightarrow> otp \<Rightarrow> ('h, unit result) io" where
  "otp_wait b p \<equiv> otp_wait_for_idle b p OTP_TIMEOUT_CYCLES"

abbreviation idle :: "u32 \<Rightarrow> bool" where
  "idle v \<equiv> v AND OTP_STATUS_IDLE \<noteq> 0"

text \<open>
  \<open>idle_wait p r es\<close>: the accesses of one wait and its result. Every status but the last
  is busy, the last decides, and there are at most 10000 of them.
\<close>

definition idle_wait :: "otp \<Rightarrow> unit result \<Rightarrow> event list \<Rightarrow> bool" where
  "idle_wait p r es \<longleftrightarrow> (\<exists>vs. es = map (Rd (otp_reg p OTP_REG_STATUS)) vs \<and> vs \<noteq> [] \<and>
     length vs \<le> 10000 \<and> (\<forall>v \<in> set (butlast vs). \<not> idle v) \<and>
     (if idle (last vs) then r = Ok () else r = Err TIMEOUT \<and> length vs = 10000))"

lemma otp_wait_trace:
  "\<exists>es. trace (snd (run_state (otp_wait b p) s)) = trace s @ es \<and>
     idle_wait p (fst (run_state (otp_wait b p) s)) es"
proof -
  obtain vs where "trace (snd (run_state (otp_wait b p) s)) = trace s @ map (Rd (otp_reg p OTP_REG_STATUS)) vs"
    and "otp_poll.run_of OTP_TIMEOUT_CYCLES (fst (run_state (otp_wait b p) s)) vs"
    using otp_poll.wait_trace by blast
  then show ?thesis
    by (intro exI [of _ "map (Rd (otp_reg p OTP_REG_STATUS)) vs"])
      (auto simp: idle_wait_def otp_poll.run_of_def otp_timeout_budget intro!: exI [of _ vs])
qed

lemma idle_wait_writes: "idle_wait p r es \<Longrightarrow> writes es = []"
  by (auto simp: idle_wait_def)

lemma idle_wait_result: "idle_wait p r es \<Longrightarrow> r = Ok () \<or> r = Err TIMEOUT"
  by (auto simp: idle_wait_def split: if_splits)

section \<open>The protocol of one access\<close>

text \<open>Every way one word access can go, with its register accesses and its result.\<close>

inductive otp_read_run :: "otp \<Rightarrow> u32 \<Rightarrow> event list \<Rightarrow> u32 result \<Rightarrow> bool" for p addr where
  read_busy: "idle_wait p (Err TIMEOUT) es \<Longrightarrow> otp_read_run p addr es (Err TIMEOUT)"
| read_stuck: "idle_wait p (Ok ()) es \<Longrightarrow> idle_wait p (Err TIMEOUT) fs \<Longrightarrow>
    otp_read_run p addr (es @ Wr (otp_reg p OTP_REG_DIRECT_ACCESS_ADDR) addr #
      Wr (otp_reg p OTP_REG_DIRECT_ACCESS_CMD) OTP_CMD_READ # fs) (Err TIMEOUT)"
| read_failed: "idle_wait p (Ok ()) es \<Longrightarrow> idle_wait p (Ok ()) fs \<Longrightarrow> st AND OTP_STATUS_ERROR \<noteq> 0 \<Longrightarrow>
    otp_read_run p addr (es @ Wr (otp_reg p OTP_REG_DIRECT_ACCESS_ADDR) addr #
      Wr (otp_reg p OTP_REG_DIRECT_ACCESS_CMD) OTP_CMD_READ # fs @
      [Rd (otp_reg p OTP_REG_STATUS) st]) (Err OTP_READ_ERROR)"
| read_done: "idle_wait p (Ok ()) es \<Longrightarrow> idle_wait p (Ok ()) fs \<Longrightarrow> st AND OTP_STATUS_ERROR = 0 \<Longrightarrow>
    otp_read_run p addr (es @ Wr (otp_reg p OTP_REG_DIRECT_ACCESS_ADDR) addr #
      Wr (otp_reg p OTP_REG_DIRECT_ACCESS_CMD) OTP_CMD_READ # fs @
      [Rd (otp_reg p OTP_REG_STATUS) st, Rd (otp_reg p OTP_REG_DIRECT_ACCESS_RDATA_0) v]) (Ok v)"

inductive otp_write_run :: "otp \<Rightarrow> u32 \<Rightarrow> u32 \<Rightarrow> event list \<Rightarrow> unit result \<Rightarrow> bool" for p addr d where
  write_busy: "idle_wait p (Err TIMEOUT) es \<Longrightarrow> otp_write_run p addr d es (Err TIMEOUT)"
| write_stuck: "idle_wait p (Ok ()) es \<Longrightarrow> idle_wait p (Err TIMEOUT) fs \<Longrightarrow>
    otp_write_run p addr d (es @ Wr (otp_reg p OTP_REG_DIRECT_ACCESS_ADDR) addr #
      Wr (otp_reg p OTP_REG_DIRECT_ACCESS_WDATA_0) d #
      Wr (otp_reg p OTP_REG_DIRECT_ACCESS_CMD) OTP_CMD_WRITE # fs) (Err TIMEOUT)"
| write_end: "idle_wait p (Ok ()) es \<Longrightarrow> idle_wait p (Ok ()) fs \<Longrightarrow>
    r = (if st AND OTP_STATUS_ERROR \<noteq> 0 then Err OTP_WRITE_ERROR else Ok ()) \<Longrightarrow>
    otp_write_run p addr d (es @ Wr (otp_reg p OTP_REG_DIRECT_ACCESS_ADDR) addr #
      Wr (otp_reg p OTP_REG_DIRECT_ACCESS_WDATA_0) d #
      Wr (otp_reg p OTP_REG_DIRECT_ACCESS_CMD) OTP_CMD_WRITE # fs @
      [Rd (otp_reg p OTP_REG_STATUS) st]) r"

text \<open>The two waits of an access, seen from the state \<open>s\<close> of the first.\<close>

lemma otp_wait_cases:
  obtains (busy) es where "trace (snd (run_state (otp_wait b p) s)) = trace s @ es"
      "fst (run_state (otp_wait b p) s) = Err TIMEOUT" "idle_wait p (Err TIMEOUT) es"
    | (ready) es where "trace (snd (run_state (otp_wait b p) s)) = trace s @ es"
      "fst (run_state (otp_wait b p) s) = Ok ()" "idle_wait p (Ok ()) es"
  using otp_wait_trace [of b p s] idle_wait_result by metis

lemma otp_read_word_run:
  "\<exists>es. trace (snd (run_state (otp_read_word b p addr) s)) = trace s @ es \<and>
     otp_read_run p addr es (fst (run_state (otp_read_word b p addr) s))"
proof (cases rule: otp_wait_cases [of b p s])
  case (busy es)
  then show ?thesis by (auto simp: otp_read_word_def intro: otp_read_run.intros)
next
  case first: (ready es)
  define s1 where "s1 = snd (run_state (do {
    otp_write_reg b p OTP_REG_DIRECT_ACCESS_ADDR addr;
    otp_write_reg b p OTP_REG_DIRECT_ACCESS_CMD OTP_CMD_READ }) (snd (run_state (otp_wait b p) s)))"
  have tr1: "trace s1 = trace s @ es @ [Wr (otp_reg p OTP_REG_DIRECT_ACCESS_ADDR) addr,
      Wr (otp_reg p OTP_REG_DIRECT_ACCESS_CMD) OTP_CMD_READ]"
    using first by (simp add: s1_def io_defs run_mmio)
  have run: "run_state (otp_read_word b p addr) s =
      run_state (or_return (otp_wait b p) (\<lambda>_. do {
         e \<leftarrow> otp_has_error b p;
         if e then return (Err OTP_READ_ERROR)
         else do { v \<leftarrow> otp_read_reg b p OTP_REG_DIRECT_ACCESS_RDATA_0; return (Ok v) } })) s1"
    using first by (simp add: otp_read_word_def s1_def)
  show ?thesis
  proof (cases rule: otp_wait_cases [of b p s1])
    case (busy fs)
    then show ?thesis
      using first tr1 read_stuck by (auto simp: run)
  next
    case (ready fs)
    then show ?thesis
      using first tr1 by (auto simp: run otp_has_error_def io_defs run_mmio intro!: read_failed read_done)
  qed
qed

lemma otp_write_word_run:
  "\<exists>es. trace (snd (run_state (otp_write_word b p addr d) s)) = trace s @ es \<and>
     otp_write_run p addr d es (fst (run_state (otp_write_word b p addr d) s))"
proof (cases rule: otp_wait_cases [of b p s])
  case (busy es)
  then show ?thesis by (auto simp: otp_write_word_def intro: otp_write_run.intros)
next
  case first: (ready es)
  define s1 where "s1 = snd (run_state (do {
    otp_write_reg b p OTP_REG_DIRECT_ACCESS_ADDR addr;
    otp_write_reg b p OTP_REG_DIRECT_ACCESS_WDATA_0 d;
    otp_write_reg b p OTP_REG_DIRECT_ACCESS_CMD OTP_CMD_WRITE }) (snd (run_state (otp_wait b p) s)))"
  have tr1: "trace s1 = trace s @ es @ [Wr (otp_reg p OTP_REG_DIRECT_ACCESS_ADDR) addr,
      Wr (otp_reg p OTP_REG_DIRECT_ACCESS_WDATA_0) d,
      Wr (otp_reg p OTP_REG_DIRECT_ACCESS_CMD) OTP_CMD_WRITE]"
    using first by (simp add: s1_def io_defs run_mmio)
  have run: "run_state (otp_write_word b p addr d) s =
      run_state (or_return (otp_wait b p) (\<lambda>_. do {
         e \<leftarrow> otp_has_error b p;
         return (if e then Err OTP_WRITE_ERROR else Ok ()) })) s1"
    using first by (simp add: otp_write_word_def s1_def)
  show ?thesis
  proof (cases rule: otp_wait_cases [of b p s1])
    case (busy fs)
    then show ?thesis
      using first tr1 write_stuck by (auto simp: run)
  next
    case (ready fs)
    then show ?thesis
      using first tr1
      by (auto simp: run otp_has_error_def io_defs run_mmio intro!: write_end)
  qed
qed

section \<open>Runs of accesses\<close>

text \<open>
  \<open>otp_read_runs p addr i n es vs r\<close>: starting at index \<open>i\<close> with \<open>n\<close> words to go, the
  words \<open>vs\<close> were read one after the other and the run ended with \<open>r\<close>: the first failure
  ends it.
\<close>

inductive otp_read_runs :: "otp \<Rightarrow> u32 \<Rightarrow> nat \<Rightarrow> nat \<Rightarrow> event list \<Rightarrow> u32 list \<Rightarrow> unit result \<Rightarrow> bool"
  for p addr where
  runs_end: "otp_read_runs p addr i 0 [] [] (Ok ())"
| runs_fail: "otp_read_run p (addr + of_nat i * 4) es (Err e) \<Longrightarrow>
    otp_read_runs p addr i (Suc n) es [] (Err e)"
| runs_word: "otp_read_run p (addr + of_nat i * 4) es (Ok v) \<Longrightarrow>
    otp_read_runs p addr (Suc i) n fs vs r \<Longrightarrow>
    otp_read_runs p addr i (Suc n) (es @ fs) (v # vs) r"

lemma otp_read_runs_length:
  "otp_read_runs p addr i n es vs r \<Longrightarrow> length vs \<le> n \<and> (r = Ok () \<longleftrightarrow> length vs = n)"
  by (induction rule: otp_read_runs.induct) auto

lemma otp_read_words_from_run:
  assumes "i + n = length buf"
  shows "\<exists>es vs r. trace (snd (run_state (otp_read_words_from b p addr i n buf) s)) = trace s @ es \<and>
    otp_read_runs p addr i n es vs r \<and>
    fst (run_state (otp_read_words_from b p addr i n buf) s) =
      (r, take i buf @ vs @ drop (i + length vs) buf)"
  using assms
proof (induction n arbitrary: i buf s)
  case 0
  then show ?case
    using runs_end by (intro exI [of _ "[]"] exI [of _ "Ok ()"]) simp
next
  case (Suc n)
  obtain x s1 where w: "run_state (otp_read_word b p (addr + of_nat i * 4)) s = (x, s1)"
    by (cases "run_state (otp_read_word b p (addr + of_nat i * 4)) s")
  obtain es where es: "trace s1 = trace s @ es" "otp_read_run p (addr + of_nat i * 4) es x"
    using otp_read_word_run [of b p "addr + of_nat i * 4" s] w by auto
  show ?case
  proof (cases x)
    case (Inl e)
    then show ?thesis
      using es w runs_fail by (intro exI [of _ es] exI [of _ "[]"] exI [of _ "Err e"]) simp
  next
    case (Inr v)
    obtain fs vs r where "trace (snd (run_state (otp_read_words_from b p addr (Suc i) n (buf[i := v])) s1))
        = trace s1 @ fs" "otp_read_runs p addr (Suc i) n fs vs r"
      "fst (run_state (otp_read_words_from b p addr (Suc i) n (buf[i := v])) s1) =
        (r, take (Suc i) (buf[i := v]) @ vs @ drop (Suc i + length vs) (buf[i := v]))"
      using Suc.IH [of "Suc i" "buf[i := v]" s1] Suc.prems by auto
    moreover have "take (Suc i) (buf[i := v]) = take i buf @ [v]"
      using Suc.prems by (simp add: take_Suc_conv_app_nth take_update_cancel)
    ultimately show ?thesis
      using es Inr w runs_word Suc.prems
      by (intro exI [of _ "es @ fs"] exI [of _ "v # vs"] exI [of _ r]) (simp add: drop_update_cancel)
  qed
qed

inductive otp_write_runs :: "otp \<Rightarrow> u32 \<Rightarrow> nat \<Rightarrow> u32 list \<Rightarrow> event list \<Rightarrow> unit result \<Rightarrow> bool"
  for p addr where
  writes_end: "otp_write_runs p addr i [] [] (Ok ())"
| writes_fail: "otp_write_run p (addr + of_nat i * 4) d es (Err e) \<Longrightarrow>
    otp_write_runs p addr i (d # ds) es (Err e)"
| writes_word: "otp_write_run p (addr + of_nat i * 4) d es (Ok ()) \<Longrightarrow>
    otp_write_runs p addr (Suc i) ds fs r \<Longrightarrow>
    otp_write_runs p addr i (d # ds) (es @ fs) r"

lemma otp_write_words_from_run:
  "\<exists>es. trace (snd (run_state (otp_write_words_from b p addr i ds) s)) = trace s @ es \<and>
     otp_write_runs p addr i ds es (fst (run_state (otp_write_words_from b p addr i ds) s))"
proof (induction ds arbitrary: i s)
  case Nil
  then show ?case using writes_end by simp
next
  case (Cons d ds)
  obtain x s1 where w: "run_state (otp_write_word b p (addr + of_nat i * 4) d) s = (x, s1)"
    by (cases "run_state (otp_write_word b p (addr + of_nat i * 4) d) s")
  obtain es where es: "trace s1 = trace s @ es" "otp_write_run p (addr + of_nat i * 4) d es x"
    using otp_write_word_run [of b p "addr + of_nat i * 4" d s] w by auto
  show ?case
  proof (cases x)
    case (Inl e)
    then show ?thesis using es w writes_fail by auto
  next
    case (Inr u)
    obtain fs where "trace (snd (run_state (otp_write_words_from b p addr (Suc i) ds) s1)) = trace s1 @ fs"
      "otp_write_runs p addr (Suc i) ds fs (fst (run_state (otp_write_words_from b p addr (Suc i) ds) s1))"
      using Cons.IH by blast
    with es w Inr writes_word show ?thesis
      by (intro exI [of _ "es @ fs"]) simp
  qed
qed

section \<open>On a device that serves the requests\<close>

text \<open>
  \<open>otp_device b p cells la lw rd\<close>: behind the direct access registers stands a memory
  \<open>cells\<close> whose bits can be set and never cleared. \<open>la\<close>, \<open>lw\<close> and \<open>rd\<close> are the
  contents of the address, write-data and read-data registers. The controller is idle and
  without error whenever it is asked.
\<close>

definition otp_device :: "'h bus \<Rightarrow> otp \<Rightarrow> ('h \<Rightarrow> u32 \<Rightarrow> u32) \<Rightarrow> ('h \<Rightarrow> u32) \<Rightarrow> ('h \<Rightarrow> u32) \<Rightarrow>
    ('h \<Rightarrow> u32) \<Rightarrow> bool" where
  "otp_device b p cells la lw rd \<longleftrightarrow>
     (\<forall>h. fst (bus_read b (otp_reg p OTP_REG_STATUS) h) AND (OTP_STATUS_IDLE OR OTP_STATUS_ERROR) =
        OTP_STATUS_IDLE) \<and>
     (\<forall>h. fst (bus_read b (otp_reg p OTP_REG_DIRECT_ACCESS_RDATA_0) h) = rd h) \<and>
     (\<forall>x h. cells (snd (bus_read b x h)) = cells h \<and> la (snd (bus_read b x h)) = la h \<and>
        lw (snd (bus_read b x h)) = lw h \<and> rd (snd (bus_read b x h)) = rd h) \<and>
     (\<forall>v h. let h' = bus_write b (otp_reg p OTP_REG_DIRECT_ACCESS_ADDR) v h
        in la h' = v \<and> lw h' = lw h \<and> cells h' = cells h) \<and>
     (\<forall>v h. let h' = bus_write b (otp_reg p OTP_REG_DIRECT_ACCESS_WDATA_0) v h
        in lw h' = v \<and> la h' = la h \<and> cells h' = cells h) \<and>
     (\<forall>h. let h' = bus_write b (otp_reg p OTP_REG_DIRECT_ACCESS_CMD) OTP_CMD_READ h
        in rd h' = cells h (la h) \<and> cells h' = cells h) \<and>
     (\<forall>h. let h' = bus_write b (otp_reg p OTP_REG_DIRECT_ACCESS_CMD) OTP_CMD_WRITE h
        in cells h' = (cells h)(la h := cells h (la h) OR lw h))"

lemma otp_device_status:
  assumes "otp_device b p cells la lw rd"
  shows "fst (bus_read b (otp_reg p OTP_REG_STATUS) h) AND OTP_STATUS_IDLE \<noteq> 0"
    and "fst (bus_read b (otp_reg p OTP_REG_STATUS) h) AND OTP_STATUS_ERROR = 0"
proof -
  let ?w = "fst (bus_read b (otp_reg p OTP_REG_STATUS) h)"
  have *: "?w AND (OTP_STATUS_IDLE OR OTP_STATUS_ERROR) = OTP_STATUS_IDLE"
    using assms by (simp add: otp_device_def)
  have "?w AND OTP_STATUS_IDLE = (?w AND (OTP_STATUS_IDLE OR OTP_STATUS_ERROR)) AND OTP_STATUS_IDLE"
    "?w AND OTP_STATUS_ERROR = (?w AND (OTP_STATUS_IDLE OR OTP_STATUS_ERROR)) AND OTP_STATUS_ERROR"
    by (simp_all add: and.assoc reg_offsets)
  then show "?w AND OTP_STATUS_IDLE \<noteq> 0" "?w AND OTP_STATUS_ERROR = 0"
    unfolding * by (simp_all add: reg_offsets)
qed

lemma otp_device_wait:
  assumes "otp_device b p cells la lw rd"
  shows "run_state (otp_wait_for_idle b p t) s =
     (Ok (), snd (run_state (mmio_read b (otp_reg p OTP_REG_STATUS)) s))"
  using otp_poll.wait_ready [OF otp_device_status(1) [OF assms]] .

lemma otp_device_read_word:
  assumes dev: "otp_device b p cells la lw rd"
  shows "fst (run_state (otp_read_word b p a) s) = Ok (cells (hw s) a) \<and>
    cells (hw (snd (run_state (otp_read_word b p a) s))) = cells (hw s)"
  using dev otp_device_status [OF dev] otp_device_wait [OF dev]
  by (simp add: otp_read_word_def otp_has_error_def io_defs run_mmio otp_device_def Let_def)

lemma otp_device_write_word:
  assumes dev: "otp_device b p cells la lw rd"
  shows "fst (run_state (otp_write_word b p a d) s) = Ok () \<and>
    cells (hw (snd (run_state (otp_write_word b p a d) s))) =
      (cells (hw s))(a := cells (hw s) a OR d)"
  using dev otp_device_status [OF dev] otp_device_wait [OF dev]
  by (simp add: otp_write_word_def otp_has_error_def io_defs run_mmio otp_device_def Let_def)

text \<open>Word \<open>k\<close> of an array in the memory; the addresses of 2^30 words do not overlap.\<close>

abbreviation word_at :: "u32 \<Rightarrow> nat \<Rightarrow> u32" where
  "word_at addr k \<equiv> addr + of_nat k * 4"

lemma word_at_inj: "j < 2 ^ 30 \<Longrightarrow> k < 2 ^ 30 \<Longrightarrow> word_at addr j = word_at addr k \<longleftrightarrow> j = k"
  using index_addr_inj [of "of_nat j" "of_nat k" addr]
  by (simp add: unat_of_nat of_nat_inverse [symmetric] word_unat_eq_iff)

lemma otp_device_write_words_from:
  assumes dev: "otp_device b p cells la lw rd"
  shows "i + length ds \<le> 2 ^ 30 \<Longrightarrow>
    fst (run_state (otp_write_words_from b p addr i ds) s) = Ok () \<and>
    (\<forall>j < 2 ^ 30. cells (hw (snd (run_state (otp_write_words_from b p addr i ds) s))) (word_at addr j) =
      (if i \<le> j \<and> j < i + length ds then cells (hw s) (word_at addr j) OR ds ! (j - i)
       else cells (hw s) (word_at addr j)))"
proof (induction ds arbitrary: i s)
  case (Cons d ds)
  obtain x s1 where w: "run_state (otp_write_word b p (word_at addr i) d) s = (x, s1)"
    by (cases "run_state (otp_write_word b p (word_at addr i) d) s")
  have x: "x = Ok ()" and c1: "cells (hw s1) =
      (cells (hw s))(word_at addr i := cells (hw s) (word_at addr i) OR d)"
    using otp_device_write_word [OF dev, of "word_at addr i" d s] w by simp_all
  have i: "i < 2 ^ 30" and pre: "Suc i + length ds \<le> 2 ^ 30" using Cons.prems by simp_all
  have "cells (hw (snd (run_state (otp_write_words_from b p addr i (d # ds)) s))) (word_at addr j) =
      (if i \<le> j \<and> j < i + length (d # ds) then cells (hw s) (word_at addr j) OR (d # ds) ! (j - i)
       else cells (hw s) (word_at addr j))" if j: "j < 2 ^ 30" for j
    using Cons.IH [OF pre, of s1] w x c1 j word_at_inj [OF j i]
    by (auto simp: nth_Cons' Suc_le_eq Suc_diff_Suc le_less)
  then show ?case
    using Cons.IH [OF pre, of s1] w x by simp
qed auto

lemma otp_device_read_words_from:
  assumes dev: "otp_device b p cells la lw rd"
  shows "i + n = length buf \<Longrightarrow>
    fst (run_state (otp_read_words_from b p addr i n buf) s) =
      (Ok (), take i buf @ map (\<lambda>j. cells (hw s) (word_at addr j)) [i..<length buf])"
proof (induction n arbitrary: i buf s)
  case (Suc n)
  obtain x s1 where w: "run_state (otp_read_word b p (word_at addr i)) s = (x, s1)"
    by (cases "run_state (otp_read_word b p (word_at addr i)) s")
  have "x = Ok (cells (hw s) (word_at addr i))" "cells (hw s1) = cells (hw s)"
    using otp_device_read_word [OF dev, of "word_at addr i" s] w by simp_all
  then show ?case
    using Suc.IH [of "Suc i" "buf[i := cells (hw s) (word_at addr i)]" s1] Suc.prems w
    by (simp add: take_Suc_conv_app_nth take_update_cancel upt_conv_Cons)
qed simp

text \<open>What is written to blank cells is read back.\<close>

lemma otp_words_written_read:
  assumes dev: "otp_device b p cells la lw rd" and "length data \<le> 2 ^ 30"
    and blank: "\<forall>j < length data. cells (hw s) (word_at addr j) = 0"
    and "length buf = length data"
  shows "fst (run_state (do {
      r \<leftarrow> otp_write_words b p addr data;
      q \<leftarrow> otp_read_words b p addr buf;
      return (r, q) }) s) = (Ok (), Ok (), data)"
proof -
  let ?s1 = "snd (run_state (otp_write_words_from b p addr 0 data) s)"
  have r: "fst (run_state (otp_write_words_from b p addr 0 data) s) = Ok ()"
    and c: "\<forall>j < length data. cells (hw ?s1) (word_at addr j) = data ! j"
    using otp_device_write_words_from [OF dev, of 0 data addr s] assms(2) blank by auto
  have len: "length buf = length data" by (rule assms(4))
  have data: "map (\<lambda>j. cells (hw ?s1) (word_at addr j)) [0..<length buf] = data"
    unfolding len using c by (intro nth_equalityI) simp_all
  have q: "fst (run_state (otp_read_words_from b p addr 0 (length buf) buf) ?s1) = (Ok (), data)"
    using otp_device_read_words_from [OF dev, of 0 "length buf" buf addr ?s1]
    by (simp only: data take_0 append_Nil add_0 simp_thms)
  show ?thesis
    by (simp only: otp_write_words_def otp_read_words_def run_bind run_state_return fst_conv r q)
qed

section \<open>A device to run on\<close>

record otp_hw =
  dev_cells :: "u32 \<Rightarrow> u32"
  dev_addr :: u32
  dev_wdata :: u32
  dev_rdata :: u32

definition otp_bus :: "otp_hw bus" where
  "otp_bus = \<lparr>bus_read = \<lambda>a h. (if a = 0x18 then dev_rdata h else 1, h),
     bus_write = \<lambda>a v h.
       if a = 0x0C then h\<lparr>dev_addr := v\<rparr> else if a = 0x10 then h\<lparr>dev_wdata := v\<rparr>
       else if a = 0x08 \<and> v = 1 then h\<lparr>dev_rdata := dev_cells h (dev_addr h)\<rparr>
       else if a = 0x08 \<and> v = 2 then
         h\<lparr>dev_cells := (dev_cells h)(dev_addr h := dev_cells h (dev_addr h) OR dev_wdata h)\<rparr>
       else h,
     bus_csr = \<lambda>c h. (0, h)\<rparr>"

definition blank_otp :: otp_hw where
  "blank_otp = \<lparr>dev_cells = \<lambda>_. 0, dev_addr = 0, dev_wdata = 0, dev_rdata = 0\<rparr>"

lemma otp_bus_device: "otp_device otp_bus \<lparr>otp_base = 0\<rparr> dev_cells dev_addr dev_wdata dev_rdata"
  by (simp add: otp_device_def otp_bus_def reg_offsets Let_def)

section \<open>Properties\<close>

text \<open>
  C31. \<^verbatim>\<open>wait_for_idle\<close> returns: success exactly when one of the first 10000 reads
  of the status shows it idle, a timeout otherwise. A start value of 0 would test 2^32
  times.
\<close>

theorem otp_wait_bounded:
  "fst (run_state (otp_wait_for_idle b p t) s) =
     (if \<exists>n < (if t = 0 then 2 ^ 32 else unat t).
           polled b (otp_reg p OTP_REG_STATUS) n (hw s) AND OTP_STATUS_IDLE \<noteq> 0
      then Ok () else Err TIMEOUT)"
  using otp_poll.wait_result [of b p t s] by (simp add: poll_budget_def)

text \<open>
  \<^verbatim>\<open>read_words\<close> follows the access protocol word by word, each with its two
  waits, its command and its error check, and stops at the first failure with that error;
  the buffer holds the words read so far and is otherwise unchanged.
\<close>

theorem otp_read_words_protocol:
  "\<exists>es vs r. trace (snd (run_state (otp_read_words b p addr buf) s)) = trace s @ es \<and>
     otp_read_runs p addr 0 (length buf) es vs r \<and> length vs \<le> length buf \<and>
     (r = Ok () \<longleftrightarrow> length vs = length buf) \<and>
     fst (run_state (otp_read_words b p addr buf) s) = (r, vs @ drop (length vs) buf)"
proof -
  obtain es vs r where "trace (snd (run_state (otp_read_words b p addr buf) s)) = trace s @ es"
    "otp_read_runs p addr 0 (length buf) es vs r"
    "fst (run_state (otp_read_words b p addr buf) s) = (r, vs @ drop (length vs) buf)"
    using otp_read_words_from_run [of 0 "length buf" buf b p addr s] by (auto simp: otp_read_words_def)
  with otp_read_runs_length [of p addr 0 "length buf" es vs r] show ?thesis by blast
qed

text \<open>
  \<^verbatim>\<open>write_words\<close> follows the write protocol word by word: address, data, then
  the command, between two waits and before the error check; the first failure ends the run
  and is its result.
\<close>

theorem otp_write_words_protocol:
  "\<exists>es. trace (snd (run_state (otp_write_words b p addr data) s)) = trace s @ es \<and>
     otp_write_runs p addr 0 data es (fst (run_state (otp_write_words b p addr data) s))"
  unfolding otp_write_words_def by (rule otp_write_words_from_run)

text \<open>
  C20. On a controller that serves its requests, words written to blank cells are read back
  by \<^verbatim>\<open>read_words\<close>, both calls successful.
\<close>

theorem otp_write_read_round_trip:
  assumes "otp_device b p cells la lw rd" "length data \<le> 2 ^ 30"
    and "\<forall>j < length data. cells (hw s) (addr + of_nat j * 4) = 0" "length buf = length data"
  shows "fst (run_state (do {
      r \<leftarrow> otp_write_words b p addr data;
      q \<leftarrow> otp_read_words b p addr buf;
      return (r, q) }) s) = (Ok (), Ok (), data)"
  by (rule otp_words_written_read [OF assms])

theorem otp_write_read_round_trip_witness:
  "fst (run_state (do {
      r \<leftarrow> otp_write_words otp_bus \<lparr>otp_base = 0\<rparr> 0x40 [0xCAFE, 0xF00D];
      q \<leftarrow> otp_read_words otp_bus \<lparr>otp_base = 0\<rparr> 0x40 [0, 0];
      return (r, q) }) (start_mach blank_otp)) = (Ok (), Ok (), [0xCAFE, 0xF00D])"
  by (rule otp_write_read_round_trip [OF otp_bus_device]) (simp_all add: blank_otp_def)

end
