(* ===== verification/OtpStore.thy ===== *)
theory OtpStore
  imports Otp
begin

text \<open>
  What the OTP driver is for: a store of fuse words in which bits can be burnt and never
  cleared. The store is stated on its own, without registers, waits or commands, and every
  sequence of driver calls on a controller that has one behind its registers is shown to
  be the same sequence of calls on the store, failures included.
\<close>

section \<open>The store\<close>

type_synonym fuse_cells = "u32 \<Rightarrow> u32"

text \<open>\<open>no_read\<close> and \<open>no_write\<close>: the words the controller refuses to read or to burn.\<close>

record fuse_rules =
  no_read :: "u32 \<Rightarrow> bool"
  no_write :: "u32 \<Rightarrow> bool"

datatype fuse_call = ReadWord u32 | WriteWord u32 u32 | ReadWords u32 "u32 list" | WriteWords u32 "u32 list"

datatype fuse_reply = WordReply "u32 result" | DoneReply "unit result" | BufferReply "unit result \<times> u32 list"

definition burn :: "u32 \<Rightarrow> u32 \<Rightarrow> fuse_cells \<Rightarrow> fuse_cells" where
  "burn a d f = f(a := f a OR d)"

text \<open>How many of \<open>n\<close> words from index \<open>i\<close> on come before the first refused one.\<close>

fun allowed :: "(u32 \<Rightarrow> bool) \<Rightarrow> u32 \<Rightarrow> nat \<Rightarrow> nat \<Rightarrow> nat" where
  "allowed refused a i 0 = 0"
| "allowed refused a i (Suc n) = (if refused (word_at a i) then 0 else Suc (allowed refused a (Suc i) n))"

definition read_cells :: "fuse_cells \<Rightarrow> u32 \<Rightarrow> nat \<Rightarrow> nat \<Rightarrow> u32 list" where
  "read_cells f a i n = map (\<lambda>j. f (word_at a j)) [i..<i + n]"

fun burn_cells :: "u32 \<Rightarrow> nat \<Rightarrow> u32 list \<Rightarrow> fuse_cells \<Rightarrow> fuse_cells" where
  "burn_cells a i [] f = f"
| "burn_cells a i (d # ds) f = burn_cells a (Suc i) ds (burn (word_at a i) d f)"

fun store_call :: "fuse_rules \<Rightarrow> fuse_call \<Rightarrow> fuse_cells \<Rightarrow> fuse_reply \<times> fuse_cells" where
  "store_call rules (ReadWord a) f =
     (WordReply (if no_read rules a then Err OTP_READ_ERROR else Ok (f a)), f)"
| "store_call rules (WriteWord a d) f =
     (if no_write rules a then (DoneReply (Err OTP_WRITE_ERROR), f)
      else (DoneReply (Ok ()), burn a d f))"
| "store_call rules (ReadWords a buf) f =
     (let k = allowed (no_read rules) a 0 (length buf)
      in (BufferReply (if k = length buf then Ok () else Err OTP_READ_ERROR,
            read_cells f a 0 k @ drop k buf), f))"
| "store_call rules (WriteWords a ds) f =
     (let k = allowed (no_write rules) a 0 (length ds)
      in (DoneReply (if k = length ds then Ok () else Err OTP_WRITE_ERROR),
          burn_cells a 0 (take k ds) f))"

fun store_calls :: "fuse_rules \<Rightarrow> fuse_call list \<Rightarrow> fuse_cells \<Rightarrow> fuse_reply list \<times> fuse_cells" where
  "store_calls rules [] f = ([], f)"
| "store_calls rules (c # cs) f =
     (let (r, f1) = store_call rules c f; (rs, f2) = store_calls rules cs f1 in (r # rs, f2))"

text \<open>No call clears a bit.\<close>

lemma burn_grows: "f a AND burn b d f a = f a"
  by (simp add: burn_def bit.conj_disj_distrib)

lemma grows_trans: "x AND y = x \<Longrightarrow> y AND z = y \<Longrightarrow> x AND z = x" for x y z :: u32
  by (metis and.assoc)

lemma burn_cells_grows: "f a AND burn_cells b i ds f a = f a"
proof (induction ds arbitrary: i f)
  case (Cons d ds)
  show ?case
    using grows_trans [OF burn_grows [of f a "word_at b i" d] Cons.IH [of "burn (word_at b i) d f"]] by simp
qed simp

lemma store_call_grows: "f a AND snd (store_call rules c f) a = f a"
  by (cases c) (simp_all add: burn_grows burn_cells_grows Let_def)

lemma store_calls_grows: "f a AND snd (store_calls rules cs f) a = f a"
proof (induction cs arbitrary: f)
  case (Cons c cs)
  show ?case
    using grows_trans [OF store_call_grows [of f a rules c] Cons.IH [of "snd (store_call rules c f)"]]
    by (simp add: case_prod_beta Let_def)
qed simp

section \<open>The driver calls\<close>

fun driver_call :: "'h bus \<Rightarrow> otp \<Rightarrow> fuse_call \<Rightarrow> ('h, fuse_reply) io" where
  "driver_call b p (ReadWord a) = do { r \<leftarrow> otp_read_word b p a; return (WordReply r) }"
| "driver_call b p (WriteWord a d) = do { r \<leftarrow> otp_write_word b p a d; return (DoneReply r) }"
| "driver_call b p (ReadWords a buf) = do { r \<leftarrow> otp_read_words b p a buf; return (BufferReply r) }"
| "driver_call b p (WriteWords a ds) = do { r \<leftarrow> otp_write_words b p a ds; return (DoneReply r) }"

fun driver_calls :: "'h bus \<Rightarrow> otp \<Rightarrow> fuse_call list \<Rightarrow> ('h, fuse_reply list) io" where
  "driver_calls b p [] = return []"
| "driver_calls b p (c # cs) = do { r \<leftarrow> driver_call b p c; rs \<leftarrow> driver_calls b p cs; return (r # rs) }"

section \<open>A controller with a store behind it\<close>

text \<open>
  \<open>fuse_device\<close>: the status turns idle within the polls the driver makes, whatever came
  before, and its error bit is \<open>dev_err\<close>; the address, write-data and read-data registers
  hold \<open>la\<close>, \<open>lw\<close> and \<open>rd\<close>; a read command fetches the addressed cell or raises the
  error, a write command burns it or raises the error.
\<close>

record 'h fuse_view =
  cells_of :: "'h \<Rightarrow> fuse_cells"
  addr_of :: "'h \<Rightarrow> u32"
  wdata_of :: "'h \<Rightarrow> u32"
  rdata_of :: "'h \<Rightarrow> u32"
  err_of :: "'h \<Rightarrow> bool"

definition view_of :: "'h fuse_view \<Rightarrow> 'h \<Rightarrow> fuse_cells \<times> u32 \<times> u32 \<times> u32 \<times> bool" where
  "view_of v h = (cells_of v h, addr_of v h, wdata_of v h, rdata_of v h, err_of v h)"

definition fuse_device :: "'h bus \<Rightarrow> otp \<Rightarrow> fuse_rules \<Rightarrow> 'h fuse_view \<Rightarrow> bool" where
  "fuse_device b p rules v \<longleftrightarrow>
     (\<forall>h. \<exists>n < 10000. idle (polled b (otp_reg p OTP_REG_STATUS) n h)) \<and>
     (\<forall>h. fst (bus_read b (otp_reg p OTP_REG_STATUS) h) AND OTP_STATUS_ERROR \<noteq> 0 \<longleftrightarrow> err_of v h) \<and>
     (\<forall>h. fst (bus_read b (otp_reg p OTP_REG_DIRECT_ACCESS_RDATA_0) h) = rdata_of v h) \<and>
     (\<forall>x h. view_of v (snd (bus_read b x h)) = view_of v h) \<and>
     (\<forall>w h. let h' = bus_write b (otp_reg p OTP_REG_DIRECT_ACCESS_ADDR) w h
        in addr_of v h' = w \<and> wdata_of v h' = wdata_of v h \<and> cells_of v h' = cells_of v h) \<and>
     (\<forall>w h. let h' = bus_write b (otp_reg p OTP_REG_DIRECT_ACCESS_WDATA_0) w h
        in wdata_of v h' = w \<and> addr_of v h' = addr_of v h \<and> cells_of v h' = cells_of v h) \<and>
     (\<forall>h. let h' = bus_write b (otp_reg p OTP_REG_DIRECT_ACCESS_CMD) OTP_CMD_READ h
        in cells_of v h' = cells_of v h \<and> err_of v h' = no_read rules (addr_of v h) \<and>
          (\<not> no_read rules (addr_of v h) \<longrightarrow> rdata_of v h' = cells_of v h (addr_of v h))) \<and>
     (\<forall>h. let h' = bus_write b (otp_reg p OTP_REG_DIRECT_ACCESS_CMD) OTP_CMD_WRITE h
        in err_of v h' = no_write rules (addr_of v h) \<and>
          cells_of v h' = (if no_write rules (addr_of v h) then cells_of v h
             else burn (addr_of v h) (wdata_of v h) (cells_of v h)))"

text \<open>The laws of the device, one by one.\<close>

lemma fuse_device_laws:
  assumes "fuse_device b p rules v"
  shows "\<exists>n < 10000. idle (polled b (otp_reg p OTP_REG_STATUS) n h)"
    and "fst (bus_read b (otp_reg p OTP_REG_STATUS) h) AND OTP_STATUS_ERROR \<noteq> 0 \<longleftrightarrow> err_of v h"
    and "fst (bus_read b (otp_reg p OTP_REG_DIRECT_ACCESS_RDATA_0) h) = rdata_of v h"
    and "view_of v (snd (bus_read b x h)) = view_of v h"
    and "addr_of v (bus_write b (otp_reg p OTP_REG_DIRECT_ACCESS_ADDR) w h) = w"
    and "cells_of v (bus_write b (otp_reg p OTP_REG_DIRECT_ACCESS_ADDR) w h) = cells_of v h"
    and "wdata_of v (bus_write b (otp_reg p OTP_REG_DIRECT_ACCESS_WDATA_0) w h) = w"
    and "addr_of v (bus_write b (otp_reg p OTP_REG_DIRECT_ACCESS_WDATA_0) w h) = addr_of v h"
    and "cells_of v (bus_write b (otp_reg p OTP_REG_DIRECT_ACCESS_WDATA_0) w h) = cells_of v h"
    and "cells_of v (bus_write b (otp_reg p OTP_REG_DIRECT_ACCESS_CMD) OTP_CMD_READ h) = cells_of v h"
    and "err_of v (bus_write b (otp_reg p OTP_REG_DIRECT_ACCESS_CMD) OTP_CMD_READ h) =
      no_read rules (addr_of v h)"
    and "\<not> no_read rules (addr_of v h) \<Longrightarrow>
      rdata_of v (bus_write b (otp_reg p OTP_REG_DIRECT_ACCESS_CMD) OTP_CMD_READ h) =
        cells_of v h (addr_of v h)"
    and "err_of v (bus_write b (otp_reg p OTP_REG_DIRECT_ACCESS_CMD) OTP_CMD_WRITE h) =
      no_write rules (addr_of v h)"
    and "cells_of v (bus_write b (otp_reg p OTP_REG_DIRECT_ACCESS_CMD) OTP_CMD_WRITE h) =
      (if no_write rules (addr_of v h) then cells_of v h
       else burn (addr_of v h) (wdata_of v h) (cells_of v h))"
  using assms unfolding fuse_device_def Let_def by blast+

lemma view_of_eq:
  "view_of v h = view_of v h' \<longleftrightarrow> cells_of v h = cells_of v h' \<and> addr_of v h = addr_of v h' \<and>
     wdata_of v h = wdata_of v h' \<and> rdata_of v h = rdata_of v h' \<and> err_of v h = err_of v h'"
  by (simp add: view_of_def)

lemma fuse_read_keeps:
  assumes "fuse_device b p rules v"
  shows "cells_of v (snd (bus_read b x h)) = cells_of v h" "addr_of v (snd (bus_read b x h)) = addr_of v h"
    "wdata_of v (snd (bus_read b x h)) = wdata_of v h" "rdata_of v (snd (bus_read b x h)) = rdata_of v h"
    "err_of v (snd (bus_read b x h)) = err_of v h"
  using fuse_device_laws(4) [OF assms, of x h] unfolding view_of_eq by blast+

lemma fuse_wait:
  assumes "fuse_device b p rules v"
  shows "fst (run_state (otp_wait b p) s) = Ok ()"
    and "view_of v (hw (snd (run_state (otp_wait b p) s))) = view_of v (hw s)"
proof -
  show "fst (run_state (otp_wait b p) s) = Ok ()"
    using fuse_device_laws(1) [OF assms] by (simp add: otp_poll.wait_result otp_timeout_budget)
  show "view_of v (hw (snd (run_state (otp_wait b p) s))) = view_of v (hw s)"
    by (rule confined_keeps [OF otp_poll.wait_confined [of p "{otp_reg p OTP_REG_STATUS}" b "{}"]])
      (simp_all add: fuse_device_laws(4) [OF assms])
qed

lemma fuse_wait_keeps:
  assumes "fuse_device b p rules v"
  shows "cells_of v (hw (snd (run_state (otp_wait b p) s))) = cells_of v (hw s)"
    "addr_of v (hw (snd (run_state (otp_wait b p) s))) = addr_of v (hw s)"
    "wdata_of v (hw (snd (run_state (otp_wait b p) s))) = wdata_of v (hw s)"
    "rdata_of v (hw (snd (run_state (otp_wait b p) s))) = rdata_of v (hw s)"
    "err_of v (hw (snd (run_state (otp_wait b p) s))) = err_of v (hw s)"
  using fuse_wait(2) [OF assms, of s] unfolding view_of_eq by blast+

section \<open>One word\<close>

lemma fuse_read_word:
  assumes dev: "fuse_device b p rules v"
  shows "fst (run_state (otp_read_word b p a) s) =
      (if no_read rules a then Err OTP_READ_ERROR else Ok (cells_of v (hw s) a)) \<and>
    cells_of v (hw (snd (run_state (otp_read_word b p a) s))) = cells_of v (hw s)"
  using fuse_wait(1) [OF dev]
  by (simp add: otp_read_word_def otp_has_error_def io_defs run_mmio fuse_wait_keeps [OF dev]
      fuse_read_keeps [OF dev] fuse_device_laws(2,3,5-14) [OF dev])

lemma fuse_write_word:
  assumes dev: "fuse_device b p rules v"
  shows "fst (run_state (otp_write_word b p a d) s) =
      (if no_write rules a then Err OTP_WRITE_ERROR else Ok ()) \<and>
    cells_of v (hw (snd (run_state (otp_write_word b p a d) s))) =
      (if no_write rules a then cells_of v (hw s) else burn a d (cells_of v (hw s)))"
  using fuse_wait(1) [OF dev]
  by (simp add: otp_write_word_def otp_has_error_def io_defs run_mmio fuse_wait_keeps [OF dev]
      fuse_read_keeps [OF dev] fuse_device_laws(2,3,5-14) [OF dev])

section \<open>Many words\<close>

lemma read_cells_Suc: "read_cells f a i (Suc n) = f (word_at a i) # read_cells f a (Suc i) n"
  by (simp add: read_cells_def upt_conv_Cons del: upt_Suc)

lemma allowed_le: "allowed refused a i n \<le> n"
  by (induction n arbitrary: i) simp_all

lemma fuse_read_words_from:
  assumes dev: "fuse_device b p rules v"
  shows "i + n = length buf \<Longrightarrow>
    (let k = allowed (no_read rules) a i n; res = run_state (otp_read_words_from b p a i n buf) s
     in fst res = (if k = n then Ok () else Err OTP_READ_ERROR,
          take i buf @ read_cells (cells_of v (hw s)) a i k @ drop (i + k) buf) \<and>
        cells_of v (hw (snd res)) = cells_of v (hw s))"
proof (induction n arbitrary: i buf s)
  case 0
  then show ?case by (simp add: read_cells_def)
next
  case (Suc n)
  obtain x s1 where w: "run_state (otp_read_word b p (word_at a i)) s = (x, s1)"
    by (cases "run_state (otp_read_word b p (word_at a i)) s")
  have x: "x = (if no_read rules (word_at a i) then Err OTP_READ_ERROR else Ok (cells_of v (hw s) (word_at a i)))"
    and c: "cells_of v (hw s1) = cells_of v (hw s)"
    using fuse_read_word [OF dev, of "word_at a i" s] w by simp_all
  show ?case
  proof (cases "no_read rules (word_at a i)")
    case True
    then show ?thesis using w x c by (simp add: read_cells_def)
  next
    case False
    let ?v = "cells_of v (hw s) (word_at a i)"
    have "take (Suc i) (buf[i := ?v]) = take i buf @ [?v]"
      using Suc.prems by (simp add: take_Suc_conv_app_nth take_update_cancel)
    with False show ?thesis
      using Suc.IH [of "Suc i" "buf[i := ?v]" s1] Suc.prems w x c
      by (simp add: Let_def read_cells_Suc drop_update_cancel)
  qed
qed

lemma fuse_write_words_from:
  assumes dev: "fuse_device b p rules v"
  shows "(let k = allowed (no_write rules) a i (length ds); res = run_state (otp_write_words_from b p a i ds) s
     in fst res = (if k = length ds then Ok () else Err OTP_WRITE_ERROR) \<and>
        cells_of v (hw (snd res)) = burn_cells a i (take k ds) (cells_of v (hw s)))"
proof (induction ds arbitrary: i s)
  case (Cons d ds)
  obtain x s1 where w: "run_state (otp_write_word b p (word_at a i) d) s = (x, s1)"
    by (cases "run_state (otp_write_word b p (word_at a i) d) s")
  have x: "x = (if no_write rules (word_at a i) then Err OTP_WRITE_ERROR else Ok ())"
    and c: "cells_of v (hw s1) = (if no_write rules (word_at a i) then cells_of v (hw s)
        else burn (word_at a i) d (cells_of v (hw s)))"
    using fuse_write_word [OF dev, of "word_at a i" d s] w by simp_all
  show ?case
  proof (cases "no_write rules (word_at a i)")
    case True
    then show ?thesis using w x c by simp
  next
    case False
    then show ?thesis using Cons.IH [of "Suc i" s1] w x c by (simp add: Let_def)
  qed
qed simp

section \<open>Refinement\<close>

lemma driver_call_refines:
  assumes dev: "fuse_device b p rules v"
  shows "(fst (run_state (driver_call b p c) s), cells_of v (hw (snd (run_state (driver_call b p c) s)))) =
    store_call rules c (cells_of v (hw s))"
proof (cases c)
  case (ReadWord a)
  then show ?thesis using fuse_read_word [OF dev, of a s] by simp
next
  case (WriteWord a d)
  then show ?thesis using fuse_write_word [OF dev, of a d s] by simp
next
  case (ReadWords a buf)
  then show ?thesis
    using fuse_read_words_from [OF dev, of 0 "length buf" buf a s] by (simp add: otp_read_words_def Let_def)
next
  case (WriteWords a ds)
  then show ?thesis
    using fuse_write_words_from [OF dev, of a 0 ds s] by (simp add: otp_write_words_def Let_def)
qed

lemma driver_calls_refine:
  assumes dev: "fuse_device b p rules v"
  shows "(fst (run_state (driver_calls b p cs) s), cells_of v (hw (snd (run_state (driver_calls b p cs) s)))) =
    store_calls rules cs (cells_of v (hw s))"
proof (induction cs arbitrary: s)
  case (Cons c cs)
  from driver_call_refines [OF dev, of c s] Cons.IH [of "snd (run_state (driver_call b p c) s)"]
  show ?case by (simp add: case_prod_beta Let_def prod_eq_iff)
qed simp

section \<open>A slow controller with protected words\<close>

text \<open>It is busy for three polls after every command and refuses to burn the words below 0x20.\<close>

record slow_otp =
  slow_cells :: fuse_cells
  slow_addr :: u32
  slow_wdata :: u32
  slow_rdata :: u32
  slow_err :: bool
  slow_wait :: nat

definition slow_rules :: fuse_rules where
  "slow_rules = \<lparr>no_read = \<lambda>_. False, no_write = \<lambda>a. a < 0x20\<rparr>"

definition slow_view :: "slow_otp fuse_view" where
  "slow_view = \<lparr>cells_of = slow_cells, addr_of = slow_addr, wdata_of = slow_wdata,
     rdata_of = slow_rdata, err_of = slow_err\<rparr>"

definition slow_bus :: "slow_otp bus" where
  "slow_bus = \<lparr>bus_read = \<lambda>a h.
       (if a = 0x18 then slow_rdata h
        else (if slow_wait h mod 4 = 0 then 1 else 0) OR (if slow_err h then 2 else 0),
        h\<lparr>slow_wait := slow_wait h - 1\<rparr>),
     bus_write = \<lambda>a v h.
       if a = 0x0C then h\<lparr>slow_addr := v\<rparr> else if a = 0x10 then h\<lparr>slow_wdata := v\<rparr>
       else if a = 0x08 \<and> v = 1 then
         h\<lparr>slow_rdata := slow_cells h (slow_addr h), slow_err := False, slow_wait := 3\<rparr>
       else if a = 0x08 \<and> v = 2 \<and> slow_addr h < 0x20 then
         h\<lparr>slow_err := True, slow_wait := 3\<rparr>
       else if a = 0x08 \<and> v = 2 then
         h\<lparr>slow_cells := burn (slow_addr h) (slow_wdata h) (slow_cells h), slow_err := False,
           slow_wait := 3\<rparr>
       else h,
     bus_csr = \<lambda>c h. (0, h)\<rparr>"

lemma slow_status:
  "fst (bus_read slow_bus 0 h) AND 1 \<noteq> 0 \<longleftrightarrow> slow_wait h mod 4 = 0"
  "fst (bus_read slow_bus 0 h) AND 2 \<noteq> 0 \<longleftrightarrow> slow_err h"
  "snd (bus_read slow_bus x h) = h\<lparr>slow_wait := slow_wait h - 1\<rparr>"
  by (simp_all add: slow_bus_def)

lemma slow_ready: "\<exists>n < 10000. polled slow_bus 0 n h AND 1 \<noteq> 0"
proof -
  have *: "polled slow_bus 0 n h AND 1 \<noteq> 0" if "(slow_wait h - n) mod 4 = 0" for n
    using that by (induction n arbitrary: h) (simp_all add: slow_status del: and_one_eq)
  have "(slow_wait h - slow_wait h mod 4) mod 4 = 0" by (simp add: minus_mod_eq_mult_div)
  moreover have "slow_wait h mod 4 < 10000" by (rule less_trans [of _ 4]) simp_all
  ultimately show ?thesis by (intro exI [of _ "slow_wait h mod 4"] conjI *)
qed

lemma slow_device: "fuse_device slow_bus \<lparr>otp_base = 0\<rparr> slow_rules slow_view"
  using slow_ready
  by (simp add: fuse_device_def slow_status view_of_def slow_view_def slow_rules_def reg_offsets Let_def
      del: and_one_eq) (simp add: slow_bus_def)

definition slow_blank :: slow_otp where
  "slow_blank = \<lparr>slow_cells = \<lambda>_. 0, slow_addr = 0, slow_wdata = 0, slow_rdata = 0, slow_err = False,
     slow_wait = 2\<rparr>"

text \<open>The first write is refused; the last read crosses from a blank word to a burnt one.\<close>

lemma slow_replies:
  "fst (store_calls slow_rules
     [WriteWords 0x18 [1], WriteWords 0x20 [0xA0, 3], WriteWord 0x20 0x0B, ReadWords 0x1C [9, 9]] (\<lambda>_. 0)) =
   [DoneReply (Err OTP_WRITE_ERROR), DoneReply (Ok ()), DoneReply (Ok ()), BufferReply (Ok (), [0, 0xAB])]"
  by code_simp

section \<open>Properties\<close>

text \<open>
  C19. On a controller with a fuse store behind its registers, which may take its time and
  may refuse words, any sequence of driver calls gives the replies of the same calls on
  the store and leaves its cells as they do: reads deliver the cells up to the first
  refused word, writes burn up to the first refused word, and the error of the reply says
  that there was one.
\<close>

theorem otp_driver_refines_store:
  assumes "fuse_device b p rules v"
  shows "(fst (run_state (driver_calls b p cs) s), cells_of v (hw (snd (run_state (driver_calls b p cs) s)))) =
    store_calls rules cs (cells_of v (hw s))"
  by (rule driver_calls_refine [OF assms])

theorem otp_driver_refines_store_witness:
  "fst (run_state (driver_calls slow_bus \<lparr>otp_base = 0\<rparr>
     [WriteWords 0x18 [1], WriteWords 0x20 [0xA0, 3], WriteWord 0x20 0x0B, ReadWords 0x1C [9, 9]])
     (start_mach slow_blank)) =
   [DoneReply (Err OTP_WRITE_ERROR), DoneReply (Ok ()), DoneReply (Ok ()), BufferReply (Ok (), [0, 0xAB])]"
  using otp_driver_refines_store [OF slow_device,
      of "[WriteWords 0x18 [1], WriteWords 0x20 [0xA0, 3], WriteWord 0x20 0x0B, ReadWords 0x1C [9, 9]]"
         "start_mach slow_blank"] slow_replies
  by (simp only: start_mach_sel slow_view_def slow_blank_def fuse_view.select_convs slow_otp.select_convs)
    (metis fst_conv)

text \<open>
  No sequence of driver calls, failing or not, clears a bit of a fuse.
\<close>

theorem otp_driver_clears_no_fuse:
  assumes "fuse_device b p rules v"
  shows "cells_of v (hw s) a AND cells_of v (hw (snd (run_state (driver_calls b p cs) s))) a =
    cells_of v (hw s) a"
  using store_calls_grows [of "cells_of v (hw s)" a rules cs] driver_calls_refine [OF assms, of cs s]
  by (metis snd_conv)

theorem otp_driver_clears_no_fuse_witness:
  "slow_cells (hw (snd (run_state (driver_calls slow_bus \<lparr>otp_base = 0\<rparr> [WriteWord 0x20 0])
     (start_mach (slow_blank\<lparr>slow_cells := \<lambda>_. 0xFF\<rparr>))))) 0x20 AND 0xFF = 0xFF"
  using otp_driver_clears_no_fuse [OF slow_device, of "start_mach (slow_blank\<lparr>slow_cells := \<lambda>_. 0xFF\<rparr>)"
      "0x20" "[WriteWord 0x20 0]"]
  by (simp add: slow_view_def and.commute del: driver_calls.simps)

end
