(* ===== verification/Mci.thy ===== *)
theory Mci
  imports Access
begin

text \<open>
  The MCI (MCU control interface) driver, \<^verbatim>\<open>src/romtime/include/romtime/mci.hpp\<close>
  and \<^verbatim>\<open>src/romtime/src/mci.cpp\<close>. The object is its base address; every operation
  is a sequence of register accesses. The flow status register holds the boot milestones
  in its upper and the checkpoint in its lower half; the lemmas on it say that the driver's
  two setters update one half and keep the other.
\<close>

section \<open>The driver object and its registers\<close>

record mci =
  mci_base :: uintptr

definition MCI_REG_SECURITY_STATE :: usize where [reg_offsets]:
  "MCI_REG_SECURITY_STATE = 0x00"

definition MCI_REG_CPTRA_BOOT_GO :: usize where [reg_offsets]:
  "MCI_REG_CPTRA_BOOT_GO = 0x04"

definition MCI_REG_FW_FLOW_STATUS :: usize where [reg_offsets]:
  "MCI_REG_FW_FLOW_STATUS = 0x08"

definition MCI_REG_FW_ERROR_FATAL :: usize where [reg_offsets]:
  "MCI_REG_FW_ERROR_FATAL = 0x0C"

definition MCI_REG_HW_FLOW_STATUS :: usize where [reg_offsets]:
  "MCI_REG_HW_FLOW_STATUS = 0x10"

definition MCI_REG_MCU_NMI_VECTOR :: usize where [reg_offsets]:
  "MCI_REG_MCU_NMI_VECTOR = 0x14"

definition MCI_REG_WDT_TIMER1_TIMEOUT_PERIOD_0 :: usize where [reg_offsets]:
  "MCI_REG_WDT_TIMER1_TIMEOUT_PERIOD_0 = 0x18"

definition MCI_REG_WDT_TIMER1_TIMEOUT_PERIOD_1 :: usize where [reg_offsets]:
  "MCI_REG_WDT_TIMER1_TIMEOUT_PERIOD_1 = 0x1C"

definition MCI_REG_WDT_TIMER2_TIMEOUT_PERIOD_0 :: usize where [reg_offsets]:
  "MCI_REG_WDT_TIMER2_TIMEOUT_PERIOD_0 = 0x20"

definition MCI_REG_WDT_TIMER2_TIMEOUT_PERIOD_1 :: usize where [reg_offsets]:
  "MCI_REG_WDT_TIMER2_TIMEOUT_PERIOD_1 = 0x24"

definition MCI_REG_WDT_TIMER1_CTRL :: usize where [reg_offsets]:
  "MCI_REG_WDT_TIMER1_CTRL = 0x28"

definition MCI_REG_WDT_TIMER1_EN :: usize where [reg_offsets]:
  "MCI_REG_WDT_TIMER1_EN = 0x2C"

definition MCI_REG_RESET_REASON :: usize where [reg_offsets]:
  "MCI_REG_RESET_REASON = 0x30"

definition MCI_REG_RESET_REQUEST :: usize where [reg_offsets]:
  "MCI_REG_RESET_REQUEST = 0x34"

definition MCI_REG_SS_CONFIG_DONE_STICKY :: usize where [reg_offsets]:
  "MCI_REG_SS_CONFIG_DONE_STICKY = 0x38"

definition MCI_REG_SS_CONFIG_DONE :: usize where [reg_offsets]:
  "MCI_REG_SS_CONFIG_DONE = 0x3C"

definition MCI_REG_PROD_DEBUG_UNLOCK_PK_HASH_BASE :: usize where [reg_offsets]:
  "MCI_REG_PROD_DEBUG_UNLOCK_PK_HASH_BASE = 0x40"

definition MCI_REG_MBOX0_VALID_AXI_USER_BASE :: usize where [reg_offsets]:
  "MCI_REG_MBOX0_VALID_AXI_USER_BASE = 0x80"

definition MCI_REG_MBOX0_AXI_USER_LOCK_BASE :: usize where [reg_offsets]:
  "MCI_REG_MBOX0_AXI_USER_LOCK_BASE = 0xA0"

definition MCI_REG_MBOX1_VALID_AXI_USER_BASE :: usize where [reg_offsets]:
  "MCI_REG_MBOX1_VALID_AXI_USER_BASE = 0xC0"

definition MCI_REG_MBOX1_AXI_USER_LOCK_BASE :: usize where [reg_offsets]:
  "MCI_REG_MBOX1_AXI_USER_LOCK_BASE = 0xE0"

definition MCI_REG_NOTIF0_INTR_TRIG_R :: usize where [reg_offsets]:
  "MCI_REG_NOTIF0_INTR_TRIG_R = 0x100"

definition MCI_REG_NOTIF0_INTERNAL_INTR_R :: usize where [reg_offsets]:
  "MCI_REG_NOTIF0_INTERNAL_INTR_R = 0x104"

text \<open>Declared inside \<^verbatim>\<open>generic_input_wires\<close>.\<close>

definition MCI_REG_GENERIC_INPUT_WIRES_BASE :: usize where [reg_offsets]:
  "MCI_REG_GENERIC_INPUT_WIRES_BASE = 0x400"

definition PK_HASH_REG_COUNT :: usize where [reg_offsets]:
  "PK_HASH_REG_COUNT = 12"

definition MBOX_AXI_USER_COUNT :: usize where [reg_offsets]:
  "MBOX_AXI_USER_COUNT = 8"

definition RESET_REASON_WARM_RESET :: u32 where [reg_offsets]:
  "RESET_REASON_WARM_RESET = 0x01"

definition RESET_REASON_FW_BOOT_UPD_RESET :: u32 where [reg_offsets]:
  "RESET_REASON_FW_BOOT_UPD_RESET = 0x02"

definition RESET_REASON_FW_HITLESS_UPD_RESET :: u32 where [reg_offsets]:
  "RESET_REASON_FW_HITLESS_UPD_RESET = 0x04"

definition SS_CONFIG_DONE_BIT :: u32 where [reg_offsets]:
  "SS_CONFIG_DONE_BIT = 0x01"

definition NOTIF_CPTRA_MCU_RESET_REQ_STS_MASK :: u32 where [reg_offsets]:
  "NOTIF_CPTRA_MCU_RESET_REQ_STS_MASK = 0x02"

definition RESET_REQUEST_MCU_REQ :: u32 where [reg_offsets]:
  "RESET_REQUEST_MCU_REQ = 0x01"

definition MBOX_AXI_USER_LOCK_BIT :: u32 where [reg_offsets]:
  "MBOX_AXI_USER_LOCK_BIT = 0x01"

datatype mcu_reset_reason =
  ColdBoot | WarmReset | FirmwareBootReset | FirmwareHitlessUpdate | Invalid

datatype device_lifecycle_state =
  DeviceUnprovisioned | DeviceManufacturing | DeviceProvisioned | DeviceSecurityLocked

section \<open>Register access\<close>

definition mci_read_reg :: "'h bus \<Rightarrow> mci \<Rightarrow> usize \<Rightarrow> ('h, u32) io" where [io_defs]:
  "mci_read_reg b m offset = mmio_read b (mci_base m + offset)"

definition mci_write_reg :: "'h bus \<Rightarrow> mci \<Rightarrow> usize \<Rightarrow> u32 \<Rightarrow> ('h, unit) io" where [io_defs]:
  "mci_write_reg b m offset v = mmio_write b (mci_base m + offset) v"

definition mci_modify_reg :: "'h bus \<Rightarrow> mci \<Rightarrow> usize \<Rightarrow> u32 \<Rightarrow> u32 \<Rightarrow> ('h, unit) io" where [io_defs]:
  "mci_modify_reg b m offset msk v = do {
     current \<leftarrow> mci_read_reg b m offset;
     mci_write_reg b m offset ((current AND NOT msk) OR (v AND msk)) }"

interpretation mci_regs: modifiable_block b "mci_base m" "mci_read_reg b m" "mci_write_reg b m"
  "mci_modify_reg b m" for b m
  by unfold_locales (simp_all add: io_defs Let_def)

section \<open>Operations\<close>

definition new_mci :: "uintptr \<Rightarrow> mci" where
  "new_mci base_addr = \<lparr>mci_base = base_addr\<rparr>"

definition device_lifecycle_state_of :: "u32 \<Rightarrow> device_lifecycle_state" where
  "device_lifecycle_state_of w =
     (let state = w AND 0x03 in
      if state = 0 then DeviceUnprovisioned
      else if state = 1 then DeviceManufacturing
      else if state = 2 then DeviceProvisioned
      else if state = 3 then DeviceSecurityLocked
      else DeviceUnprovisioned)"

definition device_lifecycle_state :: "'h bus \<Rightarrow> mci \<Rightarrow> ('h, device_lifecycle_state) io" where
  "device_lifecycle_state b m = do {
     w \<leftarrow> mci_read_reg b m MCI_REG_SECURITY_STATE;
     return (device_lifecycle_state_of w) }"

definition security_state :: "'h bus \<Rightarrow> mci \<Rightarrow> ('h, u32) io" where
  "security_state b m = mci_read_reg b m MCI_REG_SECURITY_STATE"

definition caliptra_boot_go :: "'h bus \<Rightarrow> mci \<Rightarrow> ('h, unit) io" where
  "caliptra_boot_go b m = mci_write_reg b m MCI_REG_CPTRA_BOOT_GO 1"

definition set_flow_status :: "'h bus \<Rightarrow> mci \<Rightarrow> u32 \<Rightarrow> ('h, unit) io" where
  "set_flow_status b m status = mci_write_reg b m MCI_REG_FW_FLOW_STATUS status"

definition flow_status :: "'h bus \<Rightarrow> mci \<Rightarrow> ('h, u32) io" where
  "flow_status b m = mci_read_reg b m MCI_REG_FW_FLOW_STATUS"

definition flow_milestone :: "'h bus \<Rightarrow> mci \<Rightarrow> ('h, u16) io" where
  "flow_milestone b m = do {
     w \<leftarrow> flow_status b m;
     return (ucast (drop_bit 16 w)) }"

definition set_flow_checkpoint :: "'h bus \<Rightarrow> mci \<Rightarrow> u16 \<Rightarrow> ('h, unit) io" where
  "set_flow_checkpoint b m checkpoint = do {
     ms \<leftarrow> flow_milestone b m;
     let milestone = (push_bit 16 (ucast ms) :: u32);
     set_flow_status b m (milestone OR ucast checkpoint) }"

definition flow_checkpoint :: "'h bus \<Rightarrow> mci \<Rightarrow> ('h, u16) io" where
  "flow_checkpoint b m = do {
     w \<leftarrow> flow_status b m;
     return (ucast (w AND 0x0000FFFF)) }"

definition set_fw_fatal_error :: "'h bus \<Rightarrow> mci \<Rightarrow> u32 \<Rightarrow> ('h, unit) io" where
  "set_fw_fatal_error b m code = mci_write_reg b m MCI_REG_FW_ERROR_FATAL code"

definition set_flow_milestone :: "'h bus \<Rightarrow> mci \<Rightarrow> u16 \<Rightarrow> ('h, unit) io" where
  "set_flow_milestone b m milestone = do {
     let milestone_val = (push_bit 16 (ucast milestone) :: u32);
     w \<leftarrow> flow_status b m;
     set_flow_status b m (milestone_val OR w) }"

definition hw_flow_status :: "'h bus \<Rightarrow> mci \<Rightarrow> ('h, u32) io" where
  "hw_flow_status b m = mci_read_reg b m MCI_REG_HW_FLOW_STATUS"

definition set_nmi_vector :: "'h bus \<Rightarrow> mci \<Rightarrow> u32 \<Rightarrow> ('h, unit) io" where
  "set_nmi_vector b m v = mci_write_reg b m MCI_REG_MCU_NMI_VECTOR v"

definition configure_wdt :: "'h bus \<Rightarrow> mci \<Rightarrow> u32 \<Rightarrow> u32 \<Rightarrow> ('h, unit) io" where
  "configure_wdt b m wdt1_timeout wdt2_timeout = do {
     mci_write_reg b m MCI_REG_WDT_TIMER1_TIMEOUT_PERIOD_0 wdt1_timeout;
     mci_write_reg b m MCI_REG_WDT_TIMER1_TIMEOUT_PERIOD_1 0;
     mci_write_reg b m MCI_REG_WDT_TIMER2_TIMEOUT_PERIOD_0 wdt2_timeout;
     mci_write_reg b m MCI_REG_WDT_TIMER2_TIMEOUT_PERIOD_1 0;
     mci_write_reg b m MCI_REG_WDT_TIMER1_CTRL 1;
     mci_write_reg b m MCI_REG_WDT_TIMER1_EN 1 }"

definition disable_wdt :: "'h bus \<Rightarrow> mci \<Rightarrow> ('h, unit) io" where
  "disable_wdt b m = mci_write_reg b m MCI_REG_WDT_TIMER1_EN 0"

definition generic_input_wires :: "'h bus \<Rightarrow> mci \<Rightarrow> usize \<Rightarrow> ('h, u32) io" where
  "generic_input_wires b m index =
     (if index \<ge> 2 then return 0
      else mci_read_reg b m (MCI_REG_GENERIC_INPUT_WIRES_BASE + index * 4))"

definition reset_reason :: "'h bus \<Rightarrow> mci \<Rightarrow> ('h, u32) io" where
  "reset_reason b m = mci_read_reg b m MCI_REG_RESET_REASON"

definition reset_reason_of :: "u32 \<Rightarrow> mcu_reset_reason" where
  "reset_reason_of reason =
     (let warm_reset = (reason AND RESET_REASON_WARM_RESET \<noteq> 0);
          fw_boot_upd = (reason AND RESET_REASON_FW_BOOT_UPD_RESET \<noteq> 0);
          fw_hitless_upd = (reason AND RESET_REASON_FW_HITLESS_UPD_RESET \<noteq> 0)
      in if \<not> warm_reset \<and> \<not> fw_boot_upd \<and> \<not> fw_hitless_upd then ColdBoot
         else if warm_reset \<and> \<not> fw_boot_upd \<and> \<not> fw_hitless_upd then WarmReset
         else if \<not> warm_reset \<and> fw_boot_upd \<and> \<not> fw_hitless_upd then FirmwareBootReset
         else if \<not> warm_reset \<and> \<not> fw_boot_upd \<and> fw_hitless_upd then FirmwareHitlessUpdate
         else Invalid)"

definition reset_reason_enum :: "'h bus \<Rightarrow> mci \<Rightarrow> ('h, mcu_reset_reason) io" where
  "reset_reason_enum b m = do {
     reason \<leftarrow> reset_reason b m;
     return (reset_reason_of reason) }"

definition is_cold_reset :: "'h bus \<Rightarrow> mci \<Rightarrow> ('h, bool) io" where
  "is_cold_reset b m = do { r \<leftarrow> reset_reason_enum b m; return (r = ColdBoot) }"

definition is_warm_reset :: "'h bus \<Rightarrow> mci \<Rightarrow> ('h, bool) io" where
  "is_warm_reset b m = do { r \<leftarrow> reset_reason_enum b m; return (r = WarmReset) }"

definition is_fw_boot_update_reset :: "'h bus \<Rightarrow> mci \<Rightarrow> ('h, bool) io" where
  "is_fw_boot_update_reset b m = do { r \<leftarrow> reset_reason_enum b m; return (r = FirmwareBootReset) }"

definition is_fw_hitless_update_reset :: "'h bus \<Rightarrow> mci \<Rightarrow> ('h, bool) io" where
  "is_fw_hitless_update_reset b m = do {
     r \<leftarrow> reset_reason_enum b m; return (r = FirmwareHitlessUpdate) }"

definition read_notif0_intr_trig_r :: "'h bus \<Rightarrow> mci \<Rightarrow> ('h, u32) io" where
  "read_notif0_intr_trig_r b m = mci_read_reg b m MCI_REG_NOTIF0_INTR_TRIG_R"

definition write_notif0_intr_trig_r :: "'h bus \<Rightarrow> mci \<Rightarrow> u32 \<Rightarrow> ('h, unit) io" where
  "write_notif0_intr_trig_r b m v = mci_write_reg b m MCI_REG_NOTIF0_INTR_TRIG_R v"

definition read_wdt_timer1_en :: "'h bus \<Rightarrow> mci \<Rightarrow> ('h, u32) io" where
  "read_wdt_timer1_en b m = mci_read_reg b m MCI_REG_WDT_TIMER1_EN"

definition write_wdt_timer1_en :: "'h bus \<Rightarrow> mci \<Rightarrow> u32 \<Rightarrow> ('h, unit) io" where
  "write_wdt_timer1_en b m v = mci_write_reg b m MCI_REG_WDT_TIMER1_EN v"

definition mci_handle_interrupt :: "'h bus \<Rightarrow> mci \<Rightarrow> ('h, unit) io" where
  "mci_handle_interrupt b m = do {
     intr_status \<leftarrow> mci_read_reg b m MCI_REG_NOTIF0_INTERNAL_INTR_R;
     if intr_status AND NOTIF_CPTRA_MCU_RESET_REQ_STS_MASK \<noteq> 0
     then do {
       mci_modify_reg b m MCI_REG_NOTIF0_INTERNAL_INTR_R NOTIF_CPTRA_MCU_RESET_REQ_STS_MASK
         NOTIF_CPTRA_MCU_RESET_REQ_STS_MASK;
       mci_modify_reg b m MCI_REG_RESET_REQUEST RESET_REQUEST_MCU_REQ RESET_REQUEST_MCU_REQ }
     else return () }"

definition trigger_warm_reset :: "'h bus \<Rightarrow> mci \<Rightarrow> ('h, unit) io" where
  "trigger_warm_reset b m = mci_write_reg b m MCI_REG_RESET_REQUEST 1"

definition set_ss_config_done_sticky :: "'h bus \<Rightarrow> mci \<Rightarrow> ('h, unit) io" where
  "set_ss_config_done_sticky b m = mci_write_reg b m MCI_REG_SS_CONFIG_DONE_STICKY SS_CONFIG_DONE_BIT"

definition is_ss_config_done_sticky :: "'h bus \<Rightarrow> mci \<Rightarrow> ('h, bool) io" where
  "is_ss_config_done_sticky b m = do {
     w \<leftarrow> mci_read_reg b m MCI_REG_SS_CONFIG_DONE_STICKY;
     return (w AND SS_CONFIG_DONE_BIT \<noteq> 0) }"

definition set_ss_config_done :: "'h bus \<Rightarrow> mci \<Rightarrow> ('h, unit) io" where
  "set_ss_config_done b m = mci_write_reg b m MCI_REG_SS_CONFIG_DONE SS_CONFIG_DONE_BIT"

definition is_ss_config_done :: "'h bus \<Rightarrow> mci \<Rightarrow> ('h, bool) io" where
  "is_ss_config_done b m = do {
     w \<leftarrow> mci_read_reg b m MCI_REG_SS_CONFIG_DONE;
     return (w AND SS_CONFIG_DONE_BIT \<noteq> 0) }"

definition read_prod_debug_unlock_pk_hash :: "'h bus \<Rightarrow> mci \<Rightarrow> usize \<Rightarrow> ('h, u32 option) io" where
  "read_prod_debug_unlock_pk_hash b m index =
     (if index \<ge> PK_HASH_REG_COUNT then return None
      else do {
        w \<leftarrow> mci_read_reg b m (MCI_REG_PROD_DEBUG_UNLOCK_PK_HASH_BASE + index * 4);
        return (Some w) })"

definition prod_debug_unlock_pk_hash_len :: "mci \<Rightarrow> usize" where
  "prod_debug_unlock_pk_hash_len m = PK_HASH_REG_COUNT"

definition read_mbox0_valid_axi_user :: "'h bus \<Rightarrow> mci \<Rightarrow> usize \<Rightarrow> ('h, u32 option) io" where
  "read_mbox0_valid_axi_user b m index =
     (if index \<ge> MBOX_AXI_USER_COUNT then return None
      else do {
        w \<leftarrow> mci_read_reg b m (MCI_REG_MBOX0_VALID_AXI_USER_BASE + index * 4);
        return (Some w) })"

definition read_mbox0_axi_user_lock :: "'h bus \<Rightarrow> mci \<Rightarrow> usize \<Rightarrow> ('h, bool option) io" where
  "read_mbox0_axi_user_lock b m index =
     (if index \<ge> MBOX_AXI_USER_COUNT then return None
      else do {
        w \<leftarrow> mci_read_reg b m (MCI_REG_MBOX0_AXI_USER_LOCK_BASE + index * 4);
        return (Some (w AND MBOX_AXI_USER_LOCK_BIT \<noteq> 0)) })"

definition read_mbox1_valid_axi_user :: "'h bus \<Rightarrow> mci \<Rightarrow> usize \<Rightarrow> ('h, u32 option) io" where
  "read_mbox1_valid_axi_user b m index =
     (if index \<ge> MBOX_AXI_USER_COUNT then return None
      else do {
        w \<leftarrow> mci_read_reg b m (MCI_REG_MBOX1_VALID_AXI_USER_BASE + index * 4);
        return (Some w) })"

definition read_mbox1_axi_user_lock :: "'h bus \<Rightarrow> mci \<Rightarrow> usize \<Rightarrow> ('h, bool option) io" where
  "read_mbox1_axi_user_lock b m index =
     (if index \<ge> MBOX_AXI_USER_COUNT then return None
      else do {
        w \<leftarrow> mci_read_reg b m (MCI_REG_MBOX1_AXI_USER_LOCK_BASE + index * 4);
        return (Some (w AND MBOX_AXI_USER_LOCK_BIT \<noteq> 0)) })"

definition mbox_axi_user_len :: "mci \<Rightarrow> usize" where
  "mbox_axi_user_len m = MBOX_AXI_USER_COUNT"

definition write_mbox0_valid_axi_user :: "'h bus \<Rightarrow> mci \<Rightarrow> usize \<Rightarrow> u32 \<Rightarrow> ('h, bool) io" where
  "write_mbox0_valid_axi_user b m index v =
     (if index \<ge> MBOX_AXI_USER_COUNT then return False
      else do {
        mci_write_reg b m (MCI_REG_MBOX0_VALID_AXI_USER_BASE + index * 4) v;
        return True })"

definition lock_mbox0_axi_user :: "'h bus \<Rightarrow> mci \<Rightarrow> usize \<Rightarrow> ('h, bool) io" where
  "lock_mbox0_axi_user b m index =
     (if index \<ge> MBOX_AXI_USER_COUNT then return False
      else do {
        mci_write_reg b m (MCI_REG_MBOX0_AXI_USER_LOCK_BASE + index * 4) MBOX_AXI_USER_LOCK_BIT;
        return True })"

definition write_mbox1_valid_axi_user :: "'h bus \<Rightarrow> mci \<Rightarrow> usize \<Rightarrow> u32 \<Rightarrow> ('h, bool) io" where
  "write_mbox1_valid_axi_user b m index v =
     (if index \<ge> MBOX_AXI_USER_COUNT then return False
      else do {
        mci_write_reg b m (MCI_REG_MBOX1_VALID_AXI_USER_BASE + index * 4) v;
        return True })"

definition lock_mbox1_axi_user :: "'h bus \<Rightarrow> mci \<Rightarrow> usize \<Rightarrow> ('h, bool) io" where
  "lock_mbox1_axi_user b m index =
     (if index \<ge> MBOX_AXI_USER_COUNT then return False
      else do {
        mci_write_reg b m (MCI_REG_MBOX1_AXI_USER_LOCK_BASE + index * 4) MBOX_AXI_USER_LOCK_BIT;
        return True })"

section \<open>The flow status register\<close>

abbreviation mci_flow_addr :: "mci \<Rightarrow> u32" where
  "mci_flow_addr m \<equiv> mci_base m + MCI_REG_FW_FLOW_STATUS"

lemma set_flow_checkpoint_run:
  "run_state (set_flow_checkpoint b m c) s =
     (let v = fst (bus_read b (mci_flow_addr m) (hw s));
          s1 = snd (run_state (mmio_read b (mci_flow_addr m)) s)
      in run_state (mmio_write b (mci_flow_addr m) (of_halves (high_half v) c)) s1)"
  by (simp add: set_flow_checkpoint_def flow_milestone_def flow_status_def set_flow_status_def
      io_defs run_mmio of_halves_def high_half_def Let_def)

lemma set_flow_milestone_run:
  "run_state (set_flow_milestone b m ms) s =
     (let v = fst (bus_read b (mci_flow_addr m) (hw s));
          s1 = snd (run_state (mmio_read b (mci_flow_addr m)) s)
      in run_state (mmio_write b (mci_flow_addr m)
           (of_halves (ms OR high_half v) (low_half v))) s1)"
proof -
  have *: "push_bit 16 (ucast ms) OR w = of_halves (ms OR high_half w) (low_half w)" for w :: u32
    using high_half_or [of ms w] low_half_or [of ms w] of_halves_split [of "push_bit 16 (ucast ms) OR w"]
    by simp
  show ?thesis
    by (simp add: set_flow_milestone_def flow_status_def set_flow_status_def io_defs run_mmio *
        Let_def del: push_bit_eq_mult)
qed

lemma set_flow_checkpoint_trace:
  "trace (snd (run_state (set_flow_checkpoint b m c) s)) =
     (let v = fst (bus_read b (mci_flow_addr m) (hw s))
      in trace s @ [Rd (mci_flow_addr m) v, Wr (mci_flow_addr m) (of_halves (high_half v) c)])"
  by (simp add: set_flow_checkpoint_run run_mmio Let_def)

lemma set_flow_milestone_trace:
  "trace (snd (run_state (set_flow_milestone b m ms) s)) =
     (let v = fst (bus_read b (mci_flow_addr m) (hw s))
      in trace s @ [Rd (mci_flow_addr m) v,
           Wr (mci_flow_addr m) (of_halves (ms OR high_half v) (low_half v))])"
  by (simp add: set_flow_milestone_run run_mmio Let_def)

lemma set_flow_checkpoint_view:
  "storage_reg b (mci_flow_addr m) view \<Longrightarrow>
     view (hw (snd (run_state (set_flow_checkpoint b m c) s)))
       = of_halves (high_half (view (hw s))) c"
  by (simp add: set_flow_checkpoint_run run_mmio Let_def storage)

lemma set_flow_milestone_view:
  "storage_reg b (mci_flow_addr m) view \<Longrightarrow>
     view (hw (snd (run_state (set_flow_milestone b m ms) s)))
       = of_halves (ms OR high_half (view (hw s))) (low_half (view (hw s)))"
  by (simp add: set_flow_milestone_run run_mmio Let_def storage)

lemma set_flow_frame [frame]:
  "uart (snd (run_state (set_flow_checkpoint b m c) s)) = uart s"
  "uart (snd (run_state (set_flow_milestone b m ms) s)) = uart s"
  "g_writer (snd (run_state (set_flow_checkpoint b m c) s)) = g_writer s"
  "g_writer (snd (run_state (set_flow_milestone b m ms) s)) = g_writer s"
  "g_fatal_handler (snd (run_state (set_flow_checkpoint b m c) s)) = g_fatal_handler s"
  "g_fatal_handler (snd (run_state (set_flow_milestone b m ms) s)) = g_fatal_handler s"
  by (simp_all add: set_flow_checkpoint_run set_flow_milestone_run run_mmio Let_def)

lemma flow_milestone_value:
  "storage_reg b (mci_flow_addr m) view \<Longrightarrow>
     fst (run_state (flow_milestone b m) s) = high_half (view (hw s))"
  by (simp add: flow_milestone_def flow_status_def mci_regs.rd_storage high_half_def)

lemma ucast_mask16: "ucast (w AND 0xFFFF) = (ucast w :: u16)" for w :: u32
proof -
  have "w AND 0xFFFF = take_bit 16 w" by (simp add: take_bit_eq_mask mask_eq_exp_minus_1)
  then show ?thesis
    by (auto intro!: bit_word_eqI simp: bit_simps)
qed

lemma flow_checkpoint_value:
  "storage_reg b (mci_flow_addr m) view \<Longrightarrow>
     fst (run_state (flow_checkpoint b m) s) = low_half (view (hw s))"
  by (simp add: flow_checkpoint_def flow_status_def mci_regs.rd_storage low_half_def ucast_mask16)

text \<open>
  The specification of the register: a set of milestones that only grows, and the last
  checkpoint. A run of the two setters is a list of updates.
\<close>

datatype flow_update = Checkpoint u16 | Milestone u16

fun do_update :: "'h bus \<Rightarrow> mci \<Rightarrow> flow_update \<Rightarrow> ('h, unit) io" where
  "do_update b m (Checkpoint c) = set_flow_checkpoint b m c"
| "do_update b m (Milestone ms) = set_flow_milestone b m ms"

fun do_updates :: "'h bus \<Rightarrow> mci \<Rightarrow> flow_update list \<Rightarrow> ('h, unit) io" where
  "do_updates b m [] = return ()"
| "do_updates b m (u # us) = do { do_update b m u; do_updates b m us }"

fun spec_update :: "u16 \<times> u16 \<Rightarrow> flow_update \<Rightarrow> u16 \<times> u16" where
  "spec_update (mss, cp) (Checkpoint c) = (mss, c)"
| "spec_update (mss, cp) (Milestone ms) = (mss OR ms, cp)"

definition flow_abs :: "u32 \<Rightarrow> u16 \<times> u16" where
  "flow_abs w = (high_half w, low_half w)"

lemma do_update_refines:
  "storage_reg b (mci_flow_addr m) view \<Longrightarrow>
     flow_abs (view (hw (snd (run_state (do_update b m u) s))))
       = spec_update (flow_abs (view (hw s))) u"
  by (cases u)
    (simp_all add: flow_abs_def set_flow_checkpoint_view set_flow_milestone_view or.commute)

lemma do_updates_refine:
  "storage_reg b (mci_flow_addr m) view \<Longrightarrow>
     flow_abs (view (hw (snd (run_state (do_updates b m us) s))))
       = foldl spec_update (flow_abs (view (hw s))) us"
  by (induction us arbitrary: s) (simp_all add: do_update_refines)

section \<open>Decoding\<close>

lemma and7_cases: "w AND 7 \<in> {0, 1, 2, 3, 4, 5, 6, 7}" for w :: u32
proof -
  have "w AND 7 \<le> 7" by (rule word_and_le1)
  then have "unat (w AND 7) \<le> 7" by (simp add: word_le_nat_alt)
  then have "unat (w AND 7) \<in> {0, 1, 2, 3, 4, 5, 6, 7}" by auto
  then show ?thesis by (auto simp: word_unat_eq_iff)
qed

lemma reset_reason_of_low: "reset_reason_of w = reset_reason_of (w AND 7)"
  by (simp add: reset_reason_of_def reg_offsets and.assoc)

lemma reset_reason_of_eq:
  "reset_reason_of w =
     (if w AND 7 = 0 then ColdBoot else if w AND 7 = 1 then WarmReset
      else if w AND 7 = 2 then FirmwareBootReset else if w AND 7 = 4 then FirmwareHitlessUpdate
      else Invalid)"
  using and7_cases [of w]
  by (subst reset_reason_of_low) (elim insertE; simp add: reset_reason_of_def reg_offsets)

lemma device_lifecycle_state_of_eq:
  "device_lifecycle_state_of w =
     [DeviceUnprovisioned, DeviceManufacturing, DeviceProvisioned, DeviceSecurityLocked]
       ! unat (w AND 3)"
proof -
  have "w AND 3 \<le> 3" by (rule word_and_le1)
  then have "w AND 3 \<in> {0, 1, 2, 3}" by (simp, unat_arith)
  then show ?thesis
    by (elim insertE; simp add: device_lifecycle_state_of_def)
qed

section \<open>The register map\<close>

definition mci_register_offsets :: "usize list" where
  "mci_register_offsets =
     [MCI_REG_SECURITY_STATE, MCI_REG_CPTRA_BOOT_GO, MCI_REG_FW_FLOW_STATUS,
      MCI_REG_FW_ERROR_FATAL, MCI_REG_HW_FLOW_STATUS, MCI_REG_MCU_NMI_VECTOR,
      MCI_REG_WDT_TIMER1_TIMEOUT_PERIOD_0, MCI_REG_WDT_TIMER1_TIMEOUT_PERIOD_1,
      MCI_REG_WDT_TIMER2_TIMEOUT_PERIOD_0, MCI_REG_WDT_TIMER2_TIMEOUT_PERIOD_1,
      MCI_REG_WDT_TIMER1_CTRL, MCI_REG_WDT_TIMER1_EN, MCI_REG_RESET_REASON,
      MCI_REG_RESET_REQUEST, MCI_REG_SS_CONFIG_DONE_STICKY, MCI_REG_SS_CONFIG_DONE]
     @ map (\<lambda>i. MCI_REG_PROD_DEBUG_UNLOCK_PK_HASH_BASE + i * 4) [0, 1, 2, 3, 4, 5, 6, 7, 8, 9, 10, 11]
     @ map (\<lambda>i. MCI_REG_MBOX0_VALID_AXI_USER_BASE + i * 4) [0, 1, 2, 3, 4, 5, 6, 7]
     @ map (\<lambda>i. MCI_REG_MBOX0_AXI_USER_LOCK_BASE + i * 4) [0, 1, 2, 3, 4, 5, 6, 7]
     @ map (\<lambda>i. MCI_REG_MBOX1_VALID_AXI_USER_BASE + i * 4) [0, 1, 2, 3, 4, 5, 6, 7]
     @ map (\<lambda>i. MCI_REG_MBOX1_AXI_USER_LOCK_BASE + i * 4) [0, 1, 2, 3, 4, 5, 6, 7]
     @ [MCI_REG_NOTIF0_INTR_TRIG_R, MCI_REG_NOTIF0_INTERNAL_INTR_R]
     @ map (\<lambda>i. MCI_REG_GENERIC_INPUT_WIRES_BASE + i * 4) [0, 1]"

lemma mci_offsets_increasing: "sorted_wrt (<) (map unat mci_register_offsets)"
  by (simp add: mci_register_offsets_def reg_offsets)

lemma mci_offsets_distinct: "distinct mci_register_offsets"
  using mci_offsets_increasing strict_sorted_iff distinct_map by blast

section \<open>The mailbox user registers\<close>

lemma below_8_word: "i < 8 \<Longrightarrow> i \<in> {0, 1, 2, 3, 4, 5, 6, 7}" for i :: u32
  by (simp, unat_arith)

text \<open>
  The two mailboxes have the same four operations, each on a bank of eight user registers
  and a bank of eight lock registers.
\<close>

locale axi_bank =
  fixes b :: "'h bus" and base vbase lbase :: u32
    and wr_user :: "usize \<Rightarrow> u32 \<Rightarrow> ('h, bool) io"
    and lock :: "usize \<Rightarrow> ('h, bool) io"
    and rd_user :: "usize \<Rightarrow> ('h, u32 option) io"
    and rd_lock :: "usize \<Rightarrow> ('h, bool option) io"
  assumes wr_user_run: "run_state (wr_user i v) s =
      (if i < 8 then (True, snd (run_state (mmio_write b (base + (vbase + i * 4)) v) s)) else (False, s))"
    and lock_run: "run_state (lock i) s =
      (if i < 8 then (True, snd (run_state (mmio_write b (base + (lbase + i * 4)) 1) s)) else (False, s))"
    and rd_user_run: "run_state (rd_user i) s =
      (if i < 8 then (Some (fst (bus_read b (base + (vbase + i * 4)) (hw s))),
                      snd (run_state (mmio_read b (base + (vbase + i * 4))) s)) else (None, s))"
    and rd_lock_run: "run_state (rd_lock i) s =
      (if i < 8 then (Some (fst (bus_read b (base + (lbase + i * 4)) (hw s)) AND 1 \<noteq> 0),
                      snd (run_state (mmio_read b (base + (lbase + i * 4))) s)) else (None, s))"
    and banks_apart: "i < 8 \<Longrightarrow> j < 8 \<Longrightarrow> vbase + i * 4 \<noteq> lbase + j * 4"
begin

lemma out_of_range:
  "\<not> i < 8 \<Longrightarrow> run_state (wr_user i v) s = (False, s) \<and> run_state (lock i) s = (False, s) \<and>
     run_state (rd_user i) s = (None, s) \<and> run_state (rd_lock i) s = (None, s)"
  by (simp add: wr_user_run lock_run rd_user_run rd_lock_run)

lemma same_index: "i < 8 \<Longrightarrow> j < 8 \<Longrightarrow> a + i * 4 = a + j * 4 \<longleftrightarrow> i = j" for a :: u32
  by (rule index_addr_inj) (simp_all add: word_less_nat_alt)

lemma set_and_lock:
  assumes "i < 8" "storage_block b {base + (vbase + i * 4), base + (lbase + i * 4)} view"
  shows "fst (run_state (do { wr_user i v; lock i; u \<leftarrow> rd_user i; l \<leftarrow> rd_lock i; return (u, l) }) s)
       = (Some v, Some True)"
  using assms banks_apart [of i i]
  by (simp add: wr_user_run lock_run rd_user_run rd_lock_run run_mmio block)

lemma others_untouched:
  assumes "i < 8" "j < 8" "i \<noteq> j"
    "storage_block b {base + (vbase + j * 4), base + (lbase + j * 4)} view"
  shows "view (hw (snd (run_state (do { wr_user i v; lock i }) s))) (base + (vbase + j * 4))
           = view (hw s) (base + (vbase + j * 4)) \<and>
         view (hw (snd (run_state (do { wr_user i v; lock i }) s))) (base + (lbase + j * 4))
           = view (hw s) (base + (lbase + j * 4))"
  using assms banks_apart [of i j] banks_apart [of j i] same_index [of i j]
  by (simp add: wr_user_run lock_run run_mmio block)

end

lemma axi_banks_apart:
  "i < 8 \<Longrightarrow> j < 8 \<Longrightarrow> 0x80 + i * 4 \<noteq> 0xA0 + j * (4 :: u32)"
  "i < 8 \<Longrightarrow> j < 8 \<Longrightarrow> 0xC0 + i * 4 \<noteq> 0xE0 + j * (4 :: u32)"
  by (drule below_8_word, drule below_8_word, elim insertE; simp)+

interpretation mbox0: axi_bank b "mci_base m" MCI_REG_MBOX0_VALID_AXI_USER_BASE
  MCI_REG_MBOX0_AXI_USER_LOCK_BASE "write_mbox0_valid_axi_user b m" "lock_mbox0_axi_user b m"
  "read_mbox0_valid_axi_user b m" "read_mbox0_axi_user_lock b m" for b m
  by unfold_locales
    (auto simp: write_mbox0_valid_axi_user_def lock_mbox0_axi_user_def read_mbox0_valid_axi_user_def
      read_mbox0_axi_user_lock_def io_defs run_mmio reg_offsets axi_banks_apart not_le)

interpretation mbox1: axi_bank b "mci_base m" MCI_REG_MBOX1_VALID_AXI_USER_BASE
  MCI_REG_MBOX1_AXI_USER_LOCK_BASE "write_mbox1_valid_axi_user b m" "lock_mbox1_axi_user b m"
  "read_mbox1_valid_axi_user b m" "read_mbox1_axi_user_lock b m" for b m
  by unfold_locales
    (auto simp: write_mbox1_valid_axi_user_def lock_mbox1_axi_user_def read_mbox1_valid_axi_user_def
      read_mbox1_axi_user_lock_def io_defs run_mmio reg_offsets axi_banks_apart not_le)

section \<open>Interrupt and watchdog\<close>

lemma mci_handle_interrupt_trace:
  fixes b :: "'h bus"
  defines "ia \<equiv> \<lambda>m. mci_base m + MCI_REG_NOTIF0_INTERNAL_INTR_R"
    and "ra \<equiv> \<lambda>m. mci_base m + MCI_REG_RESET_REQUEST"
  shows "\<exists>v v2 v3. trace (snd (run_state (mci_handle_interrupt b m) s)) =
     trace s @ Rd (ia m) v #
       (if v AND 2 = 0 then []
        else [Rd (ia m) v2, Wr (ia m) (v2 OR 2), Rd (ra m) v3, Wr (ra m) (v3 OR 1)])"
proof -
  have *: "(w AND NOT k) OR k = w OR k" for w k :: u32
    by (rule bit_word_eqI) (auto simp: bit_simps)
  show ?thesis
    using * [of _ 2] * [of _ 1]
    by (simp add: mci_handle_interrupt_def io_defs run_mmio reg_offsets ia_def ra_def)
qed

lemma configure_wdt_writes:
  "trace (snd (run_state (configure_wdt b m t1 t2) s)) = trace s @
     [Wr (mci_base m + 0x18) t1, Wr (mci_base m + 0x1C) 0,
      Wr (mci_base m + 0x20) t2, Wr (mci_base m + 0x24) 0,
      Wr (mci_base m + 0x28) 1, Wr (mci_base m + 0x2C) 1]"
  by (simp add: configure_wdt_def io_defs run_mmio reg_offsets)

section \<open>Properties\<close>

text \<open>
  C18. On a flow status register that stores what is written, any sequence of
  \<^verbatim>\<open>set_flow_checkpoint\<close> and \<^verbatim>\<open>set_flow_milestone\<close> calls does what the
  specification says: the milestones in the high half accumulate and the checkpoint in the
  low half is the last one set. Neither disturbs the other.
\<close>

theorem flow_status_refines:
  assumes "storage_reg b (mci_base m + MCI_REG_FW_FLOW_STATUS) view"
  shows "flow_abs (view (hw (snd (run_state (do_updates b m us) s)))) =
    foldl spec_update (flow_abs (view (hw s))) us"
  by (rule do_updates_refine [OF assms])

theorem flow_status_refines_witness:
  "flow_abs (hw (snd (run_state (do_updates ram_bus \<lparr>mci_base = 0\<rparr>
     [Checkpoint 5, Milestone 2, Checkpoint 9, Milestone 4]) (start_mach (\<lambda>_. 0)))) 0x08) = (6, 9)"
  using flow_status_refines [OF ram_storage, of "\<lparr>mci_base = 0\<rparr>"
      "[Checkpoint 5, Milestone 2, Checkpoint 9, Milestone 4]" "start_mach (\<lambda>_. 0)"]
  by (simp add: reg_offsets flow_abs_def high_half_def low_half_def)

text \<open>
  The reset reason is decided by the low three bits of its register: none set is a cold
  boot, exactly one set is the reset it names, and any combination is invalid.
\<close>

theorem reset_reason_classified:
  "fst (run_state (reset_reason_enum b m) s) =
     (let w = fst (bus_read b (mci_base m + MCI_REG_RESET_REASON) (hw s)) AND 7
      in if w = 0 then ColdBoot else if w = 1 then WarmReset else if w = 2 then FirmwareBootReset
         else if w = 4 then FirmwareHitlessUpdate else Invalid)"
  by (simp add: reset_reason_enum_def reset_reason_def mci_regs.rd_value reset_reason_of_eq Let_def)

text \<open>
  The interrupt handler reads the notification register once; only when Caliptra's reset
  request is pending does it write: it acknowledges that bit in the notification register
  and then raises the MCU request in the reset request register, keeping the other bits of
  both as it reads them.
\<close>

theorem handle_interrupt_protocol:
  "\<exists>v v2 v3. trace (snd (run_state (mci_handle_interrupt b m) s)) =
     trace s @ Rd (mci_base m + MCI_REG_NOTIF0_INTERNAL_INTR_R) v #
       (if v AND 2 = 0 then []
        else [Rd (mci_base m + MCI_REG_NOTIF0_INTERNAL_INTR_R) v2,
              Wr (mci_base m + MCI_REG_NOTIF0_INTERNAL_INTR_R) (v2 OR 2),
              Rd (mci_base m + MCI_REG_RESET_REQUEST) v3,
              Wr (mci_base m + MCI_REG_RESET_REQUEST) (v3 OR 1)])"
  by (rule mci_handle_interrupt_trace)

end
