(* ===== verification/Lifecycle.thy ===== *)
theory Lifecycle
  imports Machine
begin

text \<open>
  The lifecycle controller driver, \<^verbatim>\<open>src/rom/include/rom/lifecycle.hpp\<close> and
  \<^verbatim>\<open>src/rom/src/lifecycle.cpp\<close>. The driver keeps nothing but its base
  address; every query reads the state register again. The scoped enumerators carry the
  prefix \<open>LC_\<close> (detailed states) or \<open>LCC_\<close> (controller states).
\<close>

section \<open>States\<close>

datatype lifecycle_state =
    LC_Raw | LC_TestUnlocked0 | LC_TestLocked0 | LC_TestUnlocked1 | LC_TestLocked1
  | LC_TestUnlocked2 | LC_TestLocked2 | LC_TestUnlocked3 | LC_Dev | LC_Prod | LC_ProdEnd
  | LC_Rma | LC_Scrap | LC_Invalid

datatype lifecycle_controller_state =
    LCC_RawState | LCC_TestUnlocked | LCC_TestLocked | LCC_Dev | LCC_Prod | LCC_ProdEnd
  | LCC_Rma | LCC_Scrap | LCC_Invalid

text \<open>\<^verbatim>\<open>static_cast<uint32_t>\<close> of the detailed state.\<close>

fun lifecycle_code :: "lifecycle_state \<Rightarrow> u32" where
  "lifecycle_code LC_Raw = 0"
| "lifecycle_code LC_TestUnlocked0 = 1"
| "lifecycle_code LC_TestLocked0 = 2"
| "lifecycle_code LC_TestUnlocked1 = 3"
| "lifecycle_code LC_TestLocked1 = 4"
| "lifecycle_code LC_TestUnlocked2 = 5"
| "lifecycle_code LC_TestLocked2 = 6"
| "lifecycle_code LC_TestUnlocked3 = 7"
| "lifecycle_code LC_Dev = 8"
| "lifecycle_code LC_Prod = 9"
| "lifecycle_code LC_ProdEnd = 10"
| "lifecycle_code LC_Rma = 11"
| "lifecycle_code LC_Scrap = 12"
| "lifecycle_code LC_Invalid = 0xFF"

section \<open>Registers\<close>

record lifecycle =
  lc_base :: uintptr

definition LC_REG_STATE :: usize where [reg_offsets]: "LC_REG_STATE = 0x00"

definition LC_REG_STATUS :: usize where [reg_offsets]: "LC_REG_STATUS = 0x04"

definition LC_REG_TRANSITION_CMD :: usize where [reg_offsets]: "LC_REG_TRANSITION_CMD = 0x08"

definition LC_REG_TRANSITION_TOKEN_BASE :: usize where [reg_offsets]:
  "LC_REG_TRANSITION_TOKEN_BASE = 0x10"

definition TRANSITION_TOKEN_COUNT :: usize where [reg_offsets]: "TRANSITION_TOKEN_COUNT = 4"

definition lc_read_reg :: "'h bus \<Rightarrow> lifecycle \<Rightarrow> usize \<Rightarrow> ('h, u32) io" where [io_defs]:
  "lc_read_reg b l offset = mmio_read b (lc_base l + offset)"

definition lc_write_reg :: "'h bus \<Rightarrow> lifecycle \<Rightarrow> usize \<Rightarrow> u32 \<Rightarrow> ('h, unit) io" where [io_defs]:
  "lc_write_reg b l offset v = mmio_write b (lc_base l + offset) v"

interpretation lc_regs: register_block b "lc_base l" "lc_read_reg b l" "lc_write_reg b l" for b l
  by unfold_locales (simp_all add: io_defs)

section \<open>Operations\<close>

definition new_lifecycle :: "uintptr \<Rightarrow> lifecycle" where
  "new_lifecycle base_addr = \<lparr>lc_base = base_addr\<rparr>"

definition lifecycle_state_of :: "u32 \<Rightarrow> lifecycle_state" where
  "lifecycle_state_of w =
     (let state_val = w AND 0x1F in
      if state_val = 0 then LC_Raw
      else if state_val = 1 then LC_TestUnlocked0
      else if state_val = 2 then LC_TestLocked0
      else if state_val = 3 then LC_TestUnlocked1
      else if state_val = 4 then LC_TestLocked1
      else if state_val = 5 then LC_TestUnlocked2
      else if state_val = 6 then LC_TestLocked2
      else if state_val = 7 then LC_TestUnlocked3
      else if state_val = 8 then LC_Dev
      else if state_val = 9 then LC_Prod
      else if state_val = 10 then LC_ProdEnd
      else if state_val = 11 then LC_Rma
      else if state_val = 12 then LC_Scrap
      else LC_Invalid)"

definition lc_state :: "'h bus \<Rightarrow> lifecycle \<Rightarrow> ('h, lifecycle_state) io" where
  "lc_state b l = do {
     w \<leftarrow> lc_read_reg b l LC_REG_STATE;
     return (lifecycle_state_of w) }"

fun controller_state_of :: "lifecycle_state \<Rightarrow> lifecycle_controller_state" where
  "controller_state_of LC_Raw = LCC_RawState"
| "controller_state_of LC_TestUnlocked0 = LCC_TestUnlocked"
| "controller_state_of LC_TestUnlocked1 = LCC_TestUnlocked"
| "controller_state_of LC_TestUnlocked2 = LCC_TestUnlocked"
| "controller_state_of LC_TestUnlocked3 = LCC_TestUnlocked"
| "controller_state_of LC_TestLocked0 = LCC_TestLocked"
| "controller_state_of LC_TestLocked1 = LCC_TestLocked"
| "controller_state_of LC_TestLocked2 = LCC_TestLocked"
| "controller_state_of LC_Dev = LCC_Dev"
| "controller_state_of LC_Prod = LCC_Prod"
| "controller_state_of LC_ProdEnd = LCC_ProdEnd"
| "controller_state_of LC_Rma = LCC_Rma"
| "controller_state_of LC_Scrap = LCC_Scrap"
| "controller_state_of LC_Invalid = LCC_Invalid"

definition lc_current_state :: "'h bus \<Rightarrow> lifecycle \<Rightarrow> ('h, lifecycle_controller_state) io" where
  "lc_current_state b l = do { s \<leftarrow> lc_state b l; return (controller_state_of s) }"

definition lc_is_initialized :: "'h bus \<Rightarrow> lifecycle \<Rightarrow> ('h, bool) io" where
  "lc_is_initialized b l = do {
     w \<leftarrow> lc_read_reg b l LC_REG_STATUS;
     return (w AND 0x01 \<noteq> 0) }"

definition lc_status :: "'h bus \<Rightarrow> lifecycle \<Rightarrow> ('h, u32) io" where
  "lc_status b l = lc_read_reg b l LC_REG_STATUS"

definition lc_is_manufacturing :: "'h bus \<Rightarrow> lifecycle \<Rightarrow> ('h, bool) io" where
  "lc_is_manufacturing b l = do {
     s \<leftarrow> lc_state b l;
     return (s = LC_Raw \<or> s = LC_TestUnlocked0 \<or> s = LC_TestUnlocked1 \<or> s = LC_TestUnlocked2 \<or>
             s = LC_TestUnlocked3 \<or> s = LC_TestLocked0 \<or> s = LC_TestLocked1 \<or> s = LC_TestLocked2) }"

definition lc_is_production :: "'h bus \<Rightarrow> lifecycle \<Rightarrow> ('h, bool) io" where
  "lc_is_production b l = do { s \<leftarrow> lc_state b l; return (s = LC_Prod \<or> s = LC_ProdEnd) }"

definition lc_is_rma :: "'h bus \<Rightarrow> lifecycle \<Rightarrow> ('h, bool) io" where
  "lc_is_rma b l = do { s \<leftarrow> lc_state b l; return (s = LC_Rma) }"

definition lc_is_dev :: "'h bus \<Rightarrow> lifecycle \<Rightarrow> ('h, bool) io" where
  "lc_is_dev b l = do { s \<leftarrow> lc_state b l; return (s = LC_Dev) }"

definition lc_is_debug_locked :: "'h bus \<Rightarrow> lifecycle \<Rightarrow> ('h, bool) io" where
  "lc_is_debug_locked b l = do {
     s \<leftarrow> lc_state b l;
     return (s = LC_Prod \<or> s = LC_ProdEnd \<or> s = LC_TestLocked0 \<or> s = LC_TestLocked1 \<or>
             s = LC_TestLocked2) }"

definition lc_request_transition :: "'h bus \<Rightarrow> lifecycle \<Rightarrow> lifecycle_state \<Rightarrow> ('h, unit result) io" where
  "lc_request_transition b l target_state = do {
     lc_write_reg b l LC_REG_TRANSITION_CMD (lifecycle_code target_state);
     return (Ok ()) }"

definition lc_transition_token_count :: "lifecycle \<Rightarrow> u32" where
  "lc_transition_token_count l = TRANSITION_TOKEN_COUNT"

definition lc_write_transition_token :: "'h bus \<Rightarrow> lifecycle \<Rightarrow> usize \<Rightarrow> u32 \<Rightarrow> ('h, unit result) io" where
  "lc_write_transition_token b l index v =
     (if index \<ge> TRANSITION_TOKEN_COUNT then return (Err INVALID_PARAMETER)
      else do {
        lc_write_reg b l (LC_REG_TRANSITION_TOKEN_BASE + index * 4) v;
        return (Ok ()) })"

section \<open>Decoding\<close>

definition lifecycle_table :: "lifecycle_state list" where
  "lifecycle_table =
     [LC_Raw, LC_TestUnlocked0, LC_TestLocked0, LC_TestUnlocked1, LC_TestLocked1, LC_TestUnlocked2,
      LC_TestLocked2, LC_TestUnlocked3, LC_Dev, LC_Prod, LC_ProdEnd, LC_Rma, LC_Scrap]"

lemma lifecycle_code_table:
  "map lifecycle_code lifecycle_table = map of_nat [0..<13]"
  by (simp add: lifecycle_table_def upt_rec)

lemma lifecycle_decode_code [simp]: "lifecycle_state_of (lifecycle_code s) = s"
  by (cases s) (simp_all add: lifecycle_state_of_def)

lemma lifecycle_code_inj: "inj lifecycle_code"
  by (rule injI) (metis lifecycle_decode_code)

text \<open>The numeric order of the enumeration makes the states a linear order.\<close>

instantiation lifecycle_state :: linorder
begin

definition less_eq_lifecycle_state :: "lifecycle_state \<Rightarrow> lifecycle_state \<Rightarrow> bool" where
  "less_eq_lifecycle_state a c \<longleftrightarrow> lifecycle_code a \<le> lifecycle_code c"

definition less_lifecycle_state :: "lifecycle_state \<Rightarrow> lifecycle_state \<Rightarrow> bool" where
  "less_lifecycle_state a c \<longleftrightarrow> lifecycle_code a < lifecycle_code c"

instance
proof
  fix x y z :: lifecycle_state
  show "x \<le> y \<Longrightarrow> y \<le> x \<Longrightarrow> x = y"
    using lifecycle_code_inj by (auto simp: less_eq_lifecycle_state_def dest: injD)
  show "x < y \<longleftrightarrow> x \<le> y \<and> \<not> y \<le> x"
    by (auto simp: less_eq_lifecycle_state_def less_lifecycle_state_def)
qed (auto simp: less_eq_lifecycle_state_def)

end

lemma and_31_nat: "unat (w AND 0x1F) < 32" for w :: u32
proof -
  have "w AND 0x1F \<le> 0x1F" by (rule word_and_le1)
  then have "unat (w AND 0x1F) \<le> unat (0x1F :: u32)" by (simp only: word_le_nat_alt)
  then show ?thesis by simp
qed

lemma lifecycle_state_of_eq:
  "lifecycle_state_of w =
     (let i = unat (w AND 0x1F) in if i < 13 then lifecycle_table ! i else LC_Invalid)"
proof (cases "unat (w AND 0x1F) < 13")
  case True
  then have "w AND 0x1F \<in> {0, 1, 2, 3, 4, 5, 6, 7, 8, 9, 10, 11, 12}"
    by (simp add: word_unat_eq_iff) presburger
  then show ?thesis
    by (elim insertE) (simp_all add: lifecycle_state_of_def lifecycle_table_def)
next
  case False
  then have "w AND 0x1F \<noteq> of_nat k" if "k < 13" for k
    using that by (auto simp: word_unat_eq_iff unat_of_nat)
  from this [of 0] this [of 1] this [of 2] this [of 3] this [of 4] this [of 5] this [of 6]
    this [of 7] this [of 8] this [of 9] this [of 10] this [of 11] this [of 12]
  show ?thesis using False by (simp add: lifecycle_state_of_def Let_def)
qed

text \<open>What each query answers, as a function of the state register.\<close>

lemmas lc_queries = lc_is_manufacturing_def lc_is_production_def lc_is_rma_def lc_is_dev_def
  lc_is_debug_locked_def lc_current_state_def lc_state_def

section \<open>Properties\<close>

text \<open>
  The state register's low five bits decode by the table of the thirteen states, and
  everything above it is invalid; writing a state's code and decoding it gives the state
  back, the invalid state included.
\<close>

theorem lifecycle_decoding:
  "lifecycle_state_of w =
     (let i = unat (w AND 0x1F) in if i < 13 then lifecycle_table ! i else LC_Invalid) \<and>
   lifecycle_state_of (lifecycle_code st) = st"
  using lifecycle_state_of_eq [of w] by simp

text \<open>
  C37. The queries of the driver agree with the controller state of the one read they make:
  manufacturing is raw or test, production is Prod or ProdEnd. Debug counts as locked in
  the production and test-locked states only, so it counts as unlocked in a scrapped
  device, in RMA and for a state value that does not decode.
\<close>

theorem lifecycle_queries_agree:
  "let st = controller_state_of (lifecycle_state_of (fst (bus_read b (lc_base l + LC_REG_STATE) (hw s))))
   in fst (run_state (lc_current_state b l) s) = st \<and>
     (fst (run_state (lc_is_manufacturing b l) s) \<longleftrightarrow> st \<in> {LCC_RawState, LCC_TestUnlocked, LCC_TestLocked}) \<and>
     (fst (run_state (lc_is_production b l) s) \<longleftrightarrow> st \<in> {LCC_Prod, LCC_ProdEnd}) \<and>
     (fst (run_state (lc_is_dev b l) s) \<longleftrightarrow> st = LCC_Dev) \<and>
     (fst (run_state (lc_is_rma b l) s) \<longleftrightarrow> st = LCC_Rma) \<and>
     (fst (run_state (lc_is_debug_locked b l) s) \<longleftrightarrow> st \<in> {LCC_Prod, LCC_ProdEnd, LCC_TestLocked})"
proof -
  let ?st = "lifecycle_state_of (fst (bus_read b (lc_base l + LC_REG_STATE) (hw s)))"
  show ?thesis
    by (cases ?st) (simp_all add: lc_queries lc_regs.rd_value)
qed

end
