(* ===== verification/I3c.thy ===== *)
theory I3c
  imports Machine
begin

text \<open>
  The I3C driver, \<^verbatim>\<open>src/rom/include/rom/i3c.hpp\<close> and
  \<^verbatim>\<open>src/rom/src/i3c.cpp\<close>. The two byte loops wait for the FIFO with no
  timeout, so their models carry fuel for each wait.
\<close>

section \<open>Data and registers\<close>

datatype i3c_direction = I3cWrite | I3cRead

record i3c_transfer_result =
  bytes_transferred :: usize
  success :: bool
  transfer_error_code :: u8

record i3c =
  i3c_base :: uintptr

definition I3C_REG_CTRL :: usize where [reg_offsets]: "I3C_REG_CTRL = 0x00"

definition I3C_REG_STATUS :: usize where [reg_offsets]: "I3C_REG_STATUS = 0x04"

definition I3C_REG_DYNAMIC_ADDR :: usize where [reg_offsets]: "I3C_REG_DYNAMIC_ADDR = 0x08"

definition I3C_REG_TX_FIFO :: usize where [reg_offsets]: "I3C_REG_TX_FIFO = 0x10"

definition I3C_REG_RX_FIFO :: usize where [reg_offsets]: "I3C_REG_RX_FIFO = 0x14"

definition I3C_REG_TX_FIFO_STATUS :: usize where [reg_offsets]: "I3C_REG_TX_FIFO_STATUS = 0x18"

definition I3C_REG_RX_FIFO_STATUS :: usize where [reg_offsets]: "I3C_REG_RX_FIFO_STATUS = 0x1C"

definition I3C_REG_INTR_STATUS :: usize where [reg_offsets]: "I3C_REG_INTR_STATUS = 0x20"

definition I3C_REG_INTR_ENABLE :: usize where [reg_offsets]: "I3C_REG_INTR_ENABLE = 0x24"

definition CTRL_ENABLE :: u32 where [reg_offsets]: "CTRL_ENABLE = 0x01"

definition CTRL_TX_FIFO_RST :: u32 where [reg_offsets]: "CTRL_TX_FIFO_RST = 0x02"

definition CTRL_RX_FIFO_RST :: u32 where [reg_offsets]: "CTRL_RX_FIFO_RST = 0x04"

definition STATUS_TRANSFER_PENDING :: u32 where [reg_offsets]: "STATUS_TRANSFER_PENDING = 0x01"

definition i3c_read_reg :: "'h bus \<Rightarrow> i3c \<Rightarrow> usize \<Rightarrow> ('h, u32) io" where [io_defs]:
  "i3c_read_reg b p offset = mmio_read b (i3c_base p + offset)"

definition i3c_write_reg :: "'h bus \<Rightarrow> i3c \<Rightarrow> usize \<Rightarrow> u32 \<Rightarrow> ('h, unit) io" where [io_defs]:
  "i3c_write_reg b p offset v = mmio_write b (i3c_base p + offset) v"

definition i3c_modify_reg :: "'h bus \<Rightarrow> i3c \<Rightarrow> usize \<Rightarrow> u32 \<Rightarrow> u32 \<Rightarrow> ('h, unit) io" where [io_defs]:
  "i3c_modify_reg b p offset msk v = do {
     current \<leftarrow> i3c_read_reg b p offset;
     i3c_write_reg b p offset ((current AND NOT msk) OR (v AND msk)) }"

interpretation i3c_regs: modifiable_block b "i3c_base p" "i3c_read_reg b p" "i3c_write_reg b p"
  "i3c_modify_reg b p" for b p
  by unfold_locales (simp_all add: io_defs Let_def)

section \<open>Operations\<close>

definition new_i3c :: "uintptr \<Rightarrow> i3c" where
  "new_i3c base_addr = \<lparr>i3c_base = base_addr\<rparr>"

definition i3c_clear_tx_fifo :: "'h bus \<Rightarrow> i3c \<Rightarrow> ('h, unit) io" where
  "i3c_clear_tx_fifo b p = do {
     i3c_modify_reg b p I3C_REG_CTRL CTRL_TX_FIFO_RST CTRL_TX_FIFO_RST;
     i3c_modify_reg b p I3C_REG_CTRL CTRL_TX_FIFO_RST 0 }"

definition i3c_clear_rx_fifo :: "'h bus \<Rightarrow> i3c \<Rightarrow> ('h, unit) io" where
  "i3c_clear_rx_fifo b p = do {
     i3c_modify_reg b p I3C_REG_CTRL CTRL_RX_FIFO_RST CTRL_RX_FIFO_RST;
     i3c_modify_reg b p I3C_REG_CTRL CTRL_RX_FIFO_RST 0 }"

definition i3c_is_enabled :: "'h bus \<Rightarrow> i3c \<Rightarrow> ('h, bool) io" where
  "i3c_is_enabled b p = do {
     w \<leftarrow> i3c_read_reg b p I3C_REG_CTRL;
     return (w AND CTRL_ENABLE \<noteq> 0) }"

definition i3c_enable :: "'h bus \<Rightarrow> i3c \<Rightarrow> ('h, unit) io" where
  "i3c_enable b p = i3c_modify_reg b p I3C_REG_CTRL CTRL_ENABLE CTRL_ENABLE"

definition i3c_disable :: "'h bus \<Rightarrow> i3c \<Rightarrow> ('h, unit) io" where
  "i3c_disable b p = i3c_modify_reg b p I3C_REG_CTRL CTRL_ENABLE 0"

definition i3c_init :: "'h bus \<Rightarrow> i3c \<Rightarrow> ('h, unit result) io" where
  "i3c_init b p = do {
     i3c_clear_tx_fifo b p;
     i3c_clear_rx_fifo b p;
     i3c_enable b p;
     return (Ok ()) }"

definition i3c_set_dynamic_address :: "'h bus \<Rightarrow> i3c \<Rightarrow> u8 \<Rightarrow> ('h, unit) io" where
  "i3c_set_dynamic_address b p addr = i3c_write_reg b p I3C_REG_DYNAMIC_ADDR (ucast addr)"

definition i3c_dynamic_address :: "'h bus \<Rightarrow> i3c \<Rightarrow> ('h, u8) io" where
  "i3c_dynamic_address b p = do {
     w \<leftarrow> i3c_read_reg b p I3C_REG_DYNAMIC_ADDR;
     return (ucast (w AND 0x7F)) }"

definition i3c_is_transfer_pending :: "'h bus \<Rightarrow> i3c \<Rightarrow> ('h, bool) io" where
  "i3c_is_transfer_pending b p = do {
     w \<leftarrow> i3c_read_reg b p I3C_REG_STATUS;
     return (w AND STATUS_TRANSFER_PENDING \<noteq> 0) }"

definition i3c_tx_fifo_level :: "'h bus \<Rightarrow> i3c \<Rightarrow> ('h, u32) io" where
  "i3c_tx_fifo_level b p = do {
     w \<leftarrow> i3c_read_reg b p I3C_REG_TX_FIFO_STATUS;
     return (w AND 0x1F) }"

definition i3c_rx_fifo_level :: "'h bus \<Rightarrow> i3c \<Rightarrow> ('h, u32) io" where
  "i3c_rx_fifo_level b p = do {
     w \<leftarrow> i3c_read_reg b p I3C_REG_RX_FIFO_STATUS;
     return (w AND 0x1F) }"

fun i3c_wait_tx :: "nat \<Rightarrow> 'h bus \<Rightarrow> i3c \<Rightarrow> ('h, unit outcome) io" where
  "i3c_wait_tx 0 b p = return NoFuel"
| "i3c_wait_tx (Suc fuel) b p = do {
     level \<leftarrow> i3c_tx_fifo_level b p;
     if level \<ge> 16 then i3c_wait_tx fuel b p else return (Returned ()) }"

fun i3c_wait_rx :: "nat \<Rightarrow> 'h bus \<Rightarrow> i3c \<Rightarrow> ('h, unit outcome) io" where
  "i3c_wait_rx 0 b p = return NoFuel"
| "i3c_wait_rx (Suc fuel) b p = do {
     level \<leftarrow> i3c_rx_fifo_level b p;
     if level = 0 then i3c_wait_rx fuel b p else return (Returned ()) }"

definition no_transfer :: i3c_transfer_result where
  "no_transfer = \<lparr>bytes_transferred = 0, success = True, transfer_error_code = 0\<rparr>"

fun i3c_write_from :: "nat \<Rightarrow> 'h bus \<Rightarrow> i3c \<Rightarrow> i3c_transfer_result \<Rightarrow> u8 list \<Rightarrow>
    ('h, i3c_transfer_result outcome) io" where
  "i3c_write_from fuel b p result [] = return (Returned result)"
| "i3c_write_from fuel b p result (d # ds) =
     then_run (i3c_wait_tx fuel b p) (\<lambda>_. do {
       i3c_write_reg b p I3C_REG_TX_FIFO (ucast d);
       i3c_write_from fuel b p (result\<lparr>bytes_transferred := bytes_transferred result + 1\<rparr>) ds })"

definition i3c_write :: "nat \<Rightarrow> 'h bus \<Rightarrow> i3c \<Rightarrow> u8 list \<Rightarrow> ('h, i3c_transfer_result outcome) io" where
  "i3c_write fuel b p data = i3c_write_from fuel b p no_transfer data"

text \<open>\<open>i3c_read_from\<close>: the loop at index \<open>i\<close> with \<open>n\<close> bytes to go.\<close>

fun i3c_read_from :: "nat \<Rightarrow> 'h bus \<Rightarrow> i3c \<Rightarrow> i3c_transfer_result \<Rightarrow> nat \<Rightarrow> nat \<Rightarrow> u8 list \<Rightarrow>
    ('h, (i3c_transfer_result \<times> u8 list) outcome) io" where
  "i3c_read_from fuel b p result i 0 buffer = return (Returned (result, buffer))"
| "i3c_read_from fuel b p result i (Suc n) buffer =
     then_run (i3c_wait_rx fuel b p) (\<lambda>_. do {
       w \<leftarrow> i3c_read_reg b p I3C_REG_RX_FIFO;
       i3c_read_from fuel b p (result\<lparr>bytes_transferred := bytes_transferred result + 1\<rparr>)
         (Suc i) n (buffer[i := ucast (w AND 0xFF)]) })"

definition i3c_read :: "nat \<Rightarrow> 'h bus \<Rightarrow> i3c \<Rightarrow> u8 list \<Rightarrow>
    ('h, (i3c_transfer_result \<times> u8 list) outcome) io" where
  "i3c_read fuel b p buffer = i3c_read_from fuel b p no_transfer 0 (length buffer) buffer"

definition i3c_handle_interrupt :: "'h bus \<Rightarrow> i3c \<Rightarrow> ('h, unit) io" where
  "i3c_handle_interrupt b p = do {
     intr_status \<leftarrow> i3c_read_reg b p I3C_REG_INTR_STATUS;
     i3c_write_reg b p I3C_REG_INTR_STATUS intr_status }"

section \<open>The waits\<close>

abbreviation i3c_reg :: "i3c \<Rightarrow> usize \<Rightarrow> u32" where
  "i3c_reg p off \<equiv> i3c_base p + off"

interpretation tx_wait: spin_wait b "i3c_reg p I3C_REG_TX_FIFO_STATUS"
    "\<lambda>v. v AND 0x1F < 16" "\<lambda>n. i3c_wait_tx n b p" for b p
  by unfold_locales (auto simp: i3c_tx_fifo_level_def io_defs run_mmio Let_def)

interpretation rx_wait: spin_wait b "i3c_reg p I3C_REG_RX_FIFO_STATUS"
    "\<lambda>v. v AND 0x1F \<noteq> 0" "\<lambda>n. i3c_wait_rx n b p" for b p
  by unfold_locales (auto simp: i3c_rx_fifo_level_def io_defs run_mmio Let_def)

section \<open>The byte loops\<close>

definition counted :: "i3c_transfer_result \<Rightarrow> nat \<Rightarrow> i3c_transfer_result" where
  "counted r n = r\<lparr>bytes_transferred := bytes_transferred r + of_nat n\<rparr>"

lemma counted_0 [simp]: "counted r 0 = r"
  by (simp add: counted_def)

lemma counted_step:
  "counted (r\<lparr>bytes_transferred := bytes_transferred r + 1\<rparr>) n = counted r (Suc n)"
  by (simp add: counted_def add.assoc)

text \<open>
  The bytes reach the FIFO in order and nothing else is written; a transfer that does not
  return has sent a proper prefix.
\<close>

lemma i3c_write_from_run:
  "\<exists>es k. trace (snd (run_state (i3c_write_from fuel b p r data) s)) = trace s @ es \<and>
     writes es = map (\<lambda>d. (i3c_reg p I3C_REG_TX_FIFO, ucast d)) (take k data) \<and>
     (k = length data \<and>
        fst (run_state (i3c_write_from fuel b p r data) s) = Returned (counted r (length data)) \<or>
      k < length data \<and> fst (run_state (i3c_write_from fuel b p r data) s) = NoFuel)"
proof (induction data arbitrary: r s)
  case Nil
  then show ?case by simp
next
  case (Cons d ds)
  obtain x s1 where w: "run_state (i3c_wait_tx fuel b p) s = (x, s1)"
    by (cases "run_state (i3c_wait_tx fuel b p) s")
  obtain vs where vs: "trace s1 = trace s @ map (Rd (i3c_reg p I3C_REG_TX_FIFO_STATUS)) vs"
    using tx_wait.spin_trace [of fuel b p s] w by auto
  show ?case
  proof (cases x)
    case (Returned u)
    define s2 where "s2 = snd (run_state (i3c_write_reg b p I3C_REG_TX_FIFO (ucast d)) s1)"
    have s2: "trace s2 = trace s1 @ [Wr (i3c_reg p I3C_REG_TX_FIFO) (ucast d)]"
      by (simp add: s2_def i3c_regs.wr_trace)
    have step: "run_state (i3c_write_from fuel b p r (d # ds)) s =
        run_state (i3c_write_from fuel b p (r\<lparr>bytes_transferred := bytes_transferred r + 1\<rparr>) ds) s2"
      using w Returned by (simp add: s2_def)
    obtain es k where "trace (snd (run_state (i3c_write_from fuel b p (r\<lparr>bytes_transferred :=
          bytes_transferred r + 1\<rparr>) ds) s2)) = trace s2 @ es"
      "writes es = map (\<lambda>d. (i3c_reg p I3C_REG_TX_FIFO, ucast d)) (take k ds)"
      "k = length ds \<and> fst (run_state (i3c_write_from fuel b p (r\<lparr>bytes_transferred :=
          bytes_transferred r + 1\<rparr>) ds) s2) = Returned (counted r (Suc (length ds))) \<or>
       k < length ds \<and> fst (run_state (i3c_write_from fuel b p (r\<lparr>bytes_transferred :=
          bytes_transferred r + 1\<rparr>) ds) s2) = NoFuel"
      using Cons.IH [of "r\<lparr>bytes_transferred := bytes_transferred r + 1\<rparr>" s2]
      unfolding counted_step by blast
    with vs s2 show ?thesis
      unfolding step
      by (intro exI [of _ "map (Rd (i3c_reg p I3C_REG_TX_FIFO_STATUS)) vs @
            Wr (i3c_reg p I3C_REG_TX_FIFO) (ucast d) # es"] exI [of _ "Suc k"]) auto
  qed (use w vs tx_wait.spin_outcome [of fuel b p s] in \<open>auto simp: run_then_run
        intro!: exI [of _ "map (Rd (i3c_reg p I3C_REG_TX_FIFO_STATUS)) vs"] exI [of _ 0]\<close>)
qed

text \<open>The values read from one register, in order.\<close>

fun read_from :: "u32 \<Rightarrow> event list \<Rightarrow> u32 list" where
  "read_from a [] = []"
| "read_from a (Rd x v # es) = (if x = a then v # read_from a es else read_from a es)"
| "read_from a (Wr x v # es) = read_from a es"

lemma read_from_append [simp]: "read_from a (xs @ ys) = read_from a xs @ read_from a ys"
  by (induction xs rule: read_from.induct [of _ a]) auto

lemma read_from_other [simp]: "x \<noteq> a \<Longrightarrow> read_from a (map (Rd x) vs) = []"
  by (induction vs) auto

lemma i3c_read_from_run:
  assumes "i + n = length buf"
  shows "\<exists>es k. trace (snd (run_state (i3c_read_from fuel b p r i n buf) s)) = trace s @ es \<and>
     writes es = [] \<and> length (read_from (i3c_reg p I3C_REG_RX_FIFO) es) = k \<and>
     (k = n \<and> fst (run_state (i3c_read_from fuel b p r i n buf) s) = Returned (counted r n,
        take i buf @ map (\<lambda>w. ucast (w AND 0xFF)) (read_from (i3c_reg p I3C_REG_RX_FIFO) es)) \<or>
      k < n \<and> fst (run_state (i3c_read_from fuel b p r i n buf) s) = NoFuel)"
  using assms
proof (induction n arbitrary: i r buf s)
  case 0
  then show ?case by (intro exI [of _ "[]"]) simp
next
  case (Suc n)
  obtain x s1 where w: "run_state (i3c_wait_rx fuel b p) s = (x, s1)"
    by (cases "run_state (i3c_wait_rx fuel b p) s")
  obtain vs where vs: "trace s1 = trace s @ map (Rd (i3c_reg p I3C_REG_RX_FIFO_STATUS)) vs"
    using rx_wait.spin_trace [of fuel b p s] w by auto
  have apart: "i3c_reg p I3C_REG_RX_FIFO_STATUS \<noteq> i3c_reg p I3C_REG_RX_FIFO"
    by (simp add: reg_offsets)
  show ?case
  proof (cases x)
    case (Returned u)
    define v where "v = fst (run_state (i3c_read_reg b p I3C_REG_RX_FIFO) s1)"
    define s2 where "s2 = snd (run_state (i3c_read_reg b p I3C_REG_RX_FIFO) s1)"
    define buf2 where "buf2 = buf[i := ucast (v AND 0xFF)]"
    have s2: "trace s2 = trace s1 @ [Rd (i3c_reg p I3C_REG_RX_FIFO) v]"
      by (simp add: s2_def v_def i3c_regs.rd_trace)
    let ?rest = "run_state (i3c_read_from fuel b p (r\<lparr>bytes_transferred := bytes_transferred r + 1\<rparr>)
      (Suc i) n buf2) s2"
    have step: "run_state (i3c_read_from fuel b p r i (Suc n) buf) s = ?rest"
      using w Returned by (simp add: s2_def v_def buf2_def)
    have tk: "take (Suc i) buf2 = take i buf @ [ucast (v AND 0xFF)]"
      using Suc.prems by (simp add: buf2_def take_Suc_conv_app_nth take_update_cancel)
    obtain es k where "trace (snd ?rest) = trace s2 @ es" "writes es = []"
      "length (read_from (i3c_reg p I3C_REG_RX_FIFO) es) = k"
      "k = n \<and> fst ?rest = Returned (counted r (Suc n), (take i buf @ [ucast (v AND 0xFF)]) @
         map (\<lambda>w. ucast (w AND 0xFF)) (read_from (i3c_reg p I3C_REG_RX_FIFO) es)) \<or>
       k < n \<and> fst ?rest = NoFuel"
      using Suc.IH [of "Suc i" buf2 "r\<lparr>bytes_transferred := bytes_transferred r + 1\<rparr>" s2] Suc.prems
      unfolding counted_step tk by (auto simp: buf2_def)
    with vs s2 apart show ?thesis
      unfolding step
      by (intro exI [of _ "map (Rd (i3c_reg p I3C_REG_RX_FIFO_STATUS)) vs @
            Rd (i3c_reg p I3C_REG_RX_FIFO) v # es"] exI [of _ "Suc k"]) auto
  qed (use w vs apart rx_wait.spin_outcome [of fuel b p s] in \<open>auto simp: run_then_run
        intro!: exI [of _ "map (Rd (i3c_reg p I3C_REG_RX_FIFO_STATUS)) vs"]\<close>)
qed

text \<open>A transmit FIFO that always has room, and a receive FIFO that stays empty.\<close>

lemma i3c_write_returns:
  assumes "0 < fuel" "\<forall>h. fst (bus_read b (i3c_reg p I3C_REG_TX_FIFO_STATUS) h) AND 0x1F < 16"
  shows "fst (run_state (i3c_write_from fuel b p r data) s) = Returned (counted r (length data))"
proof (induction data arbitrary: r s)
  case (Cons d ds)
  obtain n where "fuel = Suc n" using assms(1) by (cases fuel) auto
  then have "fst (run_state (i3c_wait_tx fuel b p) s) = Returned ()"
    using assms(2) by (simp add: tx_wait.spin_Suc Let_def run_mmio del: i3c_wait_tx.simps)
  then show ?case using Cons by (simp add: counted_step)
qed simp

lemma i3c_read_starves:
  assumes "\<forall>h. fst (bus_read b (i3c_reg p I3C_REG_RX_FIFO_STATUS) h) AND 0x1F = 0" "0 < n"
  shows "fst (run_state (i3c_read_from fuel b p r i n buf) s) = NoFuel"
proof -
  have never: "polled b (i3c_reg p I3C_REG_RX_FIFO_STATUS) k h AND 0x1F = 0" for k h
    using assms(1) by (induction k arbitrary: h) auto
  obtain m where "n = Suc m" using assms(2) by (cases n) auto
  then show ?thesis
    using rx_wait.spin_result [of fuel b p s] by (simp add: never run_then_run)
qed

section \<open>Properties\<close>

text \<open>
  C29. \<^verbatim>\<open>write\<close> puts the bytes into the transmit FIFO one by one and in order and
  writes no other register. If it returns, all of them are there and the count says so; cut
  off while it waits, it has sent a proper prefix.
\<close>

theorem i3c_write_in_order:
  "let res = run_state (i3c_write fuel b p data) s
   in \<exists>es k. trace (snd res) = trace s @ es \<and>
     writes es = map (\<lambda>d. (i3c_reg p I3C_REG_TX_FIFO, ucast d)) (take k data) \<and>
     (k = length data \<and> fst res = Returned \<lparr>bytes_transferred = of_nat (length data), success = True,
        transfer_error_code = 0\<rparr> \<or> k < length data \<and> fst res = NoFuel)"
  using i3c_write_from_run [of fuel b p no_transfer data s]
  by (simp add: i3c_write_def counted_def no_transfer_def Let_def)

text \<open>
  C30. \<^verbatim>\<open>read\<close> writes no register and fills the buffer with the low bytes of its
  reads of the receive FIFO, in order, one read per byte, when it returns.
\<close>

theorem i3c_read_in_order:
  "let res = run_state (i3c_read fuel b p buf) s
   in \<exists>es k. trace (snd res) = trace s @ es \<and> writes es = [] \<and>
     length (read_from (i3c_reg p I3C_REG_RX_FIFO) es) = k \<and>
     (k = length buf \<and> fst res = Returned (\<lparr>bytes_transferred = of_nat (length buf), success = True,
        transfer_error_code = 0\<rparr>, map (\<lambda>w. ucast (w AND 0xFF)) (read_from (i3c_reg p I3C_REG_RX_FIFO) es)) \<or>
      k < length buf \<and> fst res = NoFuel)"
  using i3c_read_from_run [of 0 "length buf" buf fuel b p no_transfer s]
  by (simp add: i3c_read_def counted_def no_transfer_def Let_def)

text \<open>
  A receive FIFO that stays empty keeps \<^verbatim>\<open>read\<close> waiting for ever: no amount of
  fuel lets it return, for any non-empty buffer.
\<close>

theorem i3c_read_never_returns:
  assumes "\<forall>h. fst (bus_read b (i3c_reg p I3C_REG_RX_FIFO_STATUS) h) AND 0x1F = 0" "buf \<noteq> []"
  shows "fst (run_state (i3c_read fuel b p buf) s) = NoFuel"
  unfolding i3c_read_def using assms(2) by (intro i3c_read_starves [OF assms(1)]) simp

theorem i3c_read_never_returns_witness:
  "fst (run_state (i3c_read 100 \<lparr>bus_read = \<lambda>a h. (0, h), bus_write = \<lambda>a v h. h,
     bus_csr = \<lambda>c h. (0, h)\<rparr> \<lparr>i3c_base = 0\<rparr> [1, 2]) (start_mach ())) = NoFuel"
  by (rule i3c_read_never_returns) simp_all

text \<open>
  A transmit FIFO that always has room lets every write return, with one test per byte.\<close>

theorem i3c_write_completes:
  assumes "0 < fuel" "\<forall>h. fst (bus_read b (i3c_reg p I3C_REG_TX_FIFO_STATUS) h) AND 0x1F < 16"
  shows "\<exists>r. fst (run_state (i3c_write fuel b p data) s) = Returned r"
  using i3c_write_returns [OF assms, of no_transfer data s] by (auto simp: i3c_write_def)

theorem i3c_write_completes_witness:
  "\<exists>r. fst (run_state (i3c_write 1 \<lparr>bus_read = \<lambda>a h. (0, h), bus_write = \<lambda>a v h. h,
     bus_csr = \<lambda>c h. (0, h)\<rparr> \<lparr>i3c_base = 0\<rparr> [1, 2]) (start_mach ())) = Returned r"
  by (rule i3c_write_completes) simp_all

end
