(* ===== verification/RomEnv.thy ===== *)
theory RomEnv
  imports Mci SocManager Lifecycle Otp I3c
begin

text \<open>
  The ROM environment, \<^verbatim>\<open>src/rom/include/rom/rom_env.hpp\<close> and
  \<^verbatim>\<open>src/rom/src/rom_env.cpp\<close>: the memory map and the drivers built on it.
\<close>

record mcu_straps =
  strap_value :: u32

record mcu_memory_map =
  lc_offset :: u32
  otp_offset :: u32
  i3c_offset :: u32
  soc_offset :: u32
  mci_offset :: u32
  mbox_offset :: u32

definition g_mcu_memory_map :: mcu_memory_map where
  "g_mcu_memory_map =
     \<lparr>lc_offset = 0x70000400, otp_offset = 0x70000000, i3c_offset = 0x20004000,
      soc_offset = 0x30030000, mci_offset = 0x21000000, mbox_offset = 0x30020000\<rparr>"

definition g_mcu_straps :: mcu_straps where
  "g_mcu_straps = \<lparr>strap_value = 0\<rparr>"

record rom_env =
  env_mci :: mci
  env_lc :: lifecycle
  env_otp :: otp
  env_i3c :: i3c
  env_soc_manager :: caliptra_soc
  env_straps :: mcu_straps

definition new_rom_env :: "mcu_memory_map \<Rightarrow> mcu_straps \<Rightarrow> rom_env" where
  "new_rom_env m straps =
     \<lparr>env_mci = new_mci (mci_offset m),
      env_lc = new_lifecycle (lc_offset m),
      env_otp = new_otp (otp_offset m),
      env_i3c = new_i3c (i3c_offset m),
      env_soc_manager = new_caliptra_soc (Some (soc_offset m)) (Some (soc_offset m)) (Some (mbox_offset m)),
      env_straps = straps\<rparr>"

abbreviation rom_env :: rom_env where
  "rom_env \<equiv> new_rom_env g_mcu_memory_map g_mcu_straps"

lemma rom_env_bases [simp]:
  "mci_base (env_mci rom_env) = 0x21000000"
  "lc_base (env_lc rom_env) = 0x70000400"
  "otp_base (env_otp rom_env) = 0x70000000"
  "i3c_base (env_i3c rom_env) = 0x20004000"
  "soc_ifc_addr (env_soc_manager rom_env) = 0x30030000"
  "soc_mbox_addr (env_soc_manager rom_env) = 0x30020000"
  by (simp_all add: new_rom_env_def g_mcu_memory_map_def new_mci_def new_lifecycle_def new_otp_def
      new_i3c_def new_caliptra_soc_def value_or_def)

section \<open>No two registers share an address\<close>

text \<open>Every register the drivers of an environment declare, the Soc class of the ROM apart.\<close>

definition env_registers :: "rom_env \<Rightarrow> u32 list" where
  "env_registers env =
     map (\<lambda>x. i3c_base (env_i3c env) + x)
       [I3C_REG_CTRL, I3C_REG_STATUS, I3C_REG_DYNAMIC_ADDR, I3C_REG_TX_FIFO, I3C_REG_RX_FIFO,
        I3C_REG_TX_FIFO_STATUS, I3C_REG_RX_FIFO_STATUS, I3C_REG_INTR_STATUS, I3C_REG_INTR_ENABLE] @
     map (\<lambda>x. mci_base (env_mci env) + x) mci_register_offsets @
     map (\<lambda>x. soc_mbox_addr (env_soc_manager env) + x)
       [MBOX_LOCK, MBOX_CMD, MBOX_DLEN, MBOX_DATAIN, MBOX_DATAOUT, MBOX_STATUS, MBOX_EXECUTE] @
     map (\<lambda>x. soc_ifc_addr (env_soc_manager env) + x)
       [SOC_IFC_CPTRA_FW_ERROR_FATAL, SOC_IFC_CPTRA_FW_ERROR_NON_FATAL] @
     map (\<lambda>x. otp_base (env_otp env) + x)
       [OTP_REG_STATUS, OTP_REG_ERR_CODE, OTP_REG_DIRECT_ACCESS_CMD, OTP_REG_DIRECT_ACCESS_ADDR,
        OTP_REG_DIRECT_ACCESS_WDATA_0, OTP_REG_DIRECT_ACCESS_WDATA_1, OTP_REG_DIRECT_ACCESS_RDATA_0,
        OTP_REG_DIRECT_ACCESS_RDATA_1, OTP_REG_CHECK_TRIGGER, OTP_REG_CHECK_PENDING,
        OTP_REG_INTEGRITY_CHECK, OTP_REG_CONSISTENCY_CHECK] @
     map (\<lambda>x. lc_base (env_lc env) + x)
       ([LC_REG_STATE, LC_REG_STATUS, LC_REG_TRANSITION_CMD] @
        map (\<lambda>i. LC_REG_TRANSITION_TOKEN_BASE + i * 4) [0, 1, 2, 3])"

lemma env_registers_increasing: "sorted_wrt (<) (map unat (env_registers rom_env))"
  by (simp add: env_registers_def mci_register_offsets_def reg_offsets increasing_pair sorted_wrt1
      del: sorted_wrt.simps(2))

lemma env_registers_distinct: "distinct (env_registers rom_env)"
  using env_registers_increasing strict_sorted_iff distinct_map by blast

section \<open>Properties\<close>

text \<open>
  In the memory map of the ROM no two registers of any two drivers share an address:
  the addresses of the I3C, MCI, mailbox, SoC interface, OTP and lifecycle registers are
  all different, although the drivers add their offsets to independent bases.
\<close>

theorem env_registers_do_not_overlap: "distinct (env_registers rom_env)"
  by (rule env_registers_distinct)

end
