(* ===== verification/BootStatus.thy ===== *)
theory BootStatus
  imports Prelude
begin

text \<open>
  \<^verbatim>\<open>src/rom/include/rom/boot_status.hpp\<close>: the checkpoint codes of the boot
  flows, the milestone flags and the small class over them. The codes are grouped in
  ranges of 64, each with a base of its own.
\<close>

section \<open>Checkpoint codes\<close>

definition ROM_INITIALIZATION_BASE :: u16 where [reg_offsets]: "ROM_INITIALIZATION_BASE = 1"

definition LIFECYCLE_MANAGEMENT_BASE :: u16 where [reg_offsets]: "LIFECYCLE_MANAGEMENT_BASE = 65"

definition OTP_FUSE_OPERATIONS_BASE :: u16 where [reg_offsets]: "OTP_FUSE_OPERATIONS_BASE = 129"

definition CALIPTRA_SETUP_BASE :: u16 where [reg_offsets]: "CALIPTRA_SETUP_BASE = 193"

definition FIRMWARE_LOADING_BASE :: u16 where [reg_offsets]: "FIRMWARE_LOADING_BASE = 257"

definition FIELD_ENTROPY_BASE :: u16 where [reg_offsets]: "FIELD_ENTROPY_BASE = 321"

definition BOOT_FLOW_BASE :: u16 where [reg_offsets]: "BOOT_FLOW_BASE = 385"

datatype boot_status =
    RomStarted | McuMemoryMapInitialized | StrapsLoaded | McuRegistersInitialized
    | SocManagerInitialized | MciInitialized | ResetReasonDetected
    | LifecycleControllerInitialized | LifecycleTransitionStarted
    | LifecycleTransitionComplete | LifecycleTokenBurningStarted
    | LifecycleTokenBurningComplete | OtpControllerInitialized | WatchdogConfigured
    | CaliptraBootGoAsserted | I3cInitialized | CaliptraReadyForFuses | AxiUsersConfigured
    | FusesPopulatedToCaliptra | McuMboxAxiUsersConfigured | SsConfigDoneStickySet
    | SsConfigDoneSet | PkHashVerified | McuMboxAxiUsersVerified | FuseWriteComplete
    | CaliptraReadyForMailbox | DeviceOwnershipTransferFlashRead
    | DeviceOwnershipTransferStarted | DeviceOwnershipDeriveStableKey
    | DeviceOwnershipBurnFuses | DeviceOwnershipDetermineOwner
    | DeviceOwnershipTransferComplete | RiDownloadFirmwareCommandSent
    | RiDownloadFirmwareComplete | FlashRecoveryFlowStarted | FlashRecoveryFlowComplete
    | FirmwareReadyDetected | FirmwareValidationComplete | CaliptraRuntimeReady
    | FieldEntropyProgrammingStarted | FieldEntropyPartition0Complete
    | FieldEntropyPartition1Complete | FieldEntropyPartition2Complete
    | FieldEntropyPartition3Complete | FieldEntropyProgrammingComplete | ColdBootFlowStarted
    | ColdBootFlowComplete | WarmResetFlowStarted | WarmResetFlowComplete
    | FirmwareBootFlowStarted | FirmwareBootFlowComplete | HitlessUpdateFlowStarted
    | HitlessUpdateFlowComplete

fun status_code :: "boot_status \<Rightarrow> u16" where
  "status_code RomStarted = ROM_INITIALIZATION_BASE"
| "status_code McuMemoryMapInitialized = ROM_INITIALIZATION_BASE + 1"
| "status_code StrapsLoaded = ROM_INITIALIZATION_BASE + 2"
| "status_code McuRegistersInitialized = ROM_INITIALIZATION_BASE + 3"
| "status_code SocManagerInitialized = ROM_INITIALIZATION_BASE + 4"
| "status_code MciInitialized = ROM_INITIALIZATION_BASE + 5"
| "status_code ResetReasonDetected = ROM_INITIALIZATION_BASE + 6"
| "status_code LifecycleControllerInitialized = LIFECYCLE_MANAGEMENT_BASE"
| "status_code LifecycleTransitionStarted = LIFECYCLE_MANAGEMENT_BASE + 1"
| "status_code LifecycleTransitionComplete = LIFECYCLE_MANAGEMENT_BASE + 2"
| "status_code LifecycleTokenBurningStarted = LIFECYCLE_MANAGEMENT_BASE + 3"
| "status_code LifecycleTokenBurningComplete = LIFECYCLE_MANAGEMENT_BASE + 4"
| "status_code OtpControllerInitialized = OTP_FUSE_OPERATIONS_BASE"
| "status_code WatchdogConfigured = OTP_FUSE_OPERATIONS_BASE + 1"
| "status_code CaliptraBootGoAsserted = CALIPTRA_SETUP_BASE"
| "status_code I3cInitialized = CALIPTRA_SETUP_BASE + 1"
| "status_code CaliptraReadyForFuses = CALIPTRA_SETUP_BASE + 2"
| "status_code AxiUsersConfigured = CALIPTRA_SETUP_BASE + 3"
| "status_code FusesPopulatedToCaliptra = CALIPTRA_SETUP_BASE + 4"
| "status_code McuMboxAxiUsersConfigured = CALIPTRA_SETUP_BASE + 5"
| "status_code SsConfigDoneStickySet = CALIPTRA_SETUP_BASE + 6"
| "status_code SsConfigDoneSet = CALIPTRA_SETUP_BASE + 7"
| "status_code PkHashVerified = CALIPTRA_SETUP_BASE + 8"
| "status_code McuMboxAxiUsersVerified = CALIPTRA_SETUP_BASE + 9"
| "status_code FuseWriteComplete = CALIPTRA_SETUP_BASE + 10"
| "status_code CaliptraReadyForMailbox = CALIPTRA_SETUP_BASE + 11"
| "status_code DeviceOwnershipTransferFlashRead = CALIPTRA_SETUP_BASE + 12"
| "status_code DeviceOwnershipTransferStarted = CALIPTRA_SETUP_BASE + 13"
| "status_code DeviceOwnershipDeriveStableKey = CALIPTRA_SETUP_BASE + 14"
| "status_code DeviceOwnershipBurnFuses = CALIPTRA_SETUP_BASE + 15"
| "status_code DeviceOwnershipDetermineOwner = CALIPTRA_SETUP_BASE + 16"
| "status_code DeviceOwnershipTransferComplete = CALIPTRA_SETUP_BASE + 17"
| "status_code RiDownloadFirmwareCommandSent = FIRMWARE_LOADING_BASE"
| "status_code RiDownloadFirmwareComplete = FIRMWARE_LOADING_BASE + 1"
| "status_code FlashRecoveryFlowStarted = FIRMWARE_LOADING_BASE + 2"
| "status_code FlashRecoveryFlowComplete = FIRMWARE_LOADING_BASE + 3"
| "status_code FirmwareReadyDetected = FIRMWARE_LOADING_BASE + 4"
| "status_code FirmwareValidationComplete = FIRMWARE_LOADING_BASE + 5"
| "status_code CaliptraRuntimeReady = FIRMWARE_LOADING_BASE + 6"
| "status_code FieldEntropyProgrammingStarted = FIELD_ENTROPY_BASE"
| "status_code FieldEntropyPartition0Complete = FIELD_ENTROPY_BASE + 1"
| "status_code FieldEntropyPartition1Complete = FIELD_ENTROPY_BASE + 2"
| "status_code FieldEntropyPartition2Complete = FIELD_ENTROPY_BASE + 3"
| "status_code FieldEntropyPartition3Complete = FIELD_ENTROPY_BASE + 4"
| "status_code FieldEntropyProgrammingComplete = FIELD_ENTROPY_BASE + 5"
| "status_code ColdBootFlowStarted = BOOT_FLOW_BASE"
| "status_code ColdBootFlowComplete = BOOT_FLOW_BASE + 1"
| "status_code WarmResetFlowStarted = BOOT_FLOW_BASE + 2"
| "status_code WarmResetFlowComplete = BOOT_FLOW_BASE + 3"
| "status_code FirmwareBootFlowStarted = BOOT_FLOW_BASE + 4"
| "status_code FirmwareBootFlowComplete = BOOT_FLOW_BASE + 5"
| "status_code HitlessUpdateFlowStarted = BOOT_FLOW_BASE + 6"
| "status_code HitlessUpdateFlowComplete = BOOT_FLOW_BASE + 7"

text \<open>The codes in the order of the declaration.\<close>

definition boot_statuses :: "boot_status list" where
  "boot_statuses =
    [RomStarted, McuMemoryMapInitialized, StrapsLoaded, McuRegistersInitialized,
      SocManagerInitialized, MciInitialized, ResetReasonDetected,
      LifecycleControllerInitialized, LifecycleTransitionStarted,
      LifecycleTransitionComplete, LifecycleTokenBurningStarted,
      LifecycleTokenBurningComplete, OtpControllerInitialized, WatchdogConfigured,
      CaliptraBootGoAsserted, I3cInitialized, CaliptraReadyForFuses, AxiUsersConfigured,
      FusesPopulatedToCaliptra, McuMboxAxiUsersConfigured, SsConfigDoneStickySet,
      SsConfigDoneSet, PkHashVerified, McuMboxAxiUsersVerified, FuseWriteComplete,
      CaliptraReadyForMailbox, DeviceOwnershipTransferFlashRead,
      DeviceOwnershipTransferStarted, DeviceOwnershipDeriveStableKey,
      DeviceOwnershipBurnFuses, DeviceOwnershipDetermineOwner,
      DeviceOwnershipTransferComplete, RiDownloadFirmwareCommandSent,
      RiDownloadFirmwareComplete, FlashRecoveryFlowStarted, FlashRecoveryFlowComplete,
      FirmwareReadyDetected, FirmwareValidationComplete, CaliptraRuntimeReady,
      FieldEntropyProgrammingStarted, FieldEntropyPartition0Complete,
      FieldEntropyPartition1Complete, FieldEntropyPartition2Complete,
      FieldEntropyPartition3Complete, FieldEntropyProgrammingComplete, ColdBootFlowStarted,
      ColdBootFlowComplete, WarmResetFlowStarted, WarmResetFlowComplete,
      FirmwareBootFlowStarted, FirmwareBootFlowComplete, HitlessUpdateFlowStarted,
      HitlessUpdateFlowComplete]"

lemma boot_statuses_all: "s \<in> set boot_statuses"
  by (cases s; simp add: boot_statuses_def)

lemma status_codes_increasing: "sorted_wrt (<) (map (unat \<circ> status_code) boot_statuses)"
  by (simp add: boot_statuses_def reg_offsets)

lemma status_code_inj: "inj status_code"
proof (rule injI)
  fix x y
  assume "status_code x = status_code y"
  moreover have "distinct (map (unat \<circ> status_code) boot_statuses)"
    using status_codes_increasing strict_sorted_iff by blast
  then have "inj_on (unat \<circ> status_code) (set boot_statuses)"
    by (simp add: distinct_map)
  ultimately show "x = y"
    using inj_onD [of "unat \<circ> status_code" "set boot_statuses" x y] boot_statuses_all by simp
qed

text \<open>The group a status belongs to: which range its code falls in.\<close>

definition status_group :: "boot_status \<Rightarrow> nat" where
  "status_group s = (unat (status_code s) - 1) div 64"

section \<open>Milestones\<close>

definition ROM_STARTED :: u16 where [reg_offsets]: "ROM_STARTED = 0x0001"

definition CPTRA_BOOT_GO_ASSERTED :: u16 where [reg_offsets]: "CPTRA_BOOT_GO_ASSERTED = 0x0002"

definition CPTRA_FUSES_WRITTEN :: u16 where [reg_offsets]: "CPTRA_FUSES_WRITTEN = 0x0004"

definition RI_DOWNLOAD_COMPLETED :: u16 where [reg_offsets]: "RI_DOWNLOAD_COMPLETED = 0x0008"

definition FLASH_RECOVERY_FLOW_COMPLETED :: u16 where [reg_offsets]:
  "FLASH_RECOVERY_FLOW_COMPLETED = 0x0010"

definition COLD_BOOT_FLOW_COMPLETE :: u16 where [reg_offsets]: "COLD_BOOT_FLOW_COMPLETE = 0x0020"

definition WARM_RESET_FLOW_COMPLETE :: u16 where [reg_offsets]: "WARM_RESET_FLOW_COMPLETE = 0x0040"

definition FIRMWARE_BOOT_FLOW_COMPLETE :: u16 where [reg_offsets]:
  "FIRMWARE_BOOT_FLOW_COMPLETE = 0x0080"

definition milestone_flags :: "u16 list" where
  "milestone_flags =
     [ROM_STARTED, CPTRA_BOOT_GO_ASSERTED, CPTRA_FUSES_WRITTEN, RI_DOWNLOAD_COMPLETED,
      FLASH_RECOVERY_FLOW_COMPLETED, COLD_BOOT_FLOW_COMPLETE, WARM_RESET_FLOW_COMPLETE,
      FIRMWARE_BOOT_FLOW_COMPLETE]"

record boot_milestones =
  milestone_value :: u16

definition milestones_default :: boot_milestones where
  "milestones_default = \<lparr>milestone_value = 0\<rparr>"

definition milestones_of :: "u16 \<Rightarrow> boot_milestones" where
  "milestones_of v = \<lparr>milestone_value = v\<rparr>"

definition milestones_bits :: "boot_milestones \<Rightarrow> u16" where
  "milestones_bits m = milestone_value m"

definition milestones_or :: "boot_milestones \<Rightarrow> boot_milestones \<Rightarrow> boot_milestones" where
  "milestones_or m other = milestones_of (milestone_value m OR milestone_value other)"

definition milestones_and :: "boot_milestones \<Rightarrow> boot_milestones \<Rightarrow> boot_milestones" where
  "milestones_and m other = milestones_of (milestone_value m AND milestone_value other)"

definition milestones_contains :: "boot_milestones \<Rightarrow> u16 \<Rightarrow> bool" where
  "milestones_contains m flag \<longleftrightarrow> milestone_value m AND flag = flag"

lemmas milestone_ops = milestones_default_def milestones_of_def milestones_bits_def
  milestones_or_def milestones_and_def milestones_contains_def

lemma milestone_flags_powers: "milestone_flags = map (\<lambda>i. push_bit i 1) [0..<8]"
  by (simp add: milestone_flags_def reg_offsets upt_rec)

text \<open>Containment distributes over the two operators the way it does for sets.\<close>

lemma and_absorbs_iff: "w AND f = f \<longleftrightarrow> (\<forall>i. bit f i \<longrightarrow> bit w i)" for w f :: u16
proof
  assume "w AND f = f"
  then have "bit (w AND f) i = bit f i" for i by simp
  then show "\<forall>i. bit f i \<longrightarrow> bit w i" by (simp add: bit_and_iff) blast
qed (auto simp: bit_and_iff intro: bit_word_eqI)

lemma contains_iff_bits:
  "milestones_contains m f \<longleftrightarrow> (\<forall>i. bit f i \<longrightarrow> bit (milestone_value m) i)"
  by (simp add: milestones_contains_def and_absorbs_iff)

lemma contains_or_left: "milestones_contains m f \<Longrightarrow> milestones_contains (milestones_or m n) f"
  by (simp add: contains_iff_bits milestones_or_def milestones_of_def bit_or_iff)

lemma contains_and:
  "milestones_contains (milestones_and m n) f \<longleftrightarrow> milestones_contains m f \<and> milestones_contains n f"
  by (auto simp: contains_iff_bits milestones_and_def milestones_of_def bit_and_iff)

text \<open>Of the flags that are single bits, setting one makes exactly that one appear.\<close>

lemma contains_flag:
  "i < 8 \<Longrightarrow> milestones_contains m (milestone_flags ! i) \<longleftrightarrow> bit (milestone_value m) i"
  by (auto simp: contains_iff_bits milestone_flags_powers bit_exp_iff)

end
