(* ===== verification/BootFlows.thy ===== *)
theory BootFlows
  imports RomEnv BootStatus
begin

text \<open>
  The boot flows: \<^verbatim>\<open>cold_boot.cpp\<close>, \<^verbatim>\<open>warm_boot.cpp\<close>,
  \<^verbatim>\<open>fw_boot.cpp\<close>, \<^verbatim>\<open>fw_hitless_update.cpp\<close>,
  \<^verbatim>\<open>device_ownership_transfer.cpp\<close> and \<^verbatim>\<open>recovery.cpp\<close> under
  \<^verbatim>\<open>src/rom/src/\<close>. The steps that the repository leaves as placeholders return
  success and do nothing there, and so they do here.
\<close>

declare status_code.simps [simp del]

section \<open>Checkpoints and milestones\<close>

definition checkpoint :: "'h bus \<Rightarrow> rom_env \<Rightarrow> boot_status \<Rightarrow> ('h, unit) io" where
  "checkpoint b env st = set_flow_checkpoint b (env_mci env) (status_code st)"

definition milestone :: "'h bus \<Rightarrow> rom_env \<Rightarrow> u16 \<Rightarrow> ('h, unit) io" where
  "milestone b env ms = set_flow_milestone b (env_mci env) ms"

section \<open>Device ownership transfer\<close>

datatype ownership_state = NoOwner | OwnerExists | TransferPending | TransferComplete

definition read_ownership_flash :: "rom_env \<Rightarrow> ('h, unit result) io" where
  "read_ownership_flash env = return (Ok ())"

definition derive_stable_key :: "rom_env \<Rightarrow> ('h, unit result) io" where
  "derive_stable_key env = return (Ok ())"

definition burn_fuses :: "rom_env \<Rightarrow> ('h, unit result) io" where
  "burn_fuses env = return (Ok ())"

definition determine_owner :: "rom_env \<Rightarrow> ('h, ownership_state result) io" where
  "determine_owner env = return (Ok NoOwner)"

definition complete_transfer :: "rom_env \<Rightarrow> ('h, unit result) io" where
  "complete_transfer env = return (Ok ())"

definition ownership_transfer_execute :: "'h bus \<Rightarrow> rom_env \<Rightarrow> ('h, unit result) io" where
  "ownership_transfer_execute b env = do {
     checkpoint b env DeviceOwnershipTransferStarted;
     sayln ''[ROM] Device ownership transfer started'';
     or_return (read_ownership_flash env) (\<lambda>_. do {
       checkpoint b env DeviceOwnershipTransferFlashRead;
       or_return (determine_owner env) (\<lambda>st. do {
         checkpoint b env DeviceOwnershipDetermineOwner;
         or_return
           (if st = TransferPending then
              or_return (derive_stable_key env) (\<lambda>_. do {
                checkpoint b env DeviceOwnershipDeriveStableKey;
                or_return (burn_fuses env) (\<lambda>_. do {
                  checkpoint b env DeviceOwnershipBurnFuses;
                  complete_transfer env }) })
            else return (Ok ()))
           (\<lambda>_. do {
             checkpoint b env DeviceOwnershipTransferComplete;
             sayln ''[ROM] Device ownership transfer complete'';
             return (Ok ()) }) }) }) }"

section \<open>Cold boot\<close>

definition init_memory_map :: "rom_env \<Rightarrow> ('h, unit result) io" where
  "init_memory_map env = return (Ok ())"

definition load_straps :: "rom_env \<Rightarrow> ('h, unit result) io" where
  "load_straps env = return (Ok ())"

definition init_peripherals :: "'h bus \<Rightarrow> rom_env \<Rightarrow> ('h, unit result) io" where
  "init_peripherals b env =
     or_return (i3c_init b (env_i3c env)) (\<lambda>_.
     or_return (otp_init b (env_otp env)) (\<lambda>_. return (Ok ())))"

definition configure_caliptra :: "'h bus \<Rightarrow> rom_env \<Rightarrow> ('h, unit result) io" where
  "configure_caliptra b env = do { caliptra_boot_go b (env_mci env); return (Ok ()) }"

definition cold_populate_fuses :: "rom_env \<Rightarrow> ('h, unit result) io" where
  "cold_populate_fuses env = return (Ok ())"

text \<open>The loop of \<^verbatim>\<open>wait_caliptra_ready\<close>, on its counter.\<close>

function wait_ready_loop :: "'h bus \<Rightarrow> caliptra_soc \<Rightarrow> u32 \<Rightarrow> ('h, unit result) io" where
  "wait_ready_loop b c timeout = do {
     busy \<leftarrow> is_mailbox_busy b c;
     if busy then
       (if timeout - 1 = 0 then return (Err TIMEOUT)
        else do { delay; wait_ready_loop b c (timeout - 1) })
     else return (Ok ()) }"
  by pat_completeness auto
termination
  by (relation "measure (\<lambda>(b, c, t). poll_budget t)") (simp_all add: countdown_measure)

declare wait_ready_loop.simps [simp del]

definition wait_caliptra_ready :: "'h bus \<Rightarrow> rom_env \<Rightarrow> ('h, unit result) io" where
  "wait_caliptra_ready b env = wait_ready_loop b (env_soc_manager env) 100000"

definition cold_device_ownership_transfer :: "'h bus \<Rightarrow> rom_env \<Rightarrow> ('h, unit result) io" where
  "cold_device_ownership_transfer b env = ownership_transfer_execute b env"

definition load_firmware :: "rom_env \<Rightarrow> ('h, unit result) io" where
  "load_firmware env = return (Ok ())"

definition cold_boot_execute :: "'h bus \<Rightarrow> rom_env \<Rightarrow> ('h, unit result) io" where
  "cold_boot_execute b env = do {
     checkpoint b env ColdBootFlowStarted;
     milestone b env ROM_STARTED;
     sayln ''[ROM] Cold boot flow started'';
     or_return (init_memory_map env) (\<lambda>_. do {
       checkpoint b env McuMemoryMapInitialized;
       or_return (load_straps env) (\<lambda>_. do {
         checkpoint b env StrapsLoaded;
         or_return (init_peripherals b env) (\<lambda>_. do {
           checkpoint b env McuRegistersInitialized;
           or_return (configure_caliptra b env) (\<lambda>_. do {
             milestone b env CPTRA_BOOT_GO_ASSERTED;
             checkpoint b env CaliptraBootGoAsserted;
             or_return (cold_populate_fuses env) (\<lambda>_. do {
               milestone b env CPTRA_FUSES_WRITTEN;
               checkpoint b env FusesPopulatedToCaliptra;
               or_return (wait_caliptra_ready b env) (\<lambda>_. do {
                 checkpoint b env CaliptraReadyForMailbox;
                 or_return (cold_device_ownership_transfer b env) (\<lambda>_. do {
                   checkpoint b env DeviceOwnershipTransferComplete;
                   or_return (load_firmware env) (\<lambda>_. do {
                     milestone b env COLD_BOOT_FLOW_COMPLETE;
                     checkpoint b env ColdBootFlowComplete;
                     sayln ''[ROM] Cold boot flow complete'';
                     return (Ok ()) }) }) }) }) }) }) }) }) }"

section \<open>Warm boot\<close>

definition restore_context :: "rom_env \<Rightarrow> ('h, unit result) io" where
  "restore_context env = return (Ok ())"

definition verify_runtime :: "rom_env \<Rightarrow> ('h, unit result) io" where
  "verify_runtime env = return (Ok ())"

definition resume_runtime :: "rom_env \<Rightarrow> ('h, unit result) io" where
  "resume_runtime env = return (Ok ())"

definition warm_boot_execute :: "'h bus \<Rightarrow> rom_env \<Rightarrow> ('h, unit result) io" where
  "warm_boot_execute b env = do {
     checkpoint b env WarmResetFlowStarted;
     sayln ''[ROM] Warm boot flow started'';
     or_return (restore_context env) (\<lambda>_.
     or_return (verify_runtime env) (\<lambda>_.
     or_return (resume_runtime env) (\<lambda>_. do {
       milestone b env WARM_RESET_FLOW_COMPLETE;
       checkpoint b env WarmResetFlowComplete;
       sayln ''[ROM] Warm boot flow complete'';
       return (Ok ()) }))) }"

section \<open>Firmware boot\<close>

definition validate_firmware :: "rom_env \<Rightarrow> ('h, unit result) io" where
  "validate_firmware env = return (Ok ())"

definition fw_boot_execute :: "'h bus \<Rightarrow> rom_env \<Rightarrow> ('h, unit result) io" where
  "fw_boot_execute b env = do {
     checkpoint b env FirmwareBootFlowStarted;
     sayln ''[ROM] Firmware boot flow started'';
     or_return (validate_firmware env) (\<lambda>_. do {
       checkpoint b env FirmwareValidationComplete;
       milestone b env FIRMWARE_BOOT_FLOW_COMPLETE;
       checkpoint b env FirmwareBootFlowComplete;
       sayln ''[ROM] Firmware boot flow complete'';
       return (Ok ()) }) }"

text \<open>The firmware at the entry point is not in the repository: a parameter.\<close>

definition jump_to_firmware ::
    "(uintptr \<Rightarrow> ('h, unit outcome) io) \<Rightarrow> uintptr \<Rightarrow> ('h, unit outcome) io" where
  "jump_to_firmware firmware entry_point =
     then_run (firmware entry_point) (\<lambda>_. return Looping)"

section \<open>Hitless update\<close>

definition validate_new_firmware :: "rom_env \<Rightarrow> ('h, unit result) io" where
  "validate_new_firmware env = return (Ok ())"

definition swap_firmware :: "rom_env \<Rightarrow> ('h, unit result) io" where
  "swap_firmware env = return (Ok ())"

definition commit_update :: "rom_env \<Rightarrow> ('h, unit result) io" where
  "commit_update env = return (Ok ())"

definition fw_hitless_update_execute :: "'h bus \<Rightarrow> rom_env \<Rightarrow> ('h, unit result) io" where
  "fw_hitless_update_execute b env = do {
     checkpoint b env HitlessUpdateFlowStarted;
     sayln ''[ROM] Hitless update flow started'';
     or_return (validate_new_firmware env) (\<lambda>_.
     or_return (swap_firmware env) (\<lambda>_.
     or_return (commit_update env) (\<lambda>_. do {
       checkpoint b env HitlessUpdateFlowComplete;
       sayln ''[ROM] Hitless update flow complete'';
       return (Ok ()) }))) }"

section \<open>Recovery\<close>

definition validate_recovery_image :: "rom_env \<Rightarrow> ('h, unit result) io" where
  "validate_recovery_image env = return (Ok ())"

definition load_recovery_image :: "rom_env \<Rightarrow> ('h, unit result) io" where
  "load_recovery_image env = return (Ok ())"

definition execute_flash_recovery :: "'h bus \<Rightarrow> rom_env \<Rightarrow> ('h, unit result) io" where
  "execute_flash_recovery b env = do {
     checkpoint b env FlashRecoveryFlowStarted;
     sayln ''[ROM] Flash recovery flow started'';
     or_return (validate_recovery_image env) (\<lambda>_.
     or_return (load_recovery_image env) (\<lambda>_. do {
       milestone b env FLASH_RECOVERY_FLOW_COMPLETED;
       checkpoint b env FlashRecoveryFlowComplete;
       sayln ''[ROM] Flash recovery flow complete'';
       return (Ok ()) })) }"

definition execute_i3c_recovery :: "'h bus \<Rightarrow> rom_env \<Rightarrow> ('h, unit result) io" where
  "execute_i3c_recovery b env = do {
     sayln ''[ROM] I3C recovery flow started'';
     or_return (i3c_init b (env_i3c env)) (\<lambda>_. do {
       sayln ''[ROM] I3C recovery flow complete'';
       return (Ok ()) }) }"

lemmas boot_stubs = read_ownership_flash_def derive_stable_key_def burn_fuses_def
  determine_owner_def complete_transfer_def init_memory_map_def load_straps_def
  cold_populate_fuses_def cold_device_ownership_transfer_def load_firmware_def restore_context_def verify_runtime_def
  resume_runtime_def validate_firmware_def validate_new_firmware_def swap_firmware_def
  commit_update_def validate_recovery_image_def load_recovery_image_def

section \<open>What the steps leave in the flow status register\<close>

interpretation ready_poll: status_poll b "soc_mbox_addr c + MBOX_STATUS"
    "\<lambda>v. v AND MBOX_STATUS_CMD_BUSY = 0" TIMEOUT "wait_ready_loop b c" "\<lambda>s. s"
    "\<lambda>s. snd (run_state delay s)" for b c
proof
  fix t s
  show "run_state (wait_ready_loop b c t) s =
      (let v = fst (run_state (mmio_read b (soc_mbox_addr c + MBOX_STATUS)) s);
           s1 = snd (run_state (mmio_read b (soc_mbox_addr c + MBOX_STATUS)) s)
       in if v AND MBOX_STATUS_CMD_BUSY = 0 then (Ok (), s1)
          else if t - 1 = 0 then (Err TIMEOUT, s1)
          else run_state (wait_ready_loop b c (t - 1)) (snd (run_state delay s1)))"
    by (subst wait_ready_loop.simps) (simp add: is_mailbox_busy_def io_defs Let_def)
qed (simp_all add: run_delay)

abbreviation flow_addr :: "rom_env \<Rightarrow> u32" where
  "flow_addr env \<equiv> mci_flow_addr (env_mci env)"

text \<open>The I3C control register and the boot-go register are not the flow status register.\<close>

definition env_apart :: "rom_env \<Rightarrow> bool" where
  "env_apart env \<longleftrightarrow> i3c_base (env_i3c env) + I3C_REG_CTRL \<noteq> flow_addr env"

lemma rom_env_apart: "env_apart rom_env"
  by (simp add: env_apart_def reg_offsets)

text \<open>The register's content after an operation, as a pair of milestones and checkpoint.\<close>

definition flow_of :: "('h \<Rightarrow> u32) \<Rightarrow> 'h mach \<Rightarrow> u16 \<times> u16" where
  "flow_of view s = flow_abs (view (hw s))"

lemma flow_checkpoint:
  "storage_reg b (flow_addr env) view \<Longrightarrow>
     flow_of view (snd (run_state (checkpoint b env st) s)) = (fst (flow_of view s), status_code st)"
  by (simp add: flow_of_def checkpoint_def set_flow_checkpoint_view flow_abs_def)

lemma flow_milestone:
  "storage_reg b (flow_addr env) view \<Longrightarrow>
     flow_of view (snd (run_state (milestone b env ms) s)) =
       (fst (flow_of view s) OR ms, snd (flow_of view s))"
  by (simp add: flow_of_def milestone_def set_flow_milestone_view flow_abs_def or.commute)

lemma flow_println: "flow_of view (snd (run_state (println str) s)) = flow_of view s"
  by (simp add: flow_of_def frame)

lemma flow_print: "flow_of view (snd (run_state (print str) s)) = flow_of view s"
  by (simp add: flow_of_def frame)

lemma flow_otp_init:
  "storage_reg b (flow_addr env) view \<Longrightarrow>
     flow_of view (snd (run_state (otp_init b p) s)) = flow_of view s"
  by (simp add: flow_of_def otp_init_def otp_poll.wait_view)

lemma flow_wait_ready:
  "storage_reg b (flow_addr env) view \<Longrightarrow>
     flow_of view (snd (run_state (wait_caliptra_ready b env) s)) = flow_of view s"
  by (simp add: flow_of_def wait_caliptra_ready_def ready_poll.wait_view)

lemma i3c_init_run:
  "fst (run_state (i3c_init b p) s) = Ok ()"
  by (simp add: i3c_init_def)

lemma flow_i3c_init:
  "storage_reg b (flow_addr env) view \<Longrightarrow> env_apart env \<Longrightarrow>
     flow_of view (snd (run_state (i3c_init b (env_i3c env)) s)) = flow_of view s"
  by (simp add: flow_of_def i3c_init_def i3c_clear_tx_fifo_def i3c_clear_rx_fifo_def i3c_enable_def
      i3c_regs.md_view_other env_apart_def)

lemma flow_boot_go:
  "storage_reg b (flow_addr env) view \<Longrightarrow>
     flow_of view (snd (run_state (caliptra_boot_go b (env_mci env)) s)) = flow_of view s"
  by (simp add: flow_of_def caliptra_boot_go_def mci_regs.wr_view_other reg_offsets)

lemmas flow_simps = flow_checkpoint flow_milestone flow_println flow_print flow_otp_init
  flow_wait_ready flow_i3c_init flow_boot_go

lemma otp_init_result:
  "fst (run_state (otp_init b p) s) = Ok () \<or> fst (run_state (otp_init b p) s) = Err TIMEOUT"
  by (simp add: otp_init_def otp_poll.wait_result)

lemma wait_ready_result:
  "fst (run_state (wait_caliptra_ready b env) s) = Ok () \<or>
   fst (run_state (wait_caliptra_ready b env) s) = Err TIMEOUT"
  by (simp add: wait_caliptra_ready_def ready_poll.wait_result)

lemma ownership_transfer_run:
  "fst (run_state (ownership_transfer_execute b env) s) = Ok ()"
  by (simp add: ownership_transfer_execute_def boot_stubs)

lemma flow_ownership_transfer:
  "storage_reg b (flow_addr env) view \<Longrightarrow>
     flow_of view (snd (run_state (ownership_transfer_execute b env) s)) =
       (fst (flow_of view s), status_code DeviceOwnershipTransferComplete)"
  by (simp add: ownership_transfer_execute_def boot_stubs flow_simps)

section \<open>The outcomes of a cold boot\<close>

text \<open>
  The flow up to the peripherals, from there to the wait for Caliptra, and the rest. Each
  part starts in the state the one before leaves.
\<close>

definition cold_first :: "'h bus \<Rightarrow> rom_env \<Rightarrow> ('h, unit result) io" where
  "cold_first b env = do {
     checkpoint b env ColdBootFlowStarted;
     milestone b env ROM_STARTED;
     sayln ''[ROM] Cold boot flow started'';
     checkpoint b env McuMemoryMapInitialized;
     checkpoint b env StrapsLoaded;
     init_peripherals b env }"

definition cold_second :: "'h bus \<Rightarrow> rom_env \<Rightarrow> ('h, unit result) io" where
  "cold_second b env = do {
     checkpoint b env McuRegistersInitialized;
     caliptra_boot_go b (env_mci env);
     milestone b env CPTRA_BOOT_GO_ASSERTED;
     checkpoint b env CaliptraBootGoAsserted;
     milestone b env CPTRA_FUSES_WRITTEN;
     checkpoint b env FusesPopulatedToCaliptra;
     wait_caliptra_ready b env }"

definition cold_third :: "'h bus \<Rightarrow> rom_env \<Rightarrow> ('h, unit result) io" where
  "cold_third b env = do {
     checkpoint b env CaliptraReadyForMailbox;
     or_return (ownership_transfer_execute b env) (\<lambda>_. do {
       checkpoint b env DeviceOwnershipTransferComplete;
       milestone b env COLD_BOOT_FLOW_COMPLETE;
       checkpoint b env ColdBootFlowComplete;
       sayln ''[ROM] Cold boot flow complete'';
       return (Ok ()) }) }"

lemma cold_boot_parts:
  "cold_boot_execute b env =
     or_return (cold_first b env) (\<lambda>_. or_return (cold_second b env) (\<lambda>_. cold_third b env))"
  by (simp only: cold_boot_execute_def cold_first_def cold_second_def cold_third_def boot_stubs
      configure_caliptra_def or_return_laws State_Monad.bind_assoc)

lemma init_peripherals_run:
  "fst (run_state (init_peripherals b env) s) =
     fst (run_state (otp_init b (env_otp env)) (snd (run_state (i3c_init b (env_i3c env)) s)))"
  "snd (run_state (init_peripherals b env) s) =
     snd (run_state (otp_init b (env_otp env)) (snd (run_state (i3c_init b (env_i3c env)) s)))"
  using otp_init_result [of b "env_otp env" "snd (run_state (i3c_init b (env_i3c env)) s)"]
  by (auto simp: init_peripherals_def run_or_return i3c_init_run)

lemma cold_first_result:
  "fst (run_state (cold_first b env) s) = Ok () \<or> fst (run_state (cold_first b env) s) = Err TIMEOUT"
  by (simp add: cold_first_def init_peripherals_run otp_init_result)

lemma cold_second_result:
  "fst (run_state (cold_second b env) s) = Ok () \<or> fst (run_state (cold_second b env) s) = Err TIMEOUT"
  by (simp add: cold_second_def wait_ready_result)

lemma cold_third_result: "fst (run_state (cold_third b env) s) = Ok ()"
  by (simp add: cold_third_def ownership_transfer_run)

lemma cold_first_flow:
  "storage_reg b (flow_addr env) view \<Longrightarrow> env_apart env \<Longrightarrow>
     flow_of view (snd (run_state (cold_first b env) s)) =
       (fst (flow_of view s) OR ROM_STARTED, status_code StrapsLoaded)"
  by (simp add: cold_first_def init_peripherals_run flow_simps)

lemma cold_second_flow:
  "storage_reg b (flow_addr env) view \<Longrightarrow>
     flow_of view (snd (run_state (cold_second b env) s)) =
       (fst (flow_of view s) OR (CPTRA_BOOT_GO_ASSERTED OR CPTRA_FUSES_WRITTEN),
        status_code FusesPopulatedToCaliptra)"
  by (simp add: cold_second_def flow_simps or.assoc)

lemma cold_third_flow:
  "storage_reg b (flow_addr env) view \<Longrightarrow>
     flow_of view (snd (run_state (cold_third b env) s)) =
       (fst (flow_of view s) OR COLD_BOOT_FLOW_COMPLETE, status_code ColdBootFlowComplete)"
  by (simp add: cold_third_def flow_simps flow_ownership_transfer ownership_transfer_run)

text \<open>A cold boot ends in one of three ways; the register tells which.\<close>

inductive cold_end :: "u16 \<Rightarrow> unit result \<Rightarrow> u16 \<times> u16 \<Rightarrow> bool" for before where
  otp_stuck: "cold_end before (Err TIMEOUT) (before OR ROM_STARTED, status_code StrapsLoaded)"
| caliptra_stuck: "cold_end before (Err TIMEOUT)
    (before OR (ROM_STARTED OR CPTRA_BOOT_GO_ASSERTED OR CPTRA_FUSES_WRITTEN),
     status_code FusesPopulatedToCaliptra)"
| booted: "cold_end before (Ok ())
    (before OR (ROM_STARTED OR CPTRA_BOOT_GO_ASSERTED OR CPTRA_FUSES_WRITTEN OR COLD_BOOT_FLOW_COMPLETE),
     status_code ColdBootFlowComplete)"

inductive_cases cold_end_OkE: "cold_end before (Ok u) x"
inductive_cases cold_end_ErrE: "cold_end before (Err e) x"

lemma cold_boot_ends:
  assumes st: "storage_reg b (flow_addr env) view" and ap: "env_apart env"
  shows "cold_end (fst (flow_of view s)) (fst (run_state (cold_boot_execute b env) s))
    (flow_of view (snd (run_state (cold_boot_execute b env) s)))"
proof -
  obtain r1 s1 where p1: "run_state (cold_first b env) s = (r1, s1)"
    by (cases "run_state (cold_first b env) s")
  obtain r2 s2 where p2: "run_state (cold_second b env) s1 = (r2, s2)"
    by (cases "run_state (cold_second b env) s1")
  have f1: "flow_of view s1 = (fst (flow_of view s) OR ROM_STARTED, status_code StrapsLoaded)"
    using cold_first_flow [OF st ap, of s] p1 by simp
  have f2: "flow_of view s2 = (fst (flow_of view s) OR
      (ROM_STARTED OR CPTRA_BOOT_GO_ASSERTED OR CPTRA_FUSES_WRITTEN), status_code FusesPopulatedToCaliptra)"
    using cold_second_flow [OF st, of s1] p2 f1 by (simp add: or.assoc)
  consider (one) "r1 = Err TIMEOUT" | (two) "r1 = Ok ()" "r2 = Err TIMEOUT" | (all) "r1 = Ok ()" "r2 = Ok ()"
    using cold_first_result [of b env s] cold_second_result [of b env s1] p1 p2 by auto
  then show ?thesis
  proof cases
    case one
    then show ?thesis using p1 f1 by (simp add: cold_boot_parts otp_stuck)
  next
    case two
    then show ?thesis using p1 p2 f2 by (simp add: cold_boot_parts caliptra_stuck)
  next
    case all
    then have "run_state (cold_boot_execute b env) s = run_state (cold_third b env) s2"
      using p1 p2 by (simp add: cold_boot_parts)
    then show ?thesis
      using cold_third_result [of b env s2] cold_third_flow [OF st, of s2] f2 booted
      by (simp add: or.assoc)
  qed
qed

text \<open>On an idle OTP controller and a mailbox that is free, the boot completes.\<close>

lemma cold_boot_completes:
  assumes "\<forall>h. fst (bus_read b (otp_base (env_otp env) + OTP_REG_STATUS) h) AND OTP_STATUS_IDLE \<noteq> 0"
    and "\<forall>h. fst (bus_read b (soc_mbox_addr (env_soc_manager env) + MBOX_STATUS) h)
          AND MBOX_STATUS_CMD_BUSY = 0"
  shows "fst (run_state (cold_boot_execute b env) s) = Ok ()"
proof -
  have "fst (run_state (otp_init b (env_otp env)) s) = Ok ()" for s
    using assms(1) by (simp add: otp_init_def otp_poll.wait_ready)
  moreover have "fst (run_state (wait_caliptra_ready b env) s) = Ok ()" for s
    using assms(2) by (simp add: wait_caliptra_ready_def ready_poll.wait_ready)
  ultimately show ?thesis
    by (simp add: cold_boot_parts run_or_return cold_third_result)
      (simp add: cold_first_def cold_second_def init_peripherals_run cold_third_result)
qed

section \<open>The contract of a boot flow\<close>

text \<open>
  Every flow that tracks its progress keeps the milestones it finds, and the checkpoint of
  its completion stands exactly when it returned success.
\<close>

locale boot_flow =
  fixes b :: "'h bus"
    and env :: rom_env
    and flow :: "('h, unit result) io"
    and gained :: u16
    and complete :: boot_status
  assumes flow_keeps: "storage_reg b (flow_addr env) view \<Longrightarrow> env_apart env \<Longrightarrow>
      fst (flow_of view s) AND fst (flow_of view (snd (run_state flow s))) = fst (flow_of view s)"
    and flow_ok: "storage_reg b (flow_addr env) view \<Longrightarrow> env_apart env \<Longrightarrow>
      fst (run_state flow s) = Ok () \<Longrightarrow>
      flow_of view (snd (run_state flow s)) = (fst (flow_of view s) OR gained, status_code complete)"
    and flow_err: "storage_reg b (flow_addr env) view \<Longrightarrow> env_apart env \<Longrightarrow>
      fst (run_state flow s) \<noteq> Ok () \<Longrightarrow>
      snd (flow_of view (snd (run_state flow s))) \<noteq> status_code complete"
begin

lemma completed_iff:
  "storage_reg b (flow_addr env) view \<Longrightarrow> env_apart env \<Longrightarrow>
     fst (run_state flow s) = Ok () \<longleftrightarrow>
       snd (flow_of view (snd (run_state flow s))) = status_code complete"
  using flow_ok flow_err by fastforce

text \<open>A second run after a success gains nothing more.\<close>

lemma flow_again:
  assumes "storage_reg b (flow_addr env) view" "env_apart env" "fst (run_state flow s) = Ok ()"
    and "fst (run_state flow (snd (run_state flow s))) = Ok ()"
  shows "flow_of view (snd (run_state flow (snd (run_state flow s)))) =
    flow_of view (snd (run_state flow s))"
  using flow_ok [OF assms(1-3)] flow_ok [OF assms(1,2,4)] by (simp add: or.assoc)

end

text \<open>A flow that cannot fail keeps the contract when its success case does.\<close>

lemma boot_flowI:
  assumes "\<And>s. fst (run_state flow s) = Ok ()"
    and "\<And>view s. storage_reg b (flow_addr env) view \<Longrightarrow> env_apart env \<Longrightarrow>
      flow_of view (snd (run_state flow s)) = (fst (flow_of view s) OR gained, status_code complete)"
  shows "boot_flow b env flow gained complete"
  using assms by unfold_locales (simp_all add: bit.conj_disj_distrib)

interpretation cold: boot_flow b env "cold_boot_execute b env"
  "ROM_STARTED OR CPTRA_BOOT_GO_ASSERTED OR CPTRA_FUSES_WRITTEN OR COLD_BOOT_FLOW_COMPLETE"
  ColdBootFlowComplete for b env
proof (unfold_locales, goal_cases)
  case (1 view s)
  from cold_boot_ends [OF 1, of s] show ?case
    by (cases rule: cold_end.cases) (simp_all add: bit.conj_disj_distrib)
next
  case (2 view s)
  then show ?case
    using cold_boot_ends [OF 2(1,2), of s] by (auto elim: cold_end_OkE)
next
  case (3 view s)
  have "fst (run_state (cold_boot_execute b env) s) = Err TIMEOUT"
    using cold_boot_ends [OF 3(1,2), of s] 3(3) by (cases rule: cold_end.cases) auto
  then show ?case
    using cold_boot_ends [OF 3(1,2), of s]
    by (auto elim!: cold_end_ErrE simp: status_code.simps reg_offsets)
qed

interpretation warm: boot_flow b env "warm_boot_execute b env" WARM_RESET_FLOW_COMPLETE
  WarmResetFlowComplete for b env
  by (rule boot_flowI) (simp_all add: warm_boot_execute_def boot_stubs flow_simps)

interpretation fw: boot_flow b env "fw_boot_execute b env" FIRMWARE_BOOT_FLOW_COMPLETE
  FirmwareBootFlowComplete for b env
  by (rule boot_flowI) (simp_all add: fw_boot_execute_def boot_stubs flow_simps)

interpretation hitless: boot_flow b env "fw_hitless_update_execute b env" 0
  HitlessUpdateFlowComplete for b env
  by (rule boot_flowI) (simp_all add: fw_hitless_update_execute_def boot_stubs flow_simps)

interpretation ownership: boot_flow b env "ownership_transfer_execute b env" 0
  DeviceOwnershipTransferComplete for b env
  by (rule boot_flowI) (simp_all add: ownership_transfer_run flow_ownership_transfer)

interpretation flash_recovery: boot_flow b env "execute_flash_recovery b env"
  FLASH_RECOVERY_FLOW_COMPLETED FlashRecoveryFlowComplete for b env
  by (rule boot_flowI) (simp_all add: execute_flash_recovery_def boot_stubs flow_simps)

section \<open>Any sequence of flows\<close>

datatype boot_call = CallCold | CallWarm | CallFw | CallHitless | CallOwnership
  | CallFlashRecovery | CallI3cRecovery

fun call_flow :: "'h bus \<Rightarrow> rom_env \<Rightarrow> boot_call \<Rightarrow> ('h, unit result) io" where
  "call_flow b env CallCold = cold_boot_execute b env"
| "call_flow b env CallWarm = warm_boot_execute b env"
| "call_flow b env CallFw = fw_boot_execute b env"
| "call_flow b env CallHitless = fw_hitless_update_execute b env"
| "call_flow b env CallOwnership = ownership_transfer_execute b env"
| "call_flow b env CallFlashRecovery = execute_flash_recovery b env"
| "call_flow b env CallI3cRecovery = execute_i3c_recovery b env"

fun call_flows :: "'h bus \<Rightarrow> rom_env \<Rightarrow> boot_call list \<Rightarrow> ('h, unit) io" where
  "call_flows b env [] = return ()"
| "call_flows b env (c # cs) = do { _ \<leftarrow> call_flow b env c; call_flows b env cs }"

lemma i3c_recovery_flow:
  "storage_reg b (flow_addr env) view \<Longrightarrow> env_apart env \<Longrightarrow>
     flow_of view (snd (run_state (execute_i3c_recovery b env) s)) = flow_of view s"
  by (simp add: execute_i3c_recovery_def flow_simps i3c_init_run)

lemma call_flow_keeps:
  assumes "storage_reg b (flow_addr env) view" "env_apart env"
  shows "fst (flow_of view s) AND fst (flow_of view (snd (run_state (call_flow b env c) s))) =
    fst (flow_of view s)"
  using assms
  by (cases c) (simp_all only: call_flow.simps cold.flow_keeps warm.flow_keeps fw.flow_keeps
      hitless.flow_keeps ownership.flow_keeps flash_recovery.flow_keeps i3c_recovery_flow and.idem)

lemma kept_trans: "x AND y = x \<Longrightarrow> y AND z = y \<Longrightarrow> x AND z = x" for x y z :: u16
  by (metis and.assoc)

section \<open>Properties\<close>



text \<open>
  C25. With an OTP controller that is idle and a mailbox that is not busy whenever they are
  asked, a cold boot succeeds, whatever else the hardware does.
\<close>

theorem cold_boot_succeeds:
  assumes "\<forall>h. fst (bus_read b (otp_base (env_otp env) + OTP_REG_STATUS) h) AND OTP_STATUS_IDLE \<noteq> 0"
    and "\<forall>h. fst (bus_read b (soc_mbox_addr (env_soc_manager env) + MBOX_STATUS) h)
          AND MBOX_STATUS_CMD_BUSY = 0"
  shows "fst (run_state (cold_boot_execute b env) s) = Ok ()"
  by (rule cold_boot_completes [OF assms])

theorem cold_boot_succeeds_witness:
  "fst (run_state (cold_boot_execute \<lparr>bus_read = \<lambda>a h. (if a = 0x70000000 then 1 else 0, h),
     bus_write = \<lambda>a v h. h, bus_csr = \<lambda>c h. (0, h)\<rparr> rom_env) (start_mach ())) = Ok ()"
  by (rule cold_boot_succeeds) (simp_all add: reg_offsets)

text \<open>
  C21. For each of the four flows the ROM dispatches to, success and the flow's completion
  checkpoint in the flow status register are the same thing.
\<close>

theorem completion_checkpoint_means_success:
  assumes "storage_reg b (mci_base (env_mci env) + MCI_REG_FW_FLOW_STATUS) view" "env_apart env"
  shows "(fst (run_state (cold_boot_execute b env) s) = Ok () \<longleftrightarrow>
      snd (flow_of view (snd (run_state (cold_boot_execute b env) s))) = status_code ColdBootFlowComplete) \<and>
    (fst (run_state (warm_boot_execute b env) s) = Ok () \<longleftrightarrow>
      snd (flow_of view (snd (run_state (warm_boot_execute b env) s))) = status_code WarmResetFlowComplete) \<and>
    (fst (run_state (fw_boot_execute b env) s) = Ok () \<longleftrightarrow>
      snd (flow_of view (snd (run_state (fw_boot_execute b env) s))) = status_code FirmwareBootFlowComplete) \<and>
    (fst (run_state (fw_hitless_update_execute b env) s) = Ok () \<longleftrightarrow>
      snd (flow_of view (snd (run_state (fw_hitless_update_execute b env) s))) =
        status_code HitlessUpdateFlowComplete)"
  using cold.completed_iff [OF assms] warm.completed_iff [OF assms] fw.completed_iff [OF assms]
    hitless.completed_iff [OF assms] by blast

theorem completion_checkpoint_means_success_witness:
  "fst (run_state (warm_boot_execute ram_bus rom_env) (start_mach (\<lambda>_. 0))) = Ok () \<longleftrightarrow>
     snd (flow_of (\<lambda>h. h (flow_addr rom_env))
       (snd (run_state (warm_boot_execute ram_bus rom_env) (start_mach (\<lambda>_. 0))))) =
       status_code WarmResetFlowComplete"
  using completion_checkpoint_means_success [OF ram_storage rom_env_apart, of "start_mach (\<lambda>_. 0)"]
  by blast

text \<open>
  C4. No sequence of boot flows, in any order, with any failures between, ever clears a
  milestone in the flow status register.
\<close>

theorem milestones_never_cleared:
  assumes "storage_reg b (mci_base (env_mci env) + MCI_REG_FW_FLOW_STATUS) view" "env_apart env"
  shows "fst (flow_of view s) AND fst (flow_of view (snd (run_state (call_flows b env cs) s))) =
    fst (flow_of view s)"
proof (induction cs arbitrary: s)
  case Nil
  show ?case by simp
next
  case (Cons c cs)
  show ?case
    using kept_trans [OF call_flow_keeps [OF assms] Cons.IH] by simp
qed

theorem milestones_never_cleared_witness:
  "0x8001 AND fst (flow_of (\<lambda>h. h (flow_addr rom_env)) (snd (run_state
     (call_flows ram_bus rom_env [CallCold, CallWarm, CallI3cRecovery]) (start_mach (\<lambda>_. 0x80010000))))) = 0x8001"
  using milestones_never_cleared [OF ram_storage rom_env_apart,
      of "start_mach (\<lambda>_. 0x80010000)" "[CallCold, CallWarm, CallI3cRecovery]"]
  by (simp add: flow_of_def flow_abs_def high_half_def del: call_flows.simps)

end
