(* ===== verification/Fuses.thy ===== *)
theory Fuses
  imports Prelude
begin

text \<open>
  Fuse layouts and the fuse view, \<^verbatim>\<open>src/rom/include/rom/fuse_layout.hpp\<close>,
  \<^verbatim>\<open>src/rom/include/rom/fuses.hpp\<close> and \<^verbatim>\<open>src/rom/src/fuses.cpp\<close>.
  \<^verbatim>\<open>RawFuses\<close> is an abstract class with no implementation in the repository: a
  record of the values its queries return.
\<close>

section \<open>Layouts\<close>

text \<open>The two wrappers of a number.\<close>

datatype fuse_bit_count = Bits (bits_value: u32)

datatype duplication = Duplication (duplication_value: u32)

datatype fuse_layout_type =
  LayoutSingle | LayoutOneHotLinearMajorityVote | LayoutLinearMajorityVote | LayoutWordMajorityVote

record fuse_layout =
  layout_type :: fuse_layout_type
  layout_bits :: u32
  layout_duplication :: u32

definition layout_default :: fuse_layout where
  "layout_default = \<lparr>layout_type = LayoutSingle, layout_bits = 0, layout_duplication = 1\<rparr>"

definition Single :: "fuse_bit_count \<Rightarrow> fuse_layout" where
  "Single bits = layout_default\<lparr>layout_type := LayoutSingle, layout_bits := bits_value bits,
     layout_duplication := 1\<rparr>"

definition OneHotLinearMajorityVote :: "fuse_bit_count \<Rightarrow> duplication \<Rightarrow> fuse_layout" where
  "OneHotLinearMajorityVote bits dup =
     layout_default\<lparr>layout_type := LayoutOneHotLinearMajorityVote, layout_bits := bits_value bits,
       layout_duplication := duplication_value dup\<rparr>"

definition LinearMajorityVote :: "fuse_bit_count \<Rightarrow> duplication \<Rightarrow> fuse_layout" where
  "LinearMajorityVote bits dup =
     layout_default\<lparr>layout_type := LayoutLinearMajorityVote, layout_bits := bits_value bits,
       layout_duplication := duplication_value dup\<rparr>"

definition WordMajorityVote :: "fuse_bit_count \<Rightarrow> duplication \<Rightarrow> fuse_layout" where
  "WordMajorityVote bits dup =
     layout_default\<lparr>layout_type := LayoutWordMajorityVote, layout_bits := bits_value bits,
       layout_duplication := duplication_value dup\<rparr>"

lemmas layout_factories = Single_def OneHotLinearMajorityVote_def LinearMajorityVote_def
  WordMajorityVote_def layout_default_def

section \<open>The fuse view\<close>

record pk_hash =
  pk_hash_data :: "u32 list"

record raw_fuses =
  raw_anti_rollback_disable :: u32
  raw_idevid_cert_idevid_attr :: "u32 list"
  raw_soc_specific_idevid_certificate :: "u32 list option"
  raw_idevid_manuf_hsm_identifier :: "u32 list"
  raw_soc_stepping_id :: u32
  raw_fmc_key_manifest_svn :: "u8 list"
  raw_runtime_svn :: "u8 list"
  raw_soc_manifest_svn :: "u8 list"
  raw_soc_manifest_max_svn :: "u8 list"
  raw_owner_pk_hash :: "pk_hash option"
  raw_owner_pqc_key_type :: "u8 list"
  raw_owner_pk_hash_valid :: u32
  raw_vendor_pk_hashes :: "pk_hash list"
  raw_pqc_key_types :: "u32 list"
  raw_vendor_pk_hash_valid :: "u32 list"
  raw_owner_ecc_revocation :: "u32 list"
  raw_owner_lms_revocation :: "u32 list"
  raw_owner_mldsa_revocation :: "u32 list"
  raw_ecc_revocations :: "u32 list"
  raw_lms_revocations :: "u32 list option"
  raw_mldsa_revocations :: "u32 list option"

record fuse_policy =
  anti_rollback_disable :: fuse_layout
  idevid_cert_idevid_attr :: fuse_layout
  soc_specific_idevid_certificate :: "fuse_layout option"
  idevid_manuf_hsm_identifier :: fuse_layout
  soc_stepping_id :: fuse_layout
  fmc_key_manifest_svn :: fuse_layout
  runtime_svn :: fuse_layout
  soc_manifest_svn :: fuse_layout
  soc_manifest_max_svn :: fuse_layout
  owner_pqc_key_type :: fuse_layout
  owner_pk_hash_valid :: fuse_layout
  pqc_key_types :: fuse_layout
  vendor_pk_hash_valid :: fuse_layout
  owner_ecc_revocation :: fuse_layout
  owner_lms_revocation :: fuse_layout
  owner_mldsa_revocation :: fuse_layout
  ecc_revocations :: fuse_layout
  lms_revocations :: fuse_layout
  mldsa_revocations :: fuse_layout

definition default_policy :: fuse_policy where
  "default_policy =
     \<lparr>anti_rollback_disable = Single (Bits 1),
      idevid_cert_idevid_attr = Single (Bits (768 * 8)),
      soc_specific_idevid_certificate = None,
      idevid_manuf_hsm_identifier = Single (Bits 32),
      soc_stepping_id = Single (Bits 32),
      fmc_key_manifest_svn = OneHotLinearMajorityVote (Bits 32) (Duplication 3),
      runtime_svn = OneHotLinearMajorityVote (Bits 128) (Duplication 3),
      soc_manifest_svn = OneHotLinearMajorityVote (Bits 128) (Duplication 3),
      soc_manifest_max_svn = Single (Bits 128),
      owner_pqc_key_type = Single (Bits 1),
      owner_pk_hash_valid = Single (Bits 1),
      pqc_key_types = Single (Bits 16),
      vendor_pk_hash_valid = Single (Bits 16),
      owner_ecc_revocation = LinearMajorityVote (Bits 1) (Duplication 3),
      owner_lms_revocation = LinearMajorityVote (Bits 1) (Duplication 3),
      owner_mldsa_revocation = LinearMajorityVote (Bits 1) (Duplication 3),
      ecc_revocations = WordMajorityVote (Bits 16) (Duplication 3),
      lms_revocations = WordMajorityVote (Bits 16) (Duplication 3),
      mldsa_revocations = WordMajorityVote (Bits 16) (Duplication 3)\<rparr>"

record mcu_fuses =
  fuses_raw :: raw_fuses
  fuses_policy :: fuse_policy

definition new_mcu_fuses :: "raw_fuses \<Rightarrow> fuse_policy option \<Rightarrow> mcu_fuses" where
  "new_mcu_fuses raw policy_override =
     \<lparr>fuses_raw = raw,
      fuses_policy = (case policy_override of None \<Rightarrow> default_policy | Some p \<Rightarrow> p)\<rparr>"

section \<open>Votes can be decided\<close>

text \<open>
  A layout is votable when a majority of its copies always exists: a single copy that no
  vote is taken on, or an odd number of at least three.
\<close>

definition votable :: "fuse_layout \<Rightarrow> bool" where
  "votable l \<longleftrightarrow> 0 < layout_bits l \<and>
     (if layout_type l = LayoutSingle then layout_duplication l = 1
      else odd (layout_duplication l) \<and> 3 \<le> layout_duplication l)"

definition policy_layouts :: "fuse_policy \<Rightarrow> fuse_layout list" where
  "policy_layouts p =
     [anti_rollback_disable p, idevid_cert_idevid_attr p, idevid_manuf_hsm_identifier p,
      soc_stepping_id p, fmc_key_manifest_svn p, runtime_svn p, soc_manifest_svn p,
      soc_manifest_max_svn p, owner_pqc_key_type p, owner_pk_hash_valid p, pqc_key_types p,
      vendor_pk_hash_valid p, owner_ecc_revocation p, owner_lms_revocation p,
      owner_mldsa_revocation p, ecc_revocations p, lms_revocations p, mldsa_revocations p] @
     (case soc_specific_idevid_certificate p of None \<Rightarrow> [] | Some l \<Rightarrow> [l])"

text \<open>Fuse bits a layout takes up.\<close>

definition fuse_bits :: "fuse_layout \<Rightarrow> nat" where
  "fuse_bits l = unat (layout_bits l) * unat (layout_duplication l)"

lemma default_policy_votable: "\<forall>l \<in> set (policy_layouts default_policy). votable l"
  by (simp add: policy_layouts_def default_policy_def layout_factories votable_def)

lemma default_policy_total: "sum_list (map fuse_bits (policy_layouts default_policy)) = 7388"
  by (simp add: policy_layouts_def default_policy_def layout_factories fuse_bits_def)

end
