(* ===== verification/Flash.thy ===== *)
theory Flash
  imports SocManager
begin

text \<open>
  The flash layer, \<^verbatim>\<open>src/rom/include/rom/flash/\<close> and
  \<^verbatim>\<open>src/rom/src/flash/\<close>. \<^verbatim>\<open>FlashHil\<close> is an abstract class
  that no code of the repository implements: a driver is a record of its operations, each
  a state transformer over an unknown driver state. A read takes the address and the
  caller's buffer and gives the result and the buffer it leaves.
\<close>

section \<open>Data\<close>

datatype flash_op = FlashRead | FlashWrite | FlashErase

record flash_status =
  flash_busy :: bool
  flash_write_enabled :: bool
  flash_error :: bool
  flash_error_code :: u8

datatype partition_type =
    PartBoot | PartFirmware | PartFirmwareBackup | PartConfig | PartLog | PartRecovery | PartRaw

record partition_descriptor =
  part_start_address :: u32
  part_size :: u32
  part_type :: partition_type
  part_is_writable :: bool
  part_is_secure :: bool

record flash_partition =
  partition_desc :: partition_descriptor

definition new_flash_partition :: "partition_descriptor \<Rightarrow> flash_partition" where
  "new_flash_partition desc = \<lparr>partition_desc = desc\<rparr>"

definition partition_start_address :: "flash_partition \<Rightarrow> u32" where
  "partition_start_address p = part_start_address (partition_desc p)"

definition partition_size_of :: "flash_partition \<Rightarrow> u32" where
  "partition_size_of p = part_size (partition_desc p)"

definition partition_type_of :: "flash_partition \<Rightarrow> partition_type" where
  "partition_type_of p = part_type (partition_desc p)"

definition partition_is_writable :: "flash_partition \<Rightarrow> bool" where
  "partition_is_writable p \<longleftrightarrow> part_is_writable (partition_desc p)"

definition partition_is_secure :: "flash_partition \<Rightarrow> bool" where
  "partition_is_secure p \<longleftrightarrow> part_is_secure (partition_desc p)"

record 's flash_hil =
  hil_init :: "('s, unit result) state"
  hil_read :: "u32 \<Rightarrow> u8 list \<Rightarrow> ('s, usize result \<times> u8 list) state"
  hil_write :: "u32 \<Rightarrow> u8 list \<Rightarrow> ('s, usize result) state"
  hil_erase :: "u32 \<Rightarrow> u32 \<Rightarrow> ('s, unit result) state"
  hil_status :: "('s, flash_status) state"
  hil_wait_idle :: "u32 \<Rightarrow> ('s, unit result) state"
  hil_capacity :: "('s, u32) state"
  hil_erase_block_size :: "('s, u32) state"
  hil_page_size :: "('s, u32) state"

text \<open>What a partition class implements; the repository has none.\<close>

record 's flash_partition_ops =
  partition_read :: "u32 \<Rightarrow> u8 list \<Rightarrow> ('s, usize result \<times> u8 list) state"
  partition_write :: "u32 \<Rightarrow> u8 list \<Rightarrow> ('s, usize result) state"
  partition_erase :: "u32 \<Rightarrow> u32 \<Rightarrow> ('s, unit result) state"

record flash_memory =
  fm_base_address :: u32
  fm_size :: u32

text \<open>The driver pointer the constructor keeps is the parameter \<open>hil\<close> of the reads.\<close>

definition new_flash_memory :: "u32 \<Rightarrow> u32 \<Rightarrow> flash_memory" where
  "new_flash_memory base_address size' = \<lparr>fm_base_address = base_address, fm_size = size'\<rparr>"

definition flash_base_address :: "flash_memory \<Rightarrow> u32" where
  "flash_base_address f = fm_base_address f"

definition flash_size :: "flash_memory \<Rightarrow> u32" where
  "flash_size f = fm_size f"

section \<open>Operations\<close>

text \<open>
  \<open>junk\<close> is what the uninitialised local buffer of \<^verbatim>\<open>read_word\<close> holds: its
  four bytes are indeterminate in C++.
\<close>

definition word_of_buffer :: "u8 list \<Rightarrow> u32" where
  "word_of_buffer buffer =
     ucast (buffer ! 0) OR push_bit 8 (ucast (buffer ! 1)) OR
     push_bit 16 (ucast (buffer ! 2)) OR push_bit 24 (ucast (buffer ! 3))"

definition flash_read_word ::
    "'s flash_hil \<Rightarrow> flash_memory \<Rightarrow> u8 list \<Rightarrow> u32 \<Rightarrow> ('s, u32 result) state" where
  "flash_read_word hil f junk offset =
     (if offset + 4 > fm_size f then return (Err FLASH_INVALID_ADDRESS)
      else do {
        (result, buffer) \<leftarrow> hil_read hil (fm_base_address f + offset) junk;
        case result of
          Inl e \<Rightarrow> return (Err e)
        | Inr n \<Rightarrow> return (Ok (word_of_buffer buffer)) })"

text \<open>The caller's buffer is as long as the length it passes.\<close>

definition flash_read ::
    "'s flash_hil \<Rightarrow> flash_memory \<Rightarrow> u32 \<Rightarrow> u8 list \<Rightarrow> ('s, usize result \<times> u8 list) state" where
  "flash_read hil f offset buffer =
     (let length' = of_nat (length buffer) :: usize in
      if offset + length' > fm_size f then return (Err FLASH_INVALID_ADDRESS, buffer)
      else hil_read hil (fm_base_address f + offset) buffer)"

definition flash_contains :: "flash_memory \<Rightarrow> u32 \<Rightarrow> bool" where
  "flash_contains f address \<longleftrightarrow>
     address \<ge> fm_base_address f \<and> address < fm_base_address f + fm_size f"

definition flash_to_offset :: "flash_memory \<Rightarrow> u32 \<Rightarrow> u32" where
  "flash_to_offset f address = address - fm_base_address f"

section \<open>Words\<close>

lemma word_of_bytes_le: "word_of_buffer (bytes_le w) = w"
proof (rule bit_word_eqI)
  fix n
  show "bit (word_of_buffer (bytes_le w)) n = bit w n" if "n < LENGTH(32)"
    using that by (cases "n < 16"; cases "n < 24") (auto simp: word_of_buffer_def bytes_le_def bit_simps)
qed

text \<open>The region, as numbers, when it does not run past the address space.\<close>

definition region_fits :: "flash_memory \<Rightarrow> bool" where
  "region_fits f \<longleftrightarrow> unat (fm_base_address f) + unat (fm_size f) < 2 ^ 32"

lemma flash_contains_iff:
  assumes "region_fits f"
  shows "flash_contains f a \<longleftrightarrow>
    unat (fm_base_address f) \<le> unat a \<and> unat a < unat (fm_base_address f) + unat (fm_size f)"
proof -
  have "unat (fm_base_address f + fm_size f) = unat (fm_base_address f) + unat (fm_size f)"
    using assms by (simp add: region_fits_def unat_word_ariths)
  then show ?thesis by (simp add: flash_contains_def word_le_nat_alt word_less_nat_alt)
qed

lemma flash_offset_below:
  assumes "region_fits f" "flash_contains f a"
  shows "flash_to_offset f a < fm_size f" "fm_base_address f + flash_to_offset f a = a"
proof -
  have "fm_base_address f \<le> a" using assms(2) by (simp add: flash_contains_def)
  then have "unat (a - fm_base_address f) = unat a - unat (fm_base_address f)"
    by (simp add: unat_sub)
  with assms flash_contains_iff [OF assms(1), of a] show "flash_to_offset f a < fm_size f"
    by (auto simp: flash_to_offset_def word_less_nat_alt)
qed (simp add: flash_to_offset_def)

text \<open>A driver that serves every read in full, from a memory of bytes.\<close>

definition serves_reads :: "'s flash_hil \<Rightarrow> ('s \<Rightarrow> u32 \<Rightarrow> u8) \<Rightarrow> bool" where
  "serves_reads hil cells \<longleftrightarrow> (\<forall>a buf s. fst (run_state (hil_read hil a buf) s) =
     (Ok (of_nat (length buf)), map (\<lambda>i. cells s (a + of_nat i)) [0..<length buf]))"

lemma flash_read_word_value:
  assumes "serves_reads hil cells" "length junk = 4" "unat offset + 4 \<le> unat (fm_size f)"
    and "\<forall>i < 4. cells s (fm_base_address f + offset + of_nat i) = bytes_le w ! i"
  shows "fst (run_state (flash_read_word hil f junk offset) s) = Ok w"
proof -
  have "unat (offset + 4) = unat offset + 4"
    using assms(3) u32_bound [of "fm_size f"] by (simp add: unat_word_ariths)
  then have in_range: "\<not> offset + 4 > fm_size f"
    using assms(3) by (simp add: word_less_nat_alt)
  have "map (\<lambda>i. cells s (fm_base_address f + offset + of_nat i)) [0..<4] = bytes_le w"
    using assms(4) by (intro nth_equalityI) (simp_all add: bytes_le_def)
  then have "fst (run_state (hil_read hil (fm_base_address f + offset) junk) s) = (Ok 4, bytes_le w)"
    using assms(1,2) by (simp add: serves_reads_def)
  then show ?thesis
    using in_range by (simp add: flash_read_word_def case_prod_beta word_of_bytes_le)
qed

text \<open>Both bounds checks add in 32 bits: an offset near the top wraps past them.\<close>

lemma read_word_wraps:
  assumes "unat offset \<ge> 2 ^ 32 - 4" "4 \<le> fm_size f"
  shows "run_state (flash_read_word hil f junk offset) s =
    run_state (do {
        (result, buffer) \<leftarrow> hil_read hil (fm_base_address f + offset) junk;
        case result of
          Inl e \<Rightarrow> return (Err e)
        | Inr n \<Rightarrow> return (Ok (word_of_buffer buffer)) }) s"
proof -
  have "unat (offset + 4) = unat offset + 4 - 2 ^ 32"
    using assms(1) u32_bound [of offset] by (simp add: unat_word_ariths mod_if)
  then have "offset + 4 < 4"
    using assms(1) u32_bound [of offset] by (simp add: word_less_nat_alt)
  then have "\<not> offset + 4 > fm_size f" using assms(2) by (simp add: not_less)
  then show ?thesis by (simp only: flash_read_word_def if_False)
qed

section \<open>Properties\<close>

text \<open>
  On a flash driver that serves every read in full, \<^verbatim>\<open>read_word\<close> of an offset
  whose four bytes lie in the region returns the word stored there in little-endian order.
\<close>

theorem flash_read_word_le:
  assumes "serves_reads hil cells" "length junk = 4" "unat offset + 4 \<le> unat (fm_size f)"
    and "\<forall>i < 4. cells s (fm_base_address f + offset + of_nat i) = bytes_le w ! i"
  shows "fst (run_state (flash_read_word hil f junk offset) s) = Ok w"
  by (rule flash_read_word_value [OF assms])

text \<open>A driver on plain memory; an erase leaves bytes of ones.\<close>

definition bytes_hil :: "(u32 \<Rightarrow> u8) flash_hil" where
  "bytes_hil =
     \<lparr>hil_init = return (Ok ()),
      hil_read = \<lambda>a buf. State (\<lambda>s.
        ((Ok (of_nat (length buf)), map (\<lambda>i. s (a + of_nat i)) [0..<length buf]), s)),
      hil_write = \<lambda>a data. State (\<lambda>s.
        (Ok (of_nat (length data)), \<lambda>x. if unat (x - a) < length data then data ! unat (x - a) else s x)),
      hil_erase = \<lambda>a n. State (\<lambda>s. (Ok (), \<lambda>x. if x - a < n then 0xFF else s x)),
      hil_status = return \<lparr>flash_busy = False, flash_write_enabled = True, flash_error = False,
        flash_error_code = 0\<rparr>,
      hil_wait_idle = \<lambda>t. return (Ok ()),
      hil_capacity = return 0xFFFFFFFF, hil_erase_block_size = return 4096, hil_page_size = return 256\<rparr>"

lemma bytes_hil_serves: "serves_reads bytes_hil (\<lambda>s. s)"
  by (simp add: serves_reads_def bytes_hil_def)

theorem flash_read_word_le_witness:
  "fst (run_state (flash_read_word bytes_hil \<lparr>fm_base_address = 0x100, fm_size = 8\<rparr> [9, 9, 9, 9] 4)
     (\<lambda>a. [0x78, 0x56, 0x34, 0x12] ! unat (a - 0x104))) = Ok 0x12345678"
proof (rule flash_read_word_le [OF bytes_hil_serves])
  show "\<forall>i < 4. [0x78, 0x56, 0x34, 0x12] !
      unat (fm_base_address \<lparr>fm_base_address = 0x100, fm_size = 8\<rparr> + 4 + of_nat i - 0x104) =
      bytes_le 0x12345678 ! i"
  proof (intro allI impI)
    fix i :: nat
    assume "i < 4"
    then have "i = 0 \<or> i = 1 \<or> i = 2 \<or> i = 3" by arith
    then show "[0x78, 0x56, 0x34, 0x12] !
        unat (fm_base_address \<lparr>fm_base_address = 0x100, fm_size = 8\<rparr> + 4 + of_nat i - 0x104) =
        bytes_le 0x12345678 ! i"
      by (elim disjE) (simp_all add: bytes_le_def)
  qed
qed simp_all

text \<open>
  C40. The bounds check of \<^verbatim>\<open>read_word\<close> adds in 32 bits. For each of the four offsets
  next to 2^32 it lets the read through to the driver, at an address outside the region,
  on every region that does not wrap itself and has at least four bytes.
\<close>

theorem flash_read_word_check_wraps:
  assumes "unat offset \<ge> 2 ^ 32 - 4" "4 \<le> fm_size f" "region_fits f" "4 \<le> fm_base_address f"
  shows "\<not> flash_contains f (fm_base_address f + offset) \<and>
    run_state (flash_read_word hil f junk offset) s =
      (case run_state (hil_read hil (fm_base_address f + offset) junk) s of
         ((Inl e, _), s') \<Rightarrow> (Err e, s')
       | ((Inr _, buffer), s') \<Rightarrow> (Ok (word_of_buffer buffer), s'))"
proof
  have "unat (fm_base_address f + offset) = unat (fm_base_address f) + unat offset - 2 ^ 32"
    using assms(1,4) u32_bound [of offset] u32_bound [of "fm_base_address f"]
    by (simp add: unat_word_ariths word_le_nat_alt mod_if)
  then have "unat (fm_base_address f + offset) < unat (fm_base_address f)"
    using u32_bound [of offset] assms(4) by (simp add: word_le_nat_alt)
  then show "\<not> flash_contains f (fm_base_address f + offset)"
    using flash_contains_iff [OF assms(3)] by auto
qed (simp add: read_word_wraps [OF assms(1,2)] case_prod_beta split: sum.splits prod.splits)

theorem flash_read_word_check_wraps_witness:
  "fst (run_state (flash_read_word bytes_hil \<lparr>fm_base_address = 0x100, fm_size = 8\<rparr> [9, 9, 9, 9]
     0xFFFFFFFC) (\<lambda>a. ucast a)) = Ok 0xFFFEFDFC"
  using flash_read_word_check_wraps [of "0xFFFFFFFC" "\<lparr>fm_base_address = 0x100, fm_size = 8\<rparr>"
      bytes_hil "[9, 9, 9, 9]" "\<lambda>a. ucast a"]
  by (simp add: region_fits_def bytes_hil_def word_of_buffer_def upt_conv_Cons)

end
