(* ===== verification/RomParams.thy ===== *)
theory RomParams
  imports Mci Lifecycle Flash
begin

text \<open>
  The parameters of \<^verbatim>\<open>rom_start\<close>, \<^verbatim>\<open>src/rom/include/rom/rom.hpp\<close>, and
  the types only they use, with the image verification interface of
  \<^verbatim>\<open>src/rom/include/rom/image_verifier.hpp\<close>. Nothing implements the interface, so
  it is a record of the results its queries give; a pointer is an option. The flash driver
  behind \<^verbatim>\<open>dot_flash\<close> works on an unknown state \<open>'f\<close>.
\<close>

record image_verification_result =
  signature_valid :: bool
  manifest_valid :: bool
  image_svn :: u32
  image_entry_point :: u32
  image_size :: usize

record image_verifier =
  verify_image :: "u8 list \<Rightarrow> image_verification_result result"
  verify_manifest :: "u8 list \<Rightarrow> unit result"
  verify_signature :: "u8 list \<Rightarrow> u8 list \<Rightarrow> unit result"

datatype lifecycle_token = TestUnlock | TestExit | RmaUnlock

record lifecycle_hashed_tokens =
  token_data :: "u32 list"

datatype cm_stable_key_type = IDevID | LDevID

record 'f rom_parameters =
  lifecycle_transition :: "(lifecycle_controller_state \<times> lifecycle_token) option"
  burn_lifecycle_tokens :: "lifecycle_hashed_tokens option"
  flash_partition_driver :: "flash_partition option"
  program_field_entropy :: "bool list"
  mcu_image_header_size :: usize
  mcu_image_verifier :: "image_verifier option"
  dot_stable_key_type :: "cm_stable_key_type option"
  dot_flash :: "'f flash_hil option"
  otp_enable_integrity_check :: bool
  otp_enable_consistency_check :: bool
  otp_check_timeout_override :: "u32 option"

definition new_rom_parameters :: "'f rom_parameters" where
  "new_rom_parameters =
     \<lparr>lifecycle_transition = None, burn_lifecycle_tokens = None, flash_partition_driver = None,
      program_field_entropy = [False, False, False, False], mcu_image_header_size = 0,
      mcu_image_verifier = None, dot_stable_key_type = None, dot_flash = None,
      otp_enable_integrity_check = False, otp_enable_consistency_check = False,
      otp_check_timeout_override = None\<rparr>"

text \<open>The parameters \<^verbatim>\<open>main\<close> passes.\<close>

abbreviation main_parameters :: "unit rom_parameters" where
  "main_parameters \<equiv> new_rom_parameters"

section \<open>The second enumeration of reset reasons\<close>

text \<open>
  rom.hpp declares reset reasons of its own, with values. They are not the bits of the reset
  reason register: the driver's decoder takes each of them for the next reason.
\<close>

datatype rom_reset_reason =
    RomColdBoot | RomWarmReset | RomFirmwareBootReset | RomFirmwareHitlessUpdate | RomInvalid

fun rom_reset_code :: "rom_reset_reason \<Rightarrow> u32" where
  "rom_reset_code RomColdBoot = 0x01"
| "rom_reset_code RomWarmReset = 0x02"
| "rom_reset_code RomFirmwareBootReset = 0x04"
| "rom_reset_code RomFirmwareHitlessUpdate = 0x08"
| "rom_reset_code RomInvalid = 0xFFFFFFFF"

lemma rom_reset_codes_shifted:
  "map (\<lambda>r. reset_reason_of (rom_reset_code r))
     [RomColdBoot, RomWarmReset, RomFirmwareBootReset, RomFirmwareHitlessUpdate, RomInvalid] =
   [WarmReset, FirmwareBootReset, FirmwareHitlessUpdate, ColdBoot, Mci.Invalid]"
  by (simp add: reset_reason_of_def reg_offsets)

end
