(* ===== verification/Rom.thy ===== *)
theory Rom
  imports BootFlows Fuses RomParams
begin

text \<open>
  The ROM proper, \<^verbatim>\<open>src/rom/src/rom.cpp\<close>, \<^verbatim>\<open>src/rom/include/rom/rom.hpp\<close>
  and the emulator's \<^verbatim>\<open>src/platforms/emulator/rom/src/main.cpp\<close>, in the RISC-V
  build. A \<^verbatim>\<open>[[noreturn]]\<close> function has the outcome \<open>Looping\<close>. A
  \<^verbatim>\<open>std::array\<close> of five is a list of length five.
\<close>

section \<open>Fatal errors\<close>

definition EMULATOR_FATAL_ADDR :: u32 where [reg_offsets]: "EMULATOR_FATAL_ADDR = 0x21000020"

definition EMULATOR_EXIT_ADDR :: u32 where [reg_offsets]: "EMULATOR_EXIT_ADDR = 0x10002000"

definition set_fatal_error_handler :: "bool \<Rightarrow> ('h, unit) io" where
  "set_fatal_error_handler handler = State (\<lambda>s. ((), s\<lparr>g_fatal_handler := handler\<rparr>))"

text \<open>\<^verbatim>\<open>RomFatalErrorHandler::fatal_error\<close> of the emulator platform.\<close>

definition emulator_fatal_error :: "'h bus \<Rightarrow> u32 \<Rightarrow> ('h, 'a outcome) io" where
  "emulator_fatal_error b code = do {
     say ''[mcu-rom] FATAL ERROR: 0x'';
     print_hex_word code;
     sayln [];
     mmio_write b EMULATOR_FATAL_ADDR code;
     mmio_write b EMULATOR_EXIT_ADDR code;
     return Looping }"

definition fatal_error_raw :: "'h bus \<Rightarrow> u32 \<Rightarrow> ('h, 'a outcome) io" where
  "fatal_error_raw b code = do {
     s \<leftarrow> State_Monad.get;
     if g_fatal_handler s then emulator_fatal_error b code
     else do {
       set_fw_fatal_error b (env_mci rom_env) code;
       return Looping } }"

definition fatal_error :: "'h bus \<Rightarrow> mcu_error \<Rightarrow> ('h, 'a outcome) io" where
  "fatal_error b e = fatal_error_raw b (error_code e)"

text \<open>The marker function is an empty assembly statement.\<close>

definition panic_is_possible :: "('h, unit) io" where
  "panic_is_possible = return ()"

definition rom_panic :: "'h bus \<Rightarrow> ('h, unit outcome) io" where
  "rom_panic b = do { panic_is_possible; fatal_error_raw b 0 }"

text \<open>The return address register is read by inline assembly: a parameter.\<close>

definition exception_handler :: "'h bus \<Rightarrow> u32 \<Rightarrow> ('h, unit outcome) io" where
  "exception_handler b ra = do {
     mcause \<leftarrow> read_csr_mcause b;
     mepc \<leftarrow> read_csr_mepc b;
     sp \<leftarrow> read_csr_mscratch b;
     say ''EXCEPTION mcause='';
     print_hex_word mcause;
     say '' mepc='';
     print_hex_word mepc;
     say '' sp='';
     print_hex_word sp;
     say '' ra='';
     print_hex_word ra;
     sayln [];
     fatal_error b GENERIC_EXCEPTION }"

section \<open>The Soc registers\<close>

record soc =
  soc_base :: uintptr

definition CPTRA_FLOW_STATUS :: usize where [reg_offsets]: "CPTRA_FLOW_STATUS = 0x00"

definition SS_GENERIC_FW_EXEC_CTRL_0 :: usize where [reg_offsets]: "SS_GENERIC_FW_EXEC_CTRL_0 = 0x04"

definition CPTRA_FW_ERROR_FATAL :: usize where [reg_offsets]: "CPTRA_FW_ERROR_FATAL = 0x08"

definition CPTRA_WDT_CFG_BASE :: usize where [reg_offsets]: "CPTRA_WDT_CFG_BASE = 0x0C"

definition CPTRA_MBOX_VALID_AXI_USER_BASE :: usize where [reg_offsets]:
  "CPTRA_MBOX_VALID_AXI_USER_BASE = 0x20"

definition CPTRA_MBOX_AXI_USER_LOCK_BASE :: usize where [reg_offsets]:
  "CPTRA_MBOX_AXI_USER_LOCK_BASE = 0x34"

definition CPTRA_FUSE_VALID_AXI_USER :: usize where [reg_offsets]: "CPTRA_FUSE_VALID_AXI_USER = 0x48"

definition CPTRA_FUSE_AXI_USER_LOCK :: usize where [reg_offsets]: "CPTRA_FUSE_AXI_USER_LOCK = 0x4C"

definition CPTRA_TRNG_VALID_AXI_USER :: usize where [reg_offsets]: "CPTRA_TRNG_VALID_AXI_USER = 0x50"

definition CPTRA_TRNG_AXI_USER_LOCK :: usize where [reg_offsets]: "CPTRA_TRNG_AXI_USER_LOCK = 0x54"

definition SS_CALIPTRA_DMA_AXI_USER :: usize where [reg_offsets]: "SS_CALIPTRA_DMA_AXI_USER = 0x58"

definition CPTRA_FUSE_WR_DONE :: usize where [reg_offsets]: "CPTRA_FUSE_WR_DONE = 0x5C"

definition FUSE_PQC_KEY_TYPE :: usize where [reg_offsets]: "FUSE_PQC_KEY_TYPE = 0x140"

definition FUSE_FMC_KEY_MANIFEST_SVN :: usize where [reg_offsets]: "FUSE_FMC_KEY_MANIFEST_SVN = 0x144"

definition SS_UDS_SEED_BASE_ADDR_L :: usize where [reg_offsets]: "SS_UDS_SEED_BASE_ADDR_L = 0x200"

definition SS_UDS_SEED_BASE_ADDR_H :: usize where [reg_offsets]: "SS_UDS_SEED_BASE_ADDR_H = 0x204"

definition SS_STRAP_GENERIC_BASE :: usize where [reg_offsets]: "SS_STRAP_GENERIC_BASE = 0x208"

definition FLOW_STATUS_READY_FOR_RUNTIME :: u32 where [reg_offsets]: "FLOW_STATUS_READY_FOR_RUNTIME = 0x01"

definition FLOW_STATUS_READY_FOR_MB :: u32 where [reg_offsets]: "FLOW_STATUS_READY_FOR_MB = 0x02"

definition FLOW_STATUS_READY_FOR_FUSES :: u32 where [reg_offsets]: "FLOW_STATUS_READY_FOR_FUSES = 0x04"

definition FW_EXEC_CTRL_FW_READY :: u32 where [reg_offsets]: "FW_EXEC_CTRL_FW_READY = push_bit 2 1"

definition LMS_FUSE_VALUE :: u8 where [reg_offsets]: "LMS_FUSE_VALUE = 1"

definition MLDSA_FUSE_VALUE :: u8 where [reg_offsets]: "MLDSA_FUSE_VALUE = 0"

definition LMS_CALIPTRA_VALUE :: u8 where [reg_offsets]: "LMS_CALIPTRA_VALUE = 3"

definition MCU_MBOX_USERS :: usize where [reg_offsets]: "MCU_MBOX_USERS = 5"

definition FUSE_VENDOR_PK_HASH_BASE :: usize where [reg_offsets]: "FUSE_VENDOR_PK_HASH_BASE = 0x100"

definition FUSE_RUNTIME_SVN_BASE :: usize where [reg_offsets]: "FUSE_RUNTIME_SVN_BASE = 0x148"

definition MLDSA_CALIPTRA_VALUE :: u8 where [reg_offsets]: "MLDSA_CALIPTRA_VALUE = 1"

definition OTP_DAI_IDLE_BIT_OFFSET :: u32 where [reg_offsets]: "OTP_DAI_IDLE_BIT_OFFSET = 22"

definition OTP_DIRECT_ACCESS_CMD_REG_OFFSET :: u32 where [reg_offsets]:
  "OTP_DIRECT_ACCESS_CMD_REG_OFFSET = 0x60"

definition soc_read_reg :: "'h bus \<Rightarrow> soc \<Rightarrow> usize \<Rightarrow> ('h, u32) io" where [io_defs]:
  "soc_read_reg b c offset = mmio_read b (soc_base c + offset)"

definition soc_write_reg :: "'h bus \<Rightarrow> soc \<Rightarrow> usize \<Rightarrow> u32 \<Rightarrow> ('h, unit) io" where [io_defs]:
  "soc_write_reg b c offset v = mmio_write b (soc_base c + offset) v"

interpretation soc_regs: register_block b "soc_base c" "soc_read_reg b c" "soc_write_reg b c" for b c
  by unfold_locales (simp_all add: io_defs)

section \<open>The Soc operations\<close>

definition new_soc :: "uintptr \<Rightarrow> soc" where
  "new_soc base_addr = \<lparr>soc_base = base_addr\<rparr>"

definition ready_for_runtime :: "'h bus \<Rightarrow> soc \<Rightarrow> ('h, bool) io" where
  "ready_for_runtime b c = do {
     w \<leftarrow> soc_read_reg b c CPTRA_FLOW_STATUS;
     return (w AND FLOW_STATUS_READY_FOR_RUNTIME \<noteq> 0) }"

definition fw_ready :: "'h bus \<Rightarrow> soc \<Rightarrow> ('h, bool) io" where
  "fw_ready b c = do {
     w \<leftarrow> soc_read_reg b c SS_GENERIC_FW_EXEC_CTRL_0;
     return (w AND FW_EXEC_CTRL_FW_READY \<noteq> 0) }"

definition soc_flow_status :: "'h bus \<Rightarrow> soc \<Rightarrow> ('h, u32) io" where
  "soc_flow_status b c = soc_read_reg b c CPTRA_FLOW_STATUS"

definition ready_for_mbox :: "'h bus \<Rightarrow> soc \<Rightarrow> ('h, bool) io" where
  "ready_for_mbox b c = do {
     w \<leftarrow> soc_read_reg b c CPTRA_FLOW_STATUS;
     return (w AND FLOW_STATUS_READY_FOR_MB \<noteq> 0) }"

definition ready_for_fuses :: "'h bus \<Rightarrow> soc \<Rightarrow> ('h, bool) io" where
  "ready_for_fuses b c = do {
     w \<leftarrow> soc_read_reg b c CPTRA_FLOW_STATUS;
     return (w AND FLOW_STATUS_READY_FOR_FUSES \<noteq> 0) }"

definition cptra_fw_fatal_error :: "'h bus \<Rightarrow> soc \<Rightarrow> ('h, bool) io" where
  "cptra_fw_fatal_error b c = do {
     w \<leftarrow> soc_read_reg b c CPTRA_FW_ERROR_FATAL;
     return (w \<noteq> 0) }"

definition set_cptra_wdt_cfg :: "'h bus \<Rightarrow> soc \<Rightarrow> usize \<Rightarrow> u32 \<Rightarrow> ('h, unit) io" where
  "set_cptra_wdt_cfg b c index v = soc_write_reg b c (CPTRA_WDT_CFG_BASE + index * 4) v"

definition set_cptra_mbox_valid_axi_user :: "'h bus \<Rightarrow> soc \<Rightarrow> usize \<Rightarrow> u32 \<Rightarrow> ('h, unit outcome) io" where
  "set_cptra_mbox_valid_axi_user b c index v =
     (if index \<ge> 5 then fatal_error b INVALID_PARAMETER
      else do { soc_write_reg b c (CPTRA_MBOX_VALID_AXI_USER_BASE + index * 4) v; return (Returned ()) })"

definition set_cptra_mbox_axi_user_lock :: "'h bus \<Rightarrow> soc \<Rightarrow> usize \<Rightarrow> u32 \<Rightarrow> ('h, unit outcome) io" where
  "set_cptra_mbox_axi_user_lock b c index v =
     (if index \<ge> 5 then fatal_error b INVALID_PARAMETER
      else do { soc_write_reg b c (CPTRA_MBOX_AXI_USER_LOCK_BASE + index * 4) v; return (Returned ()) })"

definition set_cptra_fuse_valid_axi_user :: "'h bus \<Rightarrow> soc \<Rightarrow> u32 \<Rightarrow> ('h, unit) io" where
  "set_cptra_fuse_valid_axi_user b c v = soc_write_reg b c CPTRA_FUSE_VALID_AXI_USER v"

definition set_cptra_fuse_axi_user_lock :: "'h bus \<Rightarrow> soc \<Rightarrow> u32 \<Rightarrow> ('h, unit) io" where
  "set_cptra_fuse_axi_user_lock b c v = soc_write_reg b c CPTRA_FUSE_AXI_USER_LOCK v"

definition set_cptra_trng_valid_axi_user :: "'h bus \<Rightarrow> soc \<Rightarrow> u32 \<Rightarrow> ('h, unit) io" where
  "set_cptra_trng_valid_axi_user b c v = soc_write_reg b c CPTRA_TRNG_VALID_AXI_USER v"

definition set_cptra_trng_axi_user_lock :: "'h bus \<Rightarrow> soc \<Rightarrow> u32 \<Rightarrow> ('h, unit) io" where
  "set_cptra_trng_axi_user_lock b c v = soc_write_reg b c CPTRA_TRNG_AXI_USER_LOCK v"

definition set_ss_caliptra_dma_axi_user :: "'h bus \<Rightarrow> soc \<Rightarrow> u32 \<Rightarrow> ('h, unit) io" where
  "set_ss_caliptra_dma_axi_user b c v = soc_write_reg b c SS_CALIPTRA_DMA_AXI_USER v"

definition soc_populate_fuses :: "'h bus \<Rightarrow> soc \<Rightarrow> otp \<Rightarrow> mci \<Rightarrow> ('h, unit) io" where
  "soc_populate_fuses b c p m = do {
     sayln ''[mcu-fuse-write] Setting UDS/FE base address'';
     soc_write_reg b c SS_UDS_SEED_BASE_ADDR_L 0;
     soc_write_reg b c SS_UDS_SEED_BASE_ADDR_H 0;
     sayln ''[mcu-fuse-write] Setting DAI idle bit offset and direct access cmd reg offset'';
     soc_write_reg b c SS_STRAP_GENERIC_BASE (push_bit 16 OTP_DAI_IDLE_BIT_OFFSET);
     soc_write_reg b c (SS_STRAP_GENERIC_BASE + 4) OTP_DIRECT_ACCESS_CMD_REG_OFFSET;
     soc_write_reg b c FUSE_PQC_KEY_TYPE (ucast MLDSA_CALIPTRA_VALUE);
     sayln ''[mcu-fuse-write] Setting vendor PQC type'';
     svn_result \<leftarrow> otp_read_word b p 0;
     (case svn_result of
        Inl e \<Rightarrow> return ()
      | Inr v \<Rightarrow> soc_write_reg b c FUSE_FMC_KEY_MANIFEST_SVN v) }"

record axi_users =
  mbox_users :: "u32 option list"
  fuse_user :: u32
  trng_user :: u32
  dma_user :: u32

fun set_mbox_users :: "'h bus \<Rightarrow> soc \<Rightarrow> usize \<Rightarrow> u32 option list \<Rightarrow> ('h, unit outcome) io" where
  "set_mbox_users b c i [] = return (Returned ())"
| "set_mbox_users b c i (None # us) = set_mbox_users b c (i + 1) us"
| "set_mbox_users b c i (Some user # us) = do {
     say ''[mcu-rom] Setting Caliptra mailbox user '';
     then_run (set_cptra_mbox_valid_axi_user b c i user) (\<lambda>_. do {
       sayln ''[mcu-rom] Locking Caliptra mailbox user'';
       then_run (set_cptra_mbox_axi_user_lock b c i 1) (\<lambda>_. set_mbox_users b c (i + 1) us) }) }"

definition set_axi_users :: "'h bus \<Rightarrow> soc \<Rightarrow> axi_users \<Rightarrow> ('h, unit outcome) io" where
  "set_axi_users b c users =
     then_run (set_mbox_users b c 0 (mbox_users users)) (\<lambda>_. do {
       sayln ''[mcu-rom] Setting fuse user'';
       set_cptra_fuse_valid_axi_user b c (fuse_user users);
       sayln ''[mcu-rom] Locking fuse user'';
       set_cptra_fuse_axi_user_lock b c 1;
       sayln ''[mcu-rom] Setting TRNG user'';
       set_cptra_trng_valid_axi_user b c (trng_user users);
       sayln ''[mcu-rom] Locking TRNG user'';
       set_cptra_trng_axi_user_lock b c 1;
       sayln ''[mcu-rom] Setting DMA user'';
       set_ss_caliptra_dma_axi_user b c (dma_user users);
       return (Returned ()) })"

definition fuse_write_done :: "'h bus \<Rightarrow> soc \<Rightarrow> ('h, unit) io" where
  "fuse_write_done b c = soc_write_reg b c CPTRA_FUSE_WR_DONE 1"

text \<open>The wait has no bound in the code: fuel counts its tests.\<close>

fun wait_for_firmware_ready :: "nat \<Rightarrow> 'h bus \<Rightarrow> soc \<Rightarrow> mci \<Rightarrow> ('h, unit outcome) io" where
  "wait_for_firmware_ready 0 b c m = return NoFuel"
| "wait_for_firmware_ready (Suc fuel) b c m = do {
     r \<leftarrow> fw_ready b c;
     if r then return (Returned ())
     else do {
       fatal \<leftarrow> cptra_fw_fatal_error b c;
       if fatal then do {
         sayln ''[mcu-rom] Caliptra reported a fatal error'';
         fatal_error b BOOT_FAILED }
       else wait_for_firmware_ready fuel b c m } }"

section \<open>Mailbox users\<close>

record mcu_mbox_axi_user_config =
  cfg_mbox0_users :: "u32 option list"
  cfg_mbox1_users :: "u32 option list"
  cfg_mbox0_locks :: "bool list"
  cfg_mbox1_locks :: "bool list"

text \<open>
  The two loops of \<^verbatim>\<open>configure_mcu_mbox_axi_users\<close> differ in the message and in the
  two MCI calls; what they record of slot \<open>i\<close> is a user and a lock flag.
\<close>

fun configure_loop :: "string \<Rightarrow> (usize \<Rightarrow> u32 \<Rightarrow> ('h, bool) io) \<Rightarrow> (usize \<Rightarrow> ('h, bool) io) \<Rightarrow>
    usize \<Rightarrow> u32 list \<Rightarrow> ('h, (u32 option \<times> bool) list) io" where
  "configure_loop msg write_user lock i [] = return []"
| "configure_loop msg write_user lock i (u # us) = do {
     slot \<leftarrow> (if u \<noteq> 0 then do {
                sayln msg;
                write_user i u;
                lock i;
                return (Some u, True) }
              else return (None, False));
     slots \<leftarrow> configure_loop msg write_user lock (i + 1) us;
     return (slot # slots) }"

definition configure_mcu_mbox_axi_users :: "'h bus \<Rightarrow> mci \<Rightarrow> u32 list \<Rightarrow> u32 list \<Rightarrow>
    ('h, mcu_mbox_axi_user_config) io" where
  "configure_mcu_mbox_axi_users b m users0 users1 = do {
     slots0 \<leftarrow> configure_loop ''[mcu-rom] Setting MCI mailbox 0 user''
       (write_mbox0_valid_axi_user b m) (lock_mbox0_axi_user b m) 0 users0;
     slots1 \<leftarrow> configure_loop ''[mcu-rom] Setting MCI mailbox 1 user''
       (write_mbox1_valid_axi_user b m) (lock_mbox1_axi_user b m) 0 users1;
     return \<lparr>cfg_mbox0_users = map fst slots0, cfg_mbox1_users = map fst slots1,
             cfg_mbox0_locks = map snd slots0, cfg_mbox1_locks = map snd slots1\<rparr> }"

fun verify_loop :: "string \<Rightarrow> string \<Rightarrow> (usize \<Rightarrow> ('h, u32 option) io) \<Rightarrow> (usize \<Rightarrow> ('h, bool option) io) \<Rightarrow>
    usize \<Rightarrow> (u32 option \<times> bool) list \<Rightarrow> ('h, unit result) io" where
  "verify_loop user_msg lock_msg read_user read_lock i [] = return (Ok ())"
| "verify_loop user_msg lock_msg read_user read_lock i ((user, locked) # slots) =
     or_return
       (case user of
          None \<Rightarrow> return (Ok ())
        | Some expected_val \<Rightarrow> do {
            actual \<leftarrow> read_user i;
            if expected_val \<noteq> value_or actual 0 then do {
              sayln user_msg;
              return (Err MBOX_INVALID_RESPONSE) }
            else return (Ok ()) })
       (\<lambda>_. do {
          actual \<leftarrow> read_lock i;
          if locked \<noteq> value_or actual False then do {
            sayln lock_msg;
            return (Err MBOX_INVALID_RESPONSE) }
          else verify_loop user_msg lock_msg read_user read_lock (i + 1) slots })"

definition verify_mcu_mbox_axi_users :: "'h bus \<Rightarrow> mci \<Rightarrow> mcu_mbox_axi_user_config \<Rightarrow>
    ('h, unit result) io" where
  "verify_mcu_mbox_axi_users b m expected =
     or_return
       (verify_loop ''[mcu-rom] MCU mailbox 0 user verification failed''
         ''[mcu-rom] MCU mailbox 0 user lock verification failed''
         (read_mbox0_valid_axi_user b m) (read_mbox0_axi_user_lock b m) 0
         (zip (cfg_mbox0_users expected) (cfg_mbox0_locks expected)))
       (\<lambda>_. or_return
         (verify_loop ''[mcu-rom] MCU mailbox 1 user verification failed''
           ''[mcu-rom] MCU mailbox 1 user lock verification failed''
           (read_mbox1_valid_axi_user b m) (read_mbox1_axi_user_lock b m) 0
           (zip (cfg_mbox1_users expected) (cfg_mbox1_locks expected)))
         (\<lambda>_. do {
            sayln ''[mcu-rom] MCU mailbox AXI user verification passed'';
            return (Ok ()) }))"

section \<open>The debug unlock key hashes\<close>

text \<open>The words of one hash, from \<open>word_idx\<close> on; the flag accumulates mismatches.\<close>

fun compare_words :: "'h bus \<Rightarrow> mci \<Rightarrow> otp \<Rightarrow> usize \<Rightarrow> usize \<Rightarrow> nat \<Rightarrow> bool \<Rightarrow> ('h, bool result) io" where
  "compare_words b m p hash_idx word_idx 0 mismatch = return (Ok mismatch)"
| "compare_words b m p hash_idx word_idx (Suc n) mismatch = do {
     let hash_base_offset = 124 + hash_idx * 48;
     let reg_idx = hash_idx * 12 + word_idx;
     expected_result \<leftarrow> otp_read_word b p (hash_base_offset + word_idx * 4);
     case expected_result of
       Inl e \<Rightarrow> return (Err OTP_READ_ERROR)
     | Inr expected \<Rightarrow> do {
         actual_result \<leftarrow> read_prod_debug_unlock_pk_hash b m reg_idx;
         let actual = value_or actual_result 0;
         compare_words b m p hash_idx (word_idx + 1) n (mismatch \<or> expected \<noteq> actual) } }"

fun compare_hashes :: "'h bus \<Rightarrow> mci \<Rightarrow> otp \<Rightarrow> usize \<Rightarrow> nat \<Rightarrow> bool \<Rightarrow> ('h, bool result) io" where
  "compare_hashes b m p hash_idx 0 mismatch = return (Ok mismatch)"
| "compare_hashes b m p hash_idx (Suc n) mismatch =
     or_return (compare_words b m p hash_idx 0 12 mismatch)
       (\<lambda>mm. compare_hashes b m p (hash_idx + 1) n mm)"

definition verify_prod_debug_unlock_pk_hash :: "'h bus \<Rightarrow> mci \<Rightarrow> otp \<Rightarrow> ('h, unit result) io" where
  "verify_prod_debug_unlock_pk_hash b m p = do {
     let expected_len = 96;
     let pk_hash_len = prod_debug_unlock_pk_hash_len m;
     if pk_hash_len \<noteq> expected_len then do {
       sayln ''[mcu-rom] PK hash length mismatch'';
       return (Err OTP_READ_ERROR) }
     else or_return (compare_hashes b m p 0 8 False) (\<lambda>mismatch.
       if mismatch then do {
         sayln ''[mcu-rom] Prod debug unlock PK hash verification failed'';
         return (Err OTP_READ_ERROR) }
       else do {
         sayln ''[mcu-rom] Prod debug unlock PK hash verification passed'';
         return (Ok ()) }) }"

section \<open>The entry point\<close>

definition print_lifecycle :: "device_lifecycle_state \<Rightarrow> ('h, unit) io" where
  "print_lifecycle d = (case d of
     DeviceUnprovisioned \<Rightarrow> sayln ''Unprovisioned''
   | DeviceManufacturing \<Rightarrow> sayln ''Manufacturing''
   | DeviceProvisioned \<Rightarrow> sayln ''Production''
   | DeviceSecurityLocked \<Rightarrow> sayln ''SecurityLocked'')"

definition rom_banner :: "'h bus \<Rightarrow> rom_env \<Rightarrow> ('h, unit) io" where
  "rom_banner b env = do {
     set_flow_milestone b (env_mci env) ROM_STARTED;
     say ''[mcu-rom] Device lifecycle: '';
     d \<leftarrow> device_lifecycle_state b (env_mci env);
     print_lifecycle d;
     say ''[mcu-rom] MCI generic input wires[0]: '';
     w0 \<leftarrow> generic_input_wires b (env_mci env) 0;
     print_hex_word w0;
     sayln [];
     say ''[mcu-rom] MCI generic input wires[1]: '';
     w1 \<leftarrow> generic_input_wires b (env_mci env) 1;
     print_hex_word w1;
     sayln [];
     r \<leftarrow> reset_reason b (env_mci env);
     say ''[mcu-rom] MCI RESET_REASON: 0x'';
     print_hex_word r;
     sayln [] }"

definition rom_dispatch :: "'h bus \<Rightarrow> rom_env \<Rightarrow> mcu_reset_reason \<Rightarrow> ('h, unit outcome) io" where
  "rom_dispatch b env reason = (case reason of
     ColdBoot \<Rightarrow> do {
       sayln ''[mcu-rom] Cold boot detected'';
       _ \<leftarrow> cold_boot_execute b env;
       return Looping }
   | WarmReset \<Rightarrow> do {
       sayln ''[mcu-rom] Warm reset detected'';
       _ \<leftarrow> warm_boot_execute b env;
       return Looping }
   | FirmwareBootReset \<Rightarrow> do {
       sayln ''[mcu-rom] Firmware boot reset detected'';
       _ \<leftarrow> fw_boot_execute b env;
       return Looping }
   | FirmwareHitlessUpdate \<Rightarrow> do {
       sayln ''[mcu-rom] Starting firmware hitless update flow'';
       _ \<leftarrow> fw_hitless_update_execute b env;
       return Looping }
   | Mci.Invalid \<Rightarrow> do {
       sayln ''[mcu-rom] Invalid reset reason: multiple bits set'';
       fatal_error b BOOT_INVALID_RESET_REASON })"

text \<open>The parameters are not used.\<close>

definition rom_start :: "'h bus \<Rightarrow> 'f rom_parameters \<Rightarrow> ('h, unit outcome) io" where
  "rom_start b params = do {
     sayln ''[mcu-rom] Hello from CPP ROM'';
     rom_banner b rom_env;
     reason \<leftarrow> reset_reason_enum b (env_mci rom_env);
     rom_dispatch b rom_env reason }"

text \<open>\<^verbatim>\<open>main\<close> of the RISC-V build.\<close>

definition rom_main :: "'h bus \<Rightarrow> ('h, unit outcome) io" where
  "rom_main b = do {
     set_printer True;
     set_fatal_error_handler True;
     let params = main_parameters;
     rom_start b params }"

end
