(* ===== verification/RomProofs.thy ===== *)
theory RomProofs
  imports Rom
begin

text \<open>
  What the ROM's functions do: the mailbox user configuration and its verification on
  registers that behave like storage, the key hash check, the fatal error path and the
  dispatch of \<^verbatim>\<open>rom_start\<close>.
\<close>

section \<open>Configuring and verifying one bank\<close>

lemma of_nat_step: "of_nat k + 1 = (of_nat (Suc k) :: usize)"
  by simp

lemma of_nat_below_8: "k < 8 \<Longrightarrow> (of_nat k :: usize) < 8"
  by (simp add: word_less_nat_alt unat_of_nat)

lemma of_nat_eq_8: "j < 8 \<Longrightarrow> k < 8 \<Longrightarrow> (of_nat j :: usize) = of_nat k \<longleftrightarrow> j = k"
  by (simp add: word_unat_eq_iff unat_of_nat)

definition slot_of :: "u32 \<Rightarrow> u32 option \<times> bool" where
  "slot_of u = (if u \<noteq> 0 then (Some u, True) else (None, False))"

fun slot_ok :: "u32 option \<times> bool \<Rightarrow> u32 \<Rightarrow> u32 \<Rightarrow> bool" where
  "slot_ok (u, l) user_reg lock_reg \<longleftrightarrow>
     (case u of None \<Rightarrow> True | Some e \<Rightarrow> e = user_reg) \<and> (l \<longleftrightarrow> lock_reg AND 1 \<noteq> 0)"

text \<open>A lock is set on a slot that the configuration leaves alone.\<close>

definition stray_lock :: "(nat \<Rightarrow> u32) \<Rightarrow> (u32 \<Rightarrow> u32) \<Rightarrow> u32 list \<Rightarrow> bool" where
  "stray_lock lock_reg regs users \<longleftrightarrow>
     (\<exists>j < length users. users ! j = 0 \<and> regs (lock_reg j) AND 1 \<noteq> 0)"

context axi_bank begin

definition user_at :: "nat \<Rightarrow> u32" where
  "user_at j = base + (vbase + of_nat j * 4)"

definition lock_at :: "nat \<Rightarrow> u32" where
  "lock_at j = base + (lbase + of_nat j * 4)"

definition bank :: "u32 set" where
  "bank = user_at ` {..<8} \<union> lock_at ` {..<8}"

lemma bank_mem: "j < 8 \<Longrightarrow> user_at j \<in> bank" "j < 8 \<Longrightarrow> lock_at j \<in> bank"
  by (auto simp: bank_def)

lemma bank_distinct:
  assumes "j < 8" "k < 8"
  shows "user_at j = user_at k \<longleftrightarrow> j = k" "lock_at j = lock_at k \<longleftrightarrow> j = k"
    "user_at j \<noteq> lock_at k" "lock_at k \<noteq> user_at j"
  using same_index [OF of_nat_below_8 [OF assms(1)] of_nat_below_8 [OF assms(2)]]
    banks_apart [OF of_nat_below_8 [OF assms(1)] of_nat_below_8 [OF assms(2)]] of_nat_eq_8 [OF assms]
  by (auto simp: user_at_def lock_at_def)

lemma ops_at:
  assumes "k < 8"
  shows "run_state (wr_user (of_nat k) u) s = (True, snd (run_state (mmio_write b (user_at k) u) s))"
    "run_state (lock (of_nat k)) s = (True, snd (run_state (mmio_write b (lock_at k) 1) s))"
    "run_state (rd_user (of_nat k)) s =
       (Some (fst (bus_read b (user_at k) (hw s))), snd (run_state (mmio_read b (user_at k)) s))"
    "run_state (rd_lock (of_nat k)) s =
       (Some (fst (bus_read b (lock_at k) (hw s)) AND 1 \<noteq> 0), snd (run_state (mmio_read b (lock_at k)) s))"
  using of_nat_below_8 [OF assms]
  by (simp_all add: wr_user_run lock_run rd_user_run rd_lock_run user_at_def lock_at_def)

lemma configure_loop_result:
  "k + length us \<le> 8 \<Longrightarrow>
     fst (run_state (configure_loop msg wr_user lock (of_nat k) us) s) = map slot_of us"
proof (induction us arbitrary: k s)
  case (Cons u us)
  then show ?case
    using Cons.IH [of "Suc k"] by (simp add: slot_of_def of_nat_step [symmetric] add.commute)
qed simp

lemma configure_loop_other:
  "storage_reg b a view \<Longrightarrow> a \<notin> bank \<Longrightarrow> k + length us \<le> 8 \<Longrightarrow>
     view (hw (snd (run_state (configure_loop msg wr_user lock (of_nat k) us) s))) = view (hw s)"
proof (induction us arbitrary: k s)
  case (Cons u us)
  have k: "k < 8" using Cons.prems by simp
  have "user_at k \<noteq> a" "lock_at k \<noteq> a" using bank_mem [OF k] Cons.prems(2) by auto
  then show ?case
    using Cons.IH [of "Suc k"] Cons.prems
    by (simp add: ops_at [OF k] of_nat_step [symmetric] add.commute run_mmio storage_write_other frame)
qed simp

lemma configure_loop_view:
  assumes block: "storage_block b bank view"
  shows "k + length us \<le> 8 \<Longrightarrow> j < 8 \<Longrightarrow>
    (let s' = snd (run_state (configure_loop msg wr_user lock (of_nat k) us) s);
         set = k \<le> j \<and> j < k + length us \<and> us ! (j - k) \<noteq> 0
     in view (hw s') (user_at j) = (if set then us ! (j - k) else view (hw s) (user_at j)) \<and>
        view (hw s') (lock_at j) = (if set then 1 else view (hw s) (lock_at j)))"
proof (induction us arbitrary: k s)
  case (Cons u us)
  have k: "k < 8" and pre: "Suc k + length us \<le> 8" using Cons.prems by simp_all
  define s1 where "s1 = (if u \<noteq> 0 then snd (run_state (do { sayln msg; wr_user (of_nat k) u;
    lock (of_nat k); return (Some u, True) }) s) else s)"
  have run: "snd (run_state (configure_loop msg wr_user lock (of_nat k) (u # us)) s) =
      snd (run_state (configure_loop msg wr_user lock (of_nat (Suc k)) us) s1)"
    by (simp add: s1_def of_nat_step [symmetric] add.commute)
  have v1: "view (hw s1) (user_at j) = (if j = k \<and> u \<noteq> 0 then u else view (hw s) (user_at j))"
    "view (hw s1) (lock_at j) = (if j = k \<and> u \<noteq> 0 then 1 else view (hw s) (lock_at j))"
    using bank_mem [OF Cons.prems(2)] bank_distinct [OF k Cons.prems(2)] bank_distinct [OF Cons.prems(2) k]
    by (auto simp: s1_def ops_at [OF k] run_mmio block_write [OF block] frame)
  show ?case
    using Cons.IH [OF pre Cons.prems(2), of s1] v1 unfolding run Let_def
    by (auto simp: nth_Cons' Suc_le_eq Suc_diff_Suc le_less)
qed auto

lemma verify_loop_view:
  "storage_reg b a view \<Longrightarrow> k + length slots \<le> 8 \<Longrightarrow>
     view (hw (snd (run_state (verify_loop um lm rd_user rd_lock (of_nat k) slots) s))) = view (hw s)"
proof (induction slots arbitrary: k s)
  case (Cons slot slots)
  obtain u l where slot: "slot = (u, l)" by (cases slot)
  have k: "k < 8" using Cons.prems by simp
  show ?case
    using Cons.IH [of "Suc k"] Cons.prems
    by (cases u) (auto simp: slot ops_at [OF k] run_or_return run_mmio storage_read_keeps frame
        of_nat_step [symmetric] add.commute split: if_splits)
qed simp

lemma verify_loop_result:
  assumes block: "storage_block b bank view"
  shows "k + length slots \<le> 8 \<Longrightarrow>
    fst (run_state (verify_loop um lm rd_user rd_lock (of_nat k) slots) s) =
      (if \<forall>j < length slots. slot_ok (slots ! j) (view (hw s) (user_at (k + j))) (view (hw s) (lock_at (k + j)))
       then Ok () else Err MBOX_INVALID_RESPONSE)"
proof (induction slots arbitrary: k s)
  case (Cons slot slots)
  obtain u l where slot: "slot = (u, l)" by (cases slot)
  have k: "k < 8" and pre: "Suc k + length slots \<le> 8" using Cons.prems by simp_all
  have keeps: "view (snd (bus_read b x h)) (user_at j) = view h (user_at j)"
    "view (snd (bus_read b x h)) (lock_at j) = view h (lock_at j)" if "j < 8" for x h j
    using block_read_keeps [OF block bank_mem(1) [OF that]]
      block_read_keeps [OF block bank_mem(2) [OF that]] by simp_all
  have here: "fst (bus_read b (user_at k) h) = view h (user_at k)"
    "fst (bus_read b (lock_at k) h) = view h (lock_at k)" for h
    using block_read [OF block bank_mem(1) [OF k]] block_read [OF block bank_mem(2) [OF k]] by simp_all
  have split: "(\<forall>j < length (slot # slots). P j) \<longleftrightarrow> P 0 \<and> (\<forall>j < length slots. P (Suc j))" for P
    using less_Suc_eq_0_disj by auto
  let ?rest = "\<forall>j < length slots. slot_ok (slots ! j) (view (hw s) (user_at (Suc k + j)))
    (view (hw s) (lock_at (Suc k + j)))"
  have rest: "fst (run_state (verify_loop um lm rd_user rd_lock (of_nat k + 1) slots) s') =
      (if ?rest then Ok () else Err MBOX_INVALID_RESPONSE)"
    if "\<forall>j < 8. view (hw s') (user_at j) = view (hw s) (user_at j) \<and>
          view (hw s') (lock_at j) = view (hw s) (lock_at j)" for s'
  proof -
    have "(\<forall>j < length slots. slot_ok (slots ! j) (view (hw s') (user_at (Suc k + j)))
        (view (hw s') (lock_at (Suc k + j)))) = ?rest"
      using that pre by auto
    then show ?thesis unfolding of_nat_step using Cons.IH [OF pre, of s'] by (simp only: simp_thms if_cancel)
  qed
  show ?case
  proof (cases u)
    case None
    then show ?thesis
      unfolding split unfolding slot
      by (simp add: ops_at [OF k] rest here keeps k run_mmio value_or_def or_return_return)
  next
    case (Some e)
    then show ?thesis
      unfolding split unfolding slot
      by (simp add: ops_at [OF k] rest here keeps k run_mmio value_or_def run_or_return)
  qed
qed simp

lemma configured_slot_ok:
  assumes block: "storage_block b bank view" and "length us \<le> 8" "j < length us"
  shows "slot_ok (map slot_of us ! j)
      (view (hw (snd (run_state (configure_loop msg wr_user lock 0 us) s))) (user_at j))
      (view (hw (snd (run_state (configure_loop msg wr_user lock 0 us) s))) (lock_at j)) \<longleftrightarrow>
    (us ! j = 0 \<longrightarrow> view (hw s) (lock_at j) AND 1 = 0)"
  using configure_loop_view [OF block, of 0 us j msg s] assms(2,3)
  by (simp add: Let_def slot_of_def)

text \<open>A configured bank verifies, in any later state that kept it, unless a lock was set before.\<close>

lemma configured_verifies:
  assumes block: "storage_block b bank view" and len: "length us \<le> 8"
    and kept: "\<And>a. a \<in> bank \<Longrightarrow>
      view (hw t) a = view (hw (snd (run_state (configure_loop msg wr_user lock 0 us) s))) a"
  shows "fst (run_state (verify_loop um lm rd_user rd_lock 0 (map slot_of us)) t) =
    (if stray_lock lock_at (view (hw s)) us then Err MBOX_INVALID_RESPONSE else Ok ())"
  using verify_loop_result [OF block, of 0 "map slot_of us" um lm t]
    configured_slot_ok [OF block len, of _ msg s] len
  by (auto simp: kept bank_mem stray_lock_def)

end

section \<open>Both mailboxes\<close>

lemma bank_addresses:
  "mbox0.user_at m i = mci_base m + of_nat (128 + i * 4)"
  "mbox0.lock_at m i = mci_base m + of_nat (160 + i * 4)"
  "mbox1.user_at m i = mci_base m + of_nat (192 + i * 4)"
  "mbox1.lock_at m i = mci_base m + of_nat (224 + i * 4)"
  unfolding mbox0.user_at_def mbox0.lock_at_def mbox1.user_at_def mbox1.lock_at_def
  by (simp_all add: reg_offsets)

lemma small_offsets: "x < 256 \<Longrightarrow> y < 256 \<Longrightarrow> (of_nat x :: u32) = of_nat y \<longleftrightarrow> x = y"
  by (simp add: word_unat_eq_iff unat_of_nat)

lemma mbox_banks_apart:
  "i < 8 \<Longrightarrow> j < 8 \<Longrightarrow> mbox0.user_at m i \<noteq> mbox1.user_at m j \<and> mbox0.user_at m i \<noteq> mbox1.lock_at m j \<and>
     mbox0.lock_at m i \<noteq> mbox1.user_at m j \<and> mbox0.lock_at m i \<noteq> mbox1.lock_at m j"
  unfolding bank_addresses add_left_cancel
  by (subst (1 2 3 4) small_offsets; simp)

lemma banks_disjoint: "mbox0.bank m \<inter> mbox1.bank m = {}"
  using mbox_banks_apart by (fastforce simp: mbox0.bank_def mbox1.bank_def)

definition mbox_user_regs :: "mci \<Rightarrow> u32 set" where
  "mbox_user_regs m = mbox0.bank m \<union> mbox1.bank m"

lemma configure_verify:
  assumes block: "storage_block b (mbox_user_regs m) view"
    and len: "length users0 = 5" "length users1 = 5"
  shows "fst (run_state (do {
      config \<leftarrow> configure_mcu_mbox_axi_users b m users0 users1;
      verify_mcu_mbox_axi_users b m config }) s) =
    (if stray_lock (mbox0.lock_at m) (view (hw s)) users0 \<or>
        stray_lock (mbox1.lock_at m) (view (hw s)) users1
     then Err MBOX_INVALID_RESPONSE else Ok ())"
proof -
  have b0: "storage_block b (mbox0.bank m) view" and b1: "storage_block b (mbox1.bank m) view"
    using block by (auto simp: storage_block_def mbox_user_regs_def)
  let ?c0 = "configure_loop ''[mcu-rom] Setting MCI mailbox 0 user'' (write_mbox0_valid_axi_user b m)
    (lock_mbox0_axi_user b m) 0 users0"
  let ?c1 = "configure_loop ''[mcu-rom] Setting MCI mailbox 1 user'' (write_mbox1_valid_axi_user b m)
    (lock_mbox1_axi_user b m) 0 users1"
  let ?v0 = "verify_loop ''[mcu-rom] MCU mailbox 0 user verification failed''
    ''[mcu-rom] MCU mailbox 0 user lock verification failed''
    (read_mbox0_valid_axi_user b m) (read_mbox0_axi_user_lock b m) 0 (map slot_of users0)"
  define s1 where "s1 = snd (run_state ?c0 s)"
  define s2 where "s2 = snd (run_state ?c1 s1)"
  define s3 where "s3 = snd (run_state ?v0 s2)"
  have keep1: "view (hw s1) a = view (hw s) a" if "a \<in> mbox1.bank m" for a
    using mbox0.configure_loop_other [OF storage_blockD [OF b1 that], of m 0 users0
        "''[mcu-rom] Setting MCI mailbox 0 user''" s] that banks_disjoint len
    by (auto simp: s1_def)
  have keep2: "view (hw s2) a = view (hw s1) a" if "a \<in> mbox0.bank m" for a
    using mbox1.configure_loop_other [OF storage_blockD [OF b0 that], of m 0 users1
        "''[mcu-rom] Setting MCI mailbox 1 user''" s1] that banks_disjoint len
    by (auto simp: s2_def)
  have keep3: "view (hw s3) a = view (hw s2) a" if "a \<in> mbox1.bank m" for a
    using mbox0.verify_loop_view [OF storage_blockD [OF b1 that], of 0 "map slot_of users0"] len
    by (simp add: s3_def)
  have "stray_lock (mbox1.lock_at m) (view (hw s1)) users1 =
      stray_lock (mbox1.lock_at m) (view (hw s)) users1"
    using len by (auto simp: stray_lock_def keep1 mbox1.bank_mem)
  moreover have "fst (run_state ?c0 s) = map slot_of users0" "fst (run_state ?c1 s1) = map slot_of users1"
    using mbox0.configure_loop_result [of 0 users0] mbox1.configure_loop_result [of 0 users1] len
    by simp_all
  moreover note mbox0.configured_verifies [OF b0 _ keep2 [unfolded s1_def]]
    mbox1.configured_verifies [OF b1 _ keep3 [unfolded s2_def]]
  ultimately show ?thesis
    using len
    by (simp add: configure_mcu_mbox_axi_users_def verify_mcu_mbox_axi_users_def run_or_return
        zip_map_fst_snd s1_def [symmetric] s2_def [symmetric] s3_def [symmetric])
qed

section \<open>The key hash check\<close>

lemma pk_hash_check_fails:
  "run_state (verify_prod_debug_unlock_pk_hash b m p) s =
     (Err OTP_READ_ERROR, snd (run_state (sayln ''[mcu-rom] PK hash length mismatch'') s))"
  by (simp add: verify_prod_debug_unlock_pk_hash_def prod_debug_unlock_pk_hash_len_def reg_offsets Let_def)

section \<open>Fatal errors\<close>

lemma fatal_outcome: "fst (run_state (fatal_error_raw b code) s) = Looping"
  by (simp add: fatal_error_raw_def emulator_fatal_error_def)

lemma fatal_trace_handler:
  "g_fatal_handler s \<Longrightarrow>
     trace (snd (run_state (fatal_error_raw b code) s)) =
       trace s @ [Wr EMULATOR_FATAL_ADDR code, Wr EMULATOR_EXIT_ADDR code]"
  by (simp add: fatal_error_raw_def emulator_fatal_error_def run_mmio frame)

lemma fatal_trace_no_handler:
  "\<not> g_fatal_handler s \<Longrightarrow>
     trace (snd (run_state (fatal_error_raw b code) s)) =
       trace s @ [Wr (mci_base (env_mci rom_env) + MCI_REG_FW_ERROR_FATAL) code]"
  by (simp add: fatal_error_raw_def set_fw_fatal_error_def mci_regs.wr_trace)

lemma fatal_addr_is_wdt:
  "EMULATOR_FATAL_ADDR = mci_base (env_mci rom_env) + MCI_REG_WDT_TIMER2_TIMEOUT_PERIOD_0"
  "EMULATOR_FATAL_ADDR \<noteq> mci_base (env_mci rom_env) + MCI_REG_FW_ERROR_FATAL"
  by (simp_all add: reg_offsets)

section \<open>Caliptra's mailbox users\<close>

text \<open>The writes of the user loop: user and lock of every slot that has a user.\<close>

fun user_writes :: "soc \<Rightarrow> usize \<Rightarrow> u32 option list \<Rightarrow> (u32 \<times> u32) list" where
  "user_writes c i [] = []"
| "user_writes c i (None # us) = user_writes c (i + 1) us"
| "user_writes c i (Some u # us) =
     (soc_base c + (CPTRA_MBOX_VALID_AXI_USER_BASE + i * 4), u) #
     (soc_base c + (CPTRA_MBOX_AXI_USER_LOCK_BASE + i * 4), 1) # user_writes c (i + 1) us"

lemma set_mbox_users_run:
  "k + length us \<le> 5 \<Longrightarrow>
     fst (run_state (set_mbox_users b c (of_nat k) us) s) = Returned () \<and>
     (\<exists>es. trace (snd (run_state (set_mbox_users b c (of_nat k) us) s)) = trace s @ es \<and>
        writes es = user_writes c (of_nat k) us)"
proof (induction us arbitrary: k s)
  case (Cons u us)
  have k: "\<not> (of_nat k :: usize) \<ge> 5"
    using Cons.prems by (simp add: word_le_nat_alt unat_of_nat)
  have pre: "Suc k + length us \<le> 5" using Cons.prems by simp
  show ?case
  proof (cases u)
    case None
    then show ?thesis using Cons.IH [OF pre, of s] by (simp add: of_nat_step [symmetric] add.commute)
  next
    case (Some v)
    define s1 where "s1 = snd (run_state (do {
      say ''[mcu-rom] Setting Caliptra mailbox user '';
      soc_write_reg b c (CPTRA_MBOX_VALID_AXI_USER_BASE + of_nat k * 4) v;
      sayln ''[mcu-rom] Locking Caliptra mailbox user'';
      soc_write_reg b c (CPTRA_MBOX_AXI_USER_LOCK_BASE + of_nat k * 4) 1 }) s)"
    have t1: "trace s1 = trace s @
        [Wr (soc_base c + (CPTRA_MBOX_VALID_AXI_USER_BASE + of_nat k * 4)) v,
         Wr (soc_base c + (CPTRA_MBOX_AXI_USER_LOCK_BASE + of_nat k * 4)) 1]"
      by (simp add: s1_def soc_regs.wr_trace frame)
    have "run_state (set_mbox_users b c (of_nat k) (u # us)) s =
        run_state (set_mbox_users b c (of_nat k + 1) us) s1"
      using k Some by (simp add: s1_def set_cptra_mbox_valid_axi_user_def
          set_cptra_mbox_axi_user_lock_def)
    then show ?thesis
      using Cons.IH [OF pre, of s1] t1 Some
      by (auto simp: of_nat_step [symmetric] add.commute)
  qed
qed simp

lemma out_of_range_user:
  "i \<ge> 5 \<Longrightarrow> run_state (set_cptra_mbox_valid_axi_user b c i v) s = run_state (fatal_error b INVALID_PARAMETER) s"
  "i \<ge> 5 \<Longrightarrow> run_state (set_cptra_mbox_axi_user_lock b c i v) s = run_state (fatal_error b INVALID_PARAMETER) s"
  by (simp_all add: set_cptra_mbox_valid_axi_user_def set_cptra_mbox_axi_user_lock_def)

text \<open>The watchdog configuration has no such check: index 5 is the first mailbox user.\<close>

lemma wdt_index_5:
  "run_state (set_cptra_wdt_cfg b c 5 v) s =
     run_state (mmio_write b (soc_base c + CPTRA_MBOX_VALID_AXI_USER_BASE) v) s"
  by (simp add: set_cptra_wdt_cfg_def io_defs reg_offsets)

section \<open>The dispatch\<close>

text \<open>Everything before the dispatch: console output, one milestone and four reads.\<close>

definition before_dispatch :: "'h bus \<Rightarrow> 'h mach \<Rightarrow> 'h mach" where
  "before_dispatch b s = snd (run_state (do {
     sayln ''[mcu-rom] Hello from CPP ROM'';
     rom_banner b rom_env }) s)"

lemma rom_start_run:
  "run_state (rom_start b params) s =
     run_state (do { reason \<leftarrow> reset_reason_enum b (env_mci rom_env); rom_dispatch b rom_env reason })
       (before_dispatch b s)"
  by (simp add: rom_start_def before_dispatch_def)

lemma dispatch_outcome: "fst (run_state (rom_dispatch b env reason) s) = Looping"
  by (cases reason) (simp_all add: rom_dispatch_def fatal_error_def fatal_outcome)

lemma print_lifecycle_frame [frame]:
  "hw (snd (run_state (print_lifecycle d) s)) = hw s"
  "g_fatal_handler (snd (run_state (print_lifecycle d) s)) = g_fatal_handler s"
  by (cases d; simp add: print_lifecycle_def frame)+

lemma wires_view:
  "storage_reg b a view \<Longrightarrow> view (hw (snd (run_state (generic_input_wires b m i) s))) = view (hw s)"
  by (simp add: generic_input_wires_def mci_regs.rd_view)

lemma banner_flow:
  assumes "storage_reg b (flow_addr rom_env) view"
  shows "flow_of view (before_dispatch b s) = (fst (flow_of view s) OR ROM_STARTED, snd (flow_of view s))"
  using assms
  by (simp add: before_dispatch_def rom_banner_def flow_of_def frame reset_reason_def
      device_lifecycle_state_def mci_regs.rd_view wires_view set_flow_milestone_view flow_abs_def or.commute)

lemma banner_other:
  assumes "storage_reg b a view" "a \<noteq> flow_addr rom_env"
  shows "view (hw (before_dispatch b s)) = view (hw s)"
  using assms
  by (simp add: before_dispatch_def rom_banner_def frame reset_reason_def device_lifecycle_state_def
      mci_regs.rd_view wires_view set_flow_milestone_run Let_def run_mmio storage_read_keeps
      storage_write_other)

text \<open>The registers a boot flow writes.\<close>

definition boot_regs :: "rom_env \<Rightarrow> u32 set" where
  "boot_regs env = {flow_addr env, i3c_base (env_i3c env) + I3C_REG_CTRL,
     mci_base (env_mci env) + MCI_REG_CPTRA_BOOT_GO}"

text \<open>\<open>reg_kept a view m\<close>: the operation \<open>m\<close> leaves the register at \<open>a\<close> alone.\<close>

definition reg_kept :: "('h \<Rightarrow> u32) \<Rightarrow> ('h, 'a) io \<Rightarrow> bool" where
  "reg_kept view m \<longleftrightarrow> (\<forall>s. view (hw (snd (run_state m s))) = view (hw s))"

lemma kept_bind: "reg_kept view m \<Longrightarrow> (\<And>x. reg_kept view (f x)) \<Longrightarrow> reg_kept view (State_Monad.bind m f)"
  by (simp add: reg_kept_def)

lemma kept_or_return: "reg_kept view m \<Longrightarrow> (\<And>x. reg_kept view (f x)) \<Longrightarrow> reg_kept view (or_return m f)"
  by (auto simp: reg_kept_def run_or_return split: sum.splits)

lemma kept_return: "reg_kept view (return x)"
  by (simp add: reg_kept_def)

lemma kept_if: "reg_kept view m \<Longrightarrow> reg_kept view n \<Longrightarrow> reg_kept view (if c then m else n)"
  by simp

lemma kept_println: "reg_kept view (println str)"
  by (simp add: reg_kept_def frame)

lemma kept_checkpoint: "storage_reg b a view \<Longrightarrow> a \<noteq> flow_addr env \<Longrightarrow> reg_kept view (checkpoint b env st)"
  by (simp add: reg_kept_def checkpoint_def set_flow_checkpoint_run run_mmio Let_def
      storage_read_keeps storage_write_other)

lemma kept_milestone: "storage_reg b a view \<Longrightarrow> a \<noteq> flow_addr env \<Longrightarrow> reg_kept view (milestone b env ms)"
  by (simp add: reg_kept_def milestone_def set_flow_milestone_run run_mmio Let_def
      storage_read_keeps storage_write_other)

lemma kept_i3c_init:
  "storage_reg b a view \<Longrightarrow> a \<noteq> i3c_base p + I3C_REG_CTRL \<Longrightarrow> reg_kept view (i3c_init b p)"
  by (simp add: reg_kept_def i3c_init_def i3c_clear_tx_fifo_def i3c_clear_rx_fifo_def i3c_enable_def
      i3c_regs.md_view_other)

lemma kept_otp_init: "storage_reg b a view \<Longrightarrow> reg_kept view (otp_init b p)"
  by (simp add: reg_kept_def otp_init_def otp_poll.wait_view)

lemma kept_boot_go:
  "storage_reg b a view \<Longrightarrow> a \<noteq> mci_base m + MCI_REG_CPTRA_BOOT_GO \<Longrightarrow> reg_kept view (caliptra_boot_go b m)"
  by (simp add: reg_kept_def caliptra_boot_go_def mci_regs.wr_view_other)

lemma kept_wait_ready: "storage_reg b a view \<Longrightarrow> reg_kept view (wait_caliptra_ready b env)"
  by (simp add: reg_kept_def wait_caliptra_ready_def ready_poll.wait_view)

lemmas kept_rules = kept_bind kept_or_return kept_return kept_if kept_println kept_checkpoint
  kept_milestone kept_i3c_init kept_otp_init kept_boot_go kept_wait_ready

lemma flows_keep:
  assumes "storage_reg b a view" "a \<notin> boot_regs env"
  shows "reg_kept view (cold_boot_execute b env)" "reg_kept view (warm_boot_execute b env)"
    "reg_kept view (fw_boot_execute b env)" "reg_kept view (fw_hitless_update_execute b env)"
  using assms
  by (auto simp: cold_boot_execute_def warm_boot_execute_def fw_boot_execute_def
      fw_hitless_update_execute_def ownership_transfer_execute_def init_peripherals_def
      configure_caliptra_def boot_stubs boot_regs_def intro!: kept_rules)

lemma dispatch_keeps:
  assumes "storage_reg b a view" "a \<notin> boot_regs env" "reason \<noteq> Mci.Invalid"
  shows "reg_kept view (rom_dispatch b env reason)"
  using flows_keep [OF assms(1,2)] assms(3)
  by (cases reason) (simp_all add: rom_dispatch_def kept_bind kept_println kept_return)

text \<open>
  Where a run of the ROM leaves the flow status, by the reset reason. \<open>before\<close> and \<open>cp\<close>
  are the milestones and the checkpoint when the dispatch begins.
\<close>

inductive rom_end :: "u16 \<Rightarrow> u16 \<Rightarrow> mcu_reset_reason \<Rightarrow> u16 \<times> u16 \<Rightarrow> bool" for before cp where
  end_cold: "cold_end before r x \<Longrightarrow> rom_end before cp ColdBoot x"
| end_warm: "rom_end before cp WarmReset
    (before OR WARM_RESET_FLOW_COMPLETE, status_code WarmResetFlowComplete)"
| end_fw: "rom_end before cp FirmwareBootReset
    (before OR FIRMWARE_BOOT_FLOW_COMPLETE, status_code FirmwareBootFlowComplete)"
| end_hitless: "rom_end before cp FirmwareHitlessUpdate (before, status_code HitlessUpdateFlowComplete)"
| end_invalid: "rom_end before cp Mci.Invalid (before, cp)"

inductive_simps rom_end_simps:
  "rom_end before cp ColdBoot x" "rom_end before cp WarmReset x" "rom_end before cp FirmwareBootReset x"
  "rom_end before cp FirmwareHitlessUpdate x" "rom_end before cp Mci.Invalid x"

lemma other_flows_ok:
  "fst (run_state (warm_boot_execute b env) s) = Ok ()"
  "fst (run_state (fw_boot_execute b env) s) = Ok ()"
  "fst (run_state (fw_hitless_update_execute b env) s) = Ok ()"
  by (simp_all add: warm_boot_execute_def fw_boot_execute_def fw_hitless_update_execute_def boot_stubs)

lemma fatal_flow:
  "storage_reg b (flow_addr rom_env) view \<Longrightarrow>
     flow_of view (snd (run_state (fatal_error b e) s)) = flow_of view s"
  by (simp add: fatal_error_def fatal_error_raw_def emulator_fatal_error_def set_fw_fatal_error_def
      flow_of_def frame run_mmio mci_regs.wr_view_other storage_write_other reg_offsets)

lemma dispatch_flow:
  assumes st: "storage_reg b (flow_addr rom_env) view"
  shows "rom_end (fst (flow_of view s)) (snd (flow_of view s)) reason
    (flow_of view (snd (run_state (rom_dispatch b rom_env reason) s)))"
proof (cases reason)
  case ColdBoot
  then show ?thesis
    using cold_boot_ends [OF st rom_env_apart, of "snd (run_state (sayln ''[mcu-rom] Cold boot detected'') s)"]
    by (auto simp: rom_dispatch_def flow_println rom_end_simps)
next
  case Invalid
  then show ?thesis
    by (simp add: rom_dispatch_def flow_println fatal_flow [OF st] rom_end_simps)
qed (simp_all add: rom_dispatch_def flow_println rom_end_simps other_flows_ok
    warm.flow_ok [OF st rom_env_apart] fw.flow_ok [OF st rom_env_apart]
    hitless.flow_ok [OF st rom_env_apart])

lemma rom_start_flow:
  assumes "storage_reg b (mci_base (env_mci rom_env) + MCI_REG_FW_FLOW_STATUS) view"
    and "storage_reg b (mci_base (env_mci rom_env) + MCI_REG_RESET_REASON) reason_view"
  shows "fst (run_state (rom_start b params) s) = Looping \<and>
    rom_end (fst (flow_of view s) OR ROM_STARTED) (snd (flow_of view s))
      (reset_reason_of (reason_view (hw s))) (flow_of view (snd (run_state (rom_start b params) s)))"
proof -
  have apart: "mci_base (env_mci rom_env) + MCI_REG_RESET_REASON \<noteq> flow_addr rom_env"
    by (simp add: reg_offsets)
  let ?s1 = "before_dispatch b s"
  define s2 where "s2 = snd (run_state (reset_reason_enum b (env_mci rom_env)) ?s1)"
  have r: "fst (run_state (reset_reason_enum b (env_mci rom_env)) ?s1) = reset_reason_of (reason_view (hw s))"
    using banner_other [OF assms(2) apart, of s]
    by (simp add: reset_reason_enum_def reset_reason_def mci_regs.rd_storage [OF assms(2)])
  have "flow_of view s2 = (fst (flow_of view s) OR ROM_STARTED, snd (flow_of view s))"
    using banner_flow [OF assms(1), of s] mci_regs.rd_view [OF assms(1)]
    by (simp add: s2_def reset_reason_enum_def reset_reason_def flow_of_def)
  then show ?thesis
    using dispatch_flow [OF assms(1), where reason = "reset_reason_of (reason_view (hw s))" and s = s2] r
    by (simp add: rom_start_run s2_def [symmetric] dispatch_outcome)
qed

section \<open>Properties\<close>

text \<open>
  C1. The ROM never returns, and on a flow status register and a reset reason register that
  store what is written, the reset reason decides where it ends: a cold boot in one of its
  three endings, the other flows with their completion recorded, and an invalid reason with
  nothing but the ROM-started milestone.
\<close>

theorem rom_start_ends:
  assumes "storage_reg b (mci_base (env_mci rom_env) + MCI_REG_FW_FLOW_STATUS) view"
    and "storage_reg b (mci_base (env_mci rom_env) + MCI_REG_RESET_REASON) reason_view"
  shows "fst (run_state (rom_start b params) s) = Looping \<and>
    rom_end (fst (flow_of view s) OR ROM_STARTED) (snd (flow_of view s))
      (reset_reason_of (reason_view (hw s))) (flow_of view (snd (run_state (rom_start b params) s)))"
  by (rule rom_start_flow [OF assms])

theorem rom_start_ends_witness:
  "flow_of (\<lambda>h. h (flow_addr rom_env)) (snd (run_state (rom_start ram_bus main_parameters)
     (start_mach ((\<lambda>_. 0)(0x21000030 := 1))))) = (0x41, 388)"
proof -
  have "rom_end (0 OR ROM_STARTED) 0 WarmReset (flow_of (\<lambda>h. h (flow_addr rom_env))
      (snd (run_state (rom_start ram_bus main_parameters) (start_mach ((\<lambda>_. 0)(0x21000030 := 1))))))"
    using rom_start_ends [OF ram_storage ram_storage, where params = main_parameters and s = "start_mach ((\<lambda>_. 0)(0x21000030 := 1))"]
    by (simp add: reg_offsets flow_of_def flow_abs_def high_half_def low_half_def reset_reason_of_def)
  then show ?thesis
    by (simp add: rom_end_simps reg_offsets status_code.simps)
qed






text \<open>
  The emulator's fatal error handler does not reach the fatal error register: it writes
  the code to the exit port and to the address that the MCI driver uses for the period of
  watchdog timer 2. Without a handler the ROM writes the fatal error register itself.
\<close>

theorem fatal_error_destination:
  "fst (run_state (fatal_error b e) s) = (Looping :: unit outcome) \<and>
   trace (snd (run_state (fatal_error b e :: (_, unit outcome) io) s)) = trace s @
     (if g_fatal_handler s
      then [Wr (mci_base (env_mci rom_env) + MCI_REG_WDT_TIMER2_TIMEOUT_PERIOD_0) (error_code e),
            Wr EMULATOR_EXIT_ADDR (error_code e)]
      else [Wr (mci_base (env_mci rom_env) + MCI_REG_FW_ERROR_FATAL) (error_code e)])"
  by (simp add: fatal_error_def fatal_outcome fatal_trace_handler fatal_trace_no_handler
      fatal_addr_is_wdt(1) del: rom_env_bases)

text \<open>
  \<^verbatim>\<open>set_axi_users\<close> returns for every array of five users and writes, in this
  order and nothing else: user and lock of each mailbox slot that has one, the fuse user
  and its lock, the TRNG user and its lock, and the DMA user.
\<close>

theorem set_axi_users_writes:
  assumes "length (mbox_users users) = 5"
  shows "fst (run_state (set_axi_users b c users) s) = Returned () \<and>
    (\<exists>es. trace (snd (run_state (set_axi_users b c users) s)) = trace s @ es \<and>
      writes es = user_writes c 0 (mbox_users users) @
        [(soc_base c + CPTRA_FUSE_VALID_AXI_USER, fuse_user users),
         (soc_base c + CPTRA_FUSE_AXI_USER_LOCK, 1),
         (soc_base c + CPTRA_TRNG_VALID_AXI_USER, trng_user users),
         (soc_base c + CPTRA_TRNG_AXI_USER_LOCK, 1),
         (soc_base c + SS_CALIPTRA_DMA_AXI_USER, dma_user users)])"
proof -
  have "fst (run_state (set_mbox_users b c 0 (mbox_users users)) s) = Returned ()"
    and "\<exists>es. trace (snd (run_state (set_mbox_users b c 0 (mbox_users users)) s)) = trace s @ es \<and>
      writes es = user_writes c 0 (mbox_users users)"
    using set_mbox_users_run [of 0 "mbox_users users" b c s] assms by simp_all
  then show ?thesis
    by (auto simp: set_axi_users_def set_cptra_fuse_valid_axi_user_def set_cptra_fuse_axi_user_lock_def
        set_cptra_trng_valid_axi_user_def set_cptra_trng_axi_user_lock_def
        set_ss_caliptra_dma_axi_user_def soc_regs.wr_trace frame)
qed

theorem set_axi_users_writes_witness:
  "fst (run_state (set_axi_users ram_bus \<lparr>soc_base = 0x30030000\<rparr>
     \<lparr>mbox_users = [Some 1, None, Some 3, None, None], fuse_user = 4, trng_user = 5, dma_user = 6\<rparr>)
     (start_mach (\<lambda>_. 0))) = Returned ()"
  using set_axi_users_writes [of "\<lparr>mbox_users = [Some 1, None, Some 3, None, None], fuse_user = 4,
      trng_user = 5, dma_user = 6\<rparr>" ram_bus "\<lparr>soc_base = 0x30030000\<rparr>" "start_mach (\<lambda>_. 0)"] by simp

end
