(* ===== verification/RomSystem.thy ===== *)
theory RomSystem
  imports RomProofs
begin

text \<open>
  The remaining operations of \<^verbatim>\<open>Soc\<close> and the program from \<^verbatim>\<open>main\<close> on:
  fuse population with its silent failure, the wait for the firmware, and what a run shows
  at the exit port of the emulator.
\<close>

section \<open>Fuse population\<close>

definition fuse_writes :: "soc \<Rightarrow> event list" where
  "fuse_writes c =
     [Wr (soc_base c + SS_UDS_SEED_BASE_ADDR_L) 0, Wr (soc_base c + SS_UDS_SEED_BASE_ADDR_H) 0,
      Wr (soc_base c + SS_STRAP_GENERIC_BASE) 0x160000, Wr (soc_base c + (SS_STRAP_GENERIC_BASE + 4)) 0x60,
      Wr (soc_base c + FUSE_PQC_KEY_TYPE) 1]"

text \<open>The part before the OTP read.\<close>

definition fuses_fixed :: "'h bus \<Rightarrow> soc \<Rightarrow> ('h, unit) io" where
  "fuses_fixed b c = do {
     sayln ''[mcu-fuse-write] Setting UDS/FE base address'';
     soc_write_reg b c SS_UDS_SEED_BASE_ADDR_L 0;
     soc_write_reg b c SS_UDS_SEED_BASE_ADDR_H 0;
     sayln ''[mcu-fuse-write] Setting DAI idle bit offset and direct access cmd reg offset'';
     soc_write_reg b c SS_STRAP_GENERIC_BASE (push_bit 16 OTP_DAI_IDLE_BIT_OFFSET);
     soc_write_reg b c (SS_STRAP_GENERIC_BASE + 4) OTP_DIRECT_ACCESS_CMD_REG_OFFSET;
     soc_write_reg b c FUSE_PQC_KEY_TYPE (ucast MLDSA_CALIPTRA_VALUE);
     sayln ''[mcu-fuse-write] Setting vendor PQC type'' }"

lemma populate_parts:
  "run_state (soc_populate_fuses b c p m) s =
     run_state (do {
       r \<leftarrow> otp_read_word b p 0;
       case r of Inl e \<Rightarrow> return () | Inr v \<Rightarrow> soc_write_reg b c FUSE_FMC_KEY_MANIFEST_SVN v })
     (snd (run_state (fuses_fixed b c) s))"
  by (simp add: soc_populate_fuses_def fuses_fixed_def)

lemma fuses_fixed_trace: "trace (snd (run_state (fuses_fixed b c) s)) = trace s @ fuse_writes c"
  by (simp add: fuses_fixed_def fuse_writes_def soc_regs.wr_trace frame)
    (simp add: reg_offsets)

section \<open>The wait for the firmware\<close>

definition fatal_writes :: "bool \<Rightarrow> mcu_error \<Rightarrow> event list" where
  "fatal_writes handler e =
     (if handler then [Wr EMULATOR_FATAL_ADDR (error_code e), Wr EMULATOR_EXIT_ADDR (error_code e)]
      else [Wr (mci_base (env_mci rom_env) + MCI_REG_FW_ERROR_FATAL) (error_code e)])"

lemma fatal_error_trace:
  "trace (snd (run_state (fatal_error b e) s)) = trace s @ fatal_writes (g_fatal_handler s) e"
  by (simp add: fatal_error_def fatal_writes_def fatal_trace_handler fatal_trace_no_handler)

lemma fatal_error_loops: "fst (run_state (fatal_error b e) s) = Looping"
  by (simp add: fatal_error_def fatal_outcome)

text \<open>The runs of the wait: with its fuel, its accesses and its outcome.\<close>

inductive ready_run :: "soc \<Rightarrow> bool \<Rightarrow> nat \<Rightarrow> event list \<Rightarrow> unit outcome \<Rightarrow> bool" for c handler where
  run_out: "ready_run c handler 0 [] NoFuel"
| run_ready: "w AND FW_EXEC_CTRL_FW_READY \<noteq> 0 \<Longrightarrow>
    ready_run c handler (Suc n) [Rd (soc_base c + SS_GENERIC_FW_EXEC_CTRL_0) w] (Returned ())"
| run_fatal: "w AND FW_EXEC_CTRL_FW_READY = 0 \<Longrightarrow> e \<noteq> 0 \<Longrightarrow>
    ready_run c handler (Suc n)
      ([Rd (soc_base c + SS_GENERIC_FW_EXEC_CTRL_0) w, Rd (soc_base c + CPTRA_FW_ERROR_FATAL) e] @
        fatal_writes handler BOOT_FAILED) Looping"
| run_again: "w AND FW_EXEC_CTRL_FW_READY = 0 \<Longrightarrow> ready_run c handler n es r \<Longrightarrow>
    ready_run c handler (Suc n)
      (Rd (soc_base c + SS_GENERIC_FW_EXEC_CTRL_0) w # Rd (soc_base c + CPTRA_FW_ERROR_FATAL) 0 # es) r"

inductive_cases ready_returnedE: "ready_run c handler n es (Returned ())"
inductive_cases ready_loopingE: "ready_run c handler n es Looping"

lemma soc_read_state:
  "snd (run_state (soc_read_reg b c off) s) =
     s\<lparr>hw := snd (bus_read b (soc_base c + off) (hw s)),
       trace := trace s @ [Rd (soc_base c + off) (fst (run_state (soc_read_reg b c off) s))]\<rparr>"
  by (simp add: io_defs run_mmio)

text \<open>One round reads both registers, whatever the first one says.\<close>

lemma wait_round:
  obtains w e s1 s2 where "trace s1 = trace s @ [Rd (soc_base c + SS_GENERIC_FW_EXEC_CTRL_0) w]"
    and "trace s2 = trace s @ [Rd (soc_base c + SS_GENERIC_FW_EXEC_CTRL_0) w,
      Rd (soc_base c + CPTRA_FW_ERROR_FATAL) e]"
    and "g_fatal_handler s2 = g_fatal_handler s"
    and "run_state (wait_for_firmware_ready (Suc fuel) b c m) s =
      (if w AND FW_EXEC_CTRL_FW_READY \<noteq> 0 then (Returned (), s1)
       else if e \<noteq> 0 then run_state (fatal_error b BOOT_FAILED)
         (snd (run_state (sayln ''[mcu-rom] Caliptra reported a fatal error'') s2))
       else run_state (wait_for_firmware_ready fuel b c m) s2)"
proof
  let ?s1 = "snd (run_state (soc_read_reg b c SS_GENERIC_FW_EXEC_CTRL_0) s)"
  let ?w = "fst (run_state (soc_read_reg b c SS_GENERIC_FW_EXEC_CTRL_0) s)"
  let ?s2 = "snd (run_state (soc_read_reg b c CPTRA_FW_ERROR_FATAL) ?s1)"
  let ?e = "fst (run_state (soc_read_reg b c CPTRA_FW_ERROR_FATAL) ?s1)"
  show "trace ?s1 = trace s @ [Rd (soc_base c + SS_GENERIC_FW_EXEC_CTRL_0) ?w]"
    "trace ?s2 = trace s @ [Rd (soc_base c + SS_GENERIC_FW_EXEC_CTRL_0) ?w,
      Rd (soc_base c + CPTRA_FW_ERROR_FATAL) ?e]"
    "g_fatal_handler ?s2 = g_fatal_handler s"
    by (simp_all add: soc_read_state)
  show "run_state (wait_for_firmware_ready (Suc fuel) b c m) s =
      (if ?w AND FW_EXEC_CTRL_FW_READY \<noteq> 0 then (Returned (), ?s1)
       else if ?e \<noteq> 0 then run_state (fatal_error b BOOT_FAILED)
         (snd (run_state (sayln ''[mcu-rom] Caliptra reported a fatal error'') ?s2))
       else run_state (wait_for_firmware_ready fuel b c m) ?s2)"
    by (simp add: fw_ready_def cptra_fw_fatal_error_def)
qed

lemma wait_for_firmware_run:
  "\<exists>es. trace (snd (run_state (wait_for_firmware_ready fuel b c m) s)) = trace s @ es \<and>
     ready_run c (g_fatal_handler s) fuel es (fst (run_state (wait_for_firmware_ready fuel b c m) s))"
proof (induction fuel arbitrary: s)
  case 0
  show ?case by (auto intro: run_out)
next
  case (Suc fuel)
  obtain w e s1 s2 where tr: "trace s1 = trace s @ [Rd (soc_base c + SS_GENERIC_FW_EXEC_CTRL_0) w]"
    "trace s2 = trace s @ [Rd (soc_base c + SS_GENERIC_FW_EXEC_CTRL_0) w,
      Rd (soc_base c + CPTRA_FW_ERROR_FATAL) e]"
    and keep: "g_fatal_handler s2 = g_fatal_handler s"
    and run: "run_state (wait_for_firmware_ready (Suc fuel) b c m) s =
      (if w AND FW_EXEC_CTRL_FW_READY \<noteq> 0 then (Returned (), s1)
       else if e \<noteq> 0 then run_state (fatal_error b BOOT_FAILED)
         (snd (run_state (sayln ''[mcu-rom] Caliptra reported a fatal error'') s2))
       else run_state (wait_for_firmware_ready fuel b c m) s2)"
    by (rule wait_round)
  consider "w AND FW_EXEC_CTRL_FW_READY \<noteq> 0" | "w AND FW_EXEC_CTRL_FW_READY = 0" "e \<noteq> 0"
    | "w AND FW_EXEC_CTRL_FW_READY = 0" "e = 0" by blast
  then show ?case
  proof cases
    case 1
    then show ?thesis using run tr by (auto intro: run_ready)
  next
    case 2
    with run run_fatal [OF 2, of c "g_fatal_handler s" fuel] show ?thesis
      by (auto simp: fatal_error_loops fatal_error_trace frame tr keep)
  next
    case 3
    obtain es where "trace (snd (run_state (wait_for_firmware_ready fuel b c m) s2)) = trace s2 @ es"
      "ready_run c (g_fatal_handler s) fuel es (fst (run_state (wait_for_firmware_ready fuel b c m) s2))"
      using Suc.IH [of s2] keep by auto
    with 3 run tr show ?thesis
      using run_again [OF 3(1)] by (simp del: wait_for_firmware_ready.simps)
  qed
qed

section \<open>The whole program\<close>

lemma banner_handler: "g_fatal_handler (before_dispatch b s) = g_fatal_handler s"
  by (simp add: before_dispatch_def rom_banner_def frame reset_reason_def device_lifecycle_state_def
      set_flow_milestone_run Let_def run_mmio generic_input_wires_def io_defs)

lemma reset_reason_handler:
  "g_fatal_handler (snd (run_state (reset_reason_enum b m) s)) = g_fatal_handler s"
  by (simp add: reset_reason_enum_def reset_reason_def io_defs run_mmio)

text \<open>What \<^verbatim>\<open>main\<close> installs before it starts the ROM.\<close>

definition installed :: "'h mach \<Rightarrow> 'h mach" where
  "installed s = s\<lparr>g_writer := True, g_fatal_handler := True\<rparr>"

lemma rom_main_run: "run_state (rom_main b) s = run_state (rom_start b main_parameters) (installed s)"
  by (simp add: rom_main_def run_set_printer set_fatal_error_handler_def installed_def)

lemma fatal_exit_view:
  "storage_reg b EMULATOR_EXIT_ADDR view \<Longrightarrow> g_fatal_handler s \<Longrightarrow>
     view (hw (snd (run_state (fatal_error b e) s))) = error_code e"
  by (simp add: fatal_error_def fatal_error_raw_def emulator_fatal_error_def run_mmio storage_write)

lemma exit_addr_apart:
  "EMULATOR_EXIT_ADDR \<notin> boot_regs rom_env" "EMULATOR_EXIT_ADDR \<noteq> flow_addr rom_env"
  by (simp_all add: boot_regs_def reg_offsets)

section \<open>Properties\<close>

text \<open>
  C28. \<^verbatim>\<open>Soc::populate_fuses\<close> writes the five fixed fuse registers and reads one OTP
  word by the access protocol; only if that read succeeds is the key manifest SVN written.
  A failed read is not reported: the register keeps what it held.
\<close>

theorem populate_fuses_protocol:
  "\<exists>es r. otp_read_run p 0 es r \<and>
     trace (snd (run_state (soc_populate_fuses b c p m) s)) = trace s @ fuse_writes c @ es @
       (case r of Inl e \<Rightarrow> [] | Inr v \<Rightarrow> [Wr (soc_base c + FUSE_FMC_KEY_MANIFEST_SVN) v])"
proof -
  let ?s = "snd (run_state (fuses_fixed b c) s)"
  obtain es where es: "trace (snd (run_state (otp_read_word b p 0) ?s)) = trace ?s @ es"
    "otp_read_run p 0 es (fst (run_state (otp_read_word b p 0) ?s))"
    using otp_read_word_run by blast
  then show ?thesis
    by (intro exI [of _ es] exI [of _ "fst (run_state (otp_read_word b p 0) ?s)"])
      (simp add: populate_parts fuses_fixed_trace soc_regs.wr_trace split: sum.splits)
qed

text \<open>
  C27. \<^verbatim>\<open>wait_for_firmware_ready\<close> alternates reads of the execution control and of
  Caliptra's fatal error register. It returns only on a set ready bit, having written
  nothing, and on a reported fatal error it ends in the fatal error handler with
  \<^verbatim>\<open>BOOT_FAILED\<close>; until one of the two it goes on.
\<close>

theorem firmware_wait_protocol:
  "\<exists>es. trace (snd (run_state (wait_for_firmware_ready fuel b c m) s)) = trace s @ es \<and>
     ready_run c (g_fatal_handler s) fuel es (fst (run_state (wait_for_firmware_ready fuel b c m) s))"
  by (rule wait_for_firmware_run)

text \<open>
  C5. From \<^verbatim>\<open>main\<close> on, the exit port of the emulator is written exactly when the
  reset reason is invalid, with the code of that error; every other run, successful or not,
  leaves it alone.
\<close>

theorem exit_port_shows_invalid_reset:
  assumes "storage_reg b EMULATOR_EXIT_ADDR exit_view"
    and "storage_reg b (mci_base (env_mci rom_env) + MCI_REG_RESET_REASON) reason_view"
  shows "fst (run_state (rom_main b) s) = Looping \<and>
    exit_view (hw (snd (run_state (rom_main b) s))) =
      (if reset_reason_of (reason_view (hw s)) = Mci.Invalid then error_code BOOT_INVALID_RESET_REASON
       else exit_view (hw s))"
proof -
  let ?s1 = "before_dispatch b (installed s)" and ?m = "env_mci rom_env"
  let ?s2 = "snd (run_state (reset_reason_enum b ?m) ?s1)"
  have apart: "mci_base ?m + MCI_REG_RESET_REASON \<noteq> flow_addr rom_env" by (simp add: reg_offsets)
  have r: "fst (run_state (reset_reason_enum b ?m) ?s1) = reset_reason_of (reason_view (hw s))"
    using banner_other [OF assms(2) apart, of "installed s"]
    by (simp add: reset_reason_enum_def reset_reason_def mci_regs.rd_storage [OF assms(2)] installed_def)
  have s2: "exit_view (hw ?s2) = exit_view (hw s)" "g_fatal_handler ?s2"
    using banner_other [OF assms(1) exit_addr_apart(2), of "installed s"] mci_regs.rd_view [OF assms(1)]
    by (simp_all add: reset_reason_enum_def reset_reason_def installed_def)
      (simp add: reset_reason_handler [unfolded reset_reason_enum_def reset_reason_def, simplified]
        banner_handler)
  have run: "run_state (rom_main b) s =
      run_state (rom_dispatch b rom_env (reset_reason_of (reason_view (hw s)))) ?s2"
    by (simp add: rom_main_run rom_start_run r)
  show ?thesis
  proof (cases "reset_reason_of (reason_view (hw s)) = Mci.Invalid")
    case True
    then show ?thesis
      using s2 by (simp add: run rom_dispatch_def fatal_exit_view [OF assms(1)] frame
          fatal_error_loops)
  next
    case False
    then show ?thesis
      using dispatch_keeps [OF assms(1) exit_addr_apart(1) False] s2
      by (simp add: run reg_kept_def dispatch_outcome)
  qed
qed

theorem exit_port_shows_invalid_reset_witness:
  "hw (snd (run_state (rom_main ram_bus) (start_mach ((\<lambda>_. 0)(0x21000030 := 3))))) 0x10002000 = 0x701"
  using exit_port_shows_invalid_reset [OF ram_storage ram_storage, of "start_mach ((\<lambda>_. 0)(0x21000030 := 3))"]
  by (simp add: reg_offsets reset_reason_of_def error_code.simps)

end
