(* ===== verification/RomAccess.thy ===== *)
theory RomAccess
  imports RomSystem
begin

text \<open>
  What the whole program can touch. The boot flows are confined to the registers they are
  written for, with a bound on the number of accesses, and so is every run of
  \<^verbatim>\<open>main\<close>: not one fuse, lifecycle, or mailbox command register is written.
\<close>

section \<open>The registers of the boot flows\<close>

definition boot_reads :: "rom_env \<Rightarrow> u32 set" where
  "boot_reads env =
     {flow_addr env, i3c_base (env_i3c env) + I3C_REG_CTRL, otp_base (env_otp env) + OTP_REG_STATUS,
      soc_mbox_addr (env_soc_manager env) + MBOX_STATUS}"

definition banner_reads :: "rom_env \<Rightarrow> u32 set" where
  "banner_reads env = (\<lambda>off. mci_base (env_mci env) + off) `
     {MCI_REG_SECURITY_STATE, MCI_REG_FW_FLOW_STATUS, MCI_REG_RESET_REASON,
      MCI_REG_GENERIC_INPUT_WIRES_BASE, MCI_REG_GENERIC_INPUT_WIRES_BASE + 4}"

definition rom_reads :: "u32 set" where
  "rom_reads = boot_reads rom_env \<union> banner_reads rom_env"

definition rom_writes :: "u32 set" where
  "rom_writes = boot_regs rom_env \<union> {EMULATOR_FATAL_ADDR, EMULATOR_EXIT_ADDR}"

text \<open>The same sets as numbers.\<close>

lemma rom_reads_eq:
  "rom_reads = {0x21000000, 0x21000008, 0x21000030, 0x21000400, 0x21000404, 0x20004000, 0x70000000, 0x30020014}"
  by (auto simp: rom_reads_def boot_reads_def banner_reads_def reg_offsets)

lemma rom_writes_eq: "rom_writes = {0x21000004, 0x21000008, 0x20004000, 0x21000020, 0x10002000}"
  by (auto simp: rom_writes_def boot_regs_def reg_offsets)

section \<open>The steps of the flows\<close>

lemma confined_delay [confine]: "confined b R W 0 delay"
  by (rule confined_silent) (simp add: run_delay)

lemma confined_checkpoint [confine]:
  "flow_addr env \<in> R \<Longrightarrow> flow_addr env \<in> W \<Longrightarrow> confined b R W 2 (checkpoint b env st)"
  unfolding checkpoint_def set_flow_checkpoint_def flow_milestone_def flow_status_def
    set_flow_status_def io_defs
  by (rule confined_mono, (rule confine | assumption)+) simp

lemma confined_milestone [confine]:
  "flow_addr env \<in> R \<Longrightarrow> flow_addr env \<in> W \<Longrightarrow> confined b R W 2 (milestone b env ms)"
  unfolding milestone_def set_flow_milestone_def flow_status_def set_flow_status_def io_defs
  by (rule confined_mono, (rule confine | assumption)+) simp

lemma confined_i3c_init [confine]:
  "i3c_base p + I3C_REG_CTRL \<in> R \<Longrightarrow> i3c_base p + I3C_REG_CTRL \<in> W \<Longrightarrow>
     confined b R W 10 (i3c_init b p)"
  unfolding i3c_init_def i3c_clear_tx_fifo_def i3c_clear_rx_fifo_def i3c_enable_def io_defs
  by (rule confined_mono, (rule confine | assumption)+) simp

lemma confined_otp_init [confine]:
  "otp_base p + OTP_REG_STATUS \<in> R \<Longrightarrow> confined b R W 10000 (otp_init b p)"
  using otp_poll.wait_confined [of p R b W OTP_TIMEOUT_CYCLES]
  by (simp add: otp_init_def otp_timeout_budget)

lemma confined_wait_ready [confine]:
  "soc_mbox_addr (env_soc_manager env) + MBOX_STATUS \<in> R \<Longrightarrow>
     confined b R W 100000 (wait_caliptra_ready b env)"
  using ready_poll.wait_confined [of "env_soc_manager env" R b W 100000]
  by (simp add: wait_caliptra_ready_def poll_budget_def)

lemma confined_boot_go [confine]:
  "mci_base m + MCI_REG_CPTRA_BOOT_GO \<in> W \<Longrightarrow> confined b R W 1 (caliptra_boot_go b m)"
  unfolding caliptra_boot_go_def io_defs by (rule confine)

section \<open>The flows\<close>

lemma boot_regs_in:
  "flow_addr env \<in> boot_reads env" "i3c_base (env_i3c env) + I3C_REG_CTRL \<in> boot_reads env"
  "otp_base (env_otp env) + OTP_REG_STATUS \<in> boot_reads env"
  "soc_mbox_addr (env_soc_manager env) + MBOX_STATUS \<in> boot_reads env"
  "flow_addr env \<in> boot_regs env" "i3c_base (env_i3c env) + I3C_REG_CTRL \<in> boot_regs env"
  "mci_base (env_mci env) + MCI_REG_CPTRA_BOOT_GO \<in> boot_regs env"
  by (simp_all add: boot_reads_def boot_regs_def)

lemma confined_ownership [confine]:
  "confined b (boot_reads env) (boot_regs env) 12 (ownership_transfer_execute b env)"
  unfolding ownership_transfer_execute_def boot_stubs
  by (rule confined_mono, (rule confine boot_regs_in)+) simp

lemma confined_cold:
  "confined b (boot_reads env) (boot_regs env) 110049 (cold_boot_execute b env)"
  unfolding cold_boot_execute_def init_peripherals_def configure_caliptra_def boot_stubs
  by (rule confined_mono, (rule confine boot_regs_in)+) simp

lemma confined_short_flows:
  "confined b (boot_reads env) (boot_regs env) 6 (warm_boot_execute b env)"
  "confined b (boot_reads env) (boot_regs env) 8 (fw_boot_execute b env)"
  "confined b (boot_reads env) (boot_regs env) 4 (fw_hitless_update_execute b env)"
  unfolding warm_boot_execute_def fw_boot_execute_def fw_hitless_update_execute_def boot_stubs
  by (rule confined_mono, (rule confine boot_regs_in)+, simp)+

text \<open>The two recovery flows, which the ROM does not dispatch to, and any sequence of flows.\<close>

lemma confined_recovery:
  "confined b (boot_reads env) (boot_regs env) 6 (execute_flash_recovery b env)"
  "confined b (boot_reads env) (boot_regs env) 10 (execute_i3c_recovery b env)"
  unfolding execute_flash_recovery_def execute_i3c_recovery_def boot_stubs
  by (rule confined_mono, (rule confine boot_regs_in)+, simp)+

lemma confined_call: "confined b (boot_reads env) (boot_regs env) 110049 (call_flow b env c)"
  using confined_cold [of b env] confined_short_flows [of b env] confined_ownership [of b env]
    confined_recovery [of b env]
  by (cases c) (auto intro: confined_mono)

lemma confined_calls:
  "confined b (boot_reads env) (boot_regs env) (length cs * 110049) (call_flows b env cs)"
proof (induction cs)
  case (Cons c cs)
  from confined_bind [OF confined_call [of b env c] Cons.IH] show ?case
    by (simp add: confined_mono)
qed (simp add: confined_return)

section \<open>The program\<close>

lemma rom_sets_in:
  "mci_base (env_mci rom_env) + MCI_REG_SECURITY_STATE \<in> rom_reads"
  "mci_base (env_mci rom_env) + MCI_REG_FW_FLOW_STATUS \<in> rom_reads"
  "mci_base (env_mci rom_env) + MCI_REG_RESET_REASON \<in> rom_reads"
  "mci_base (env_mci rom_env) + (MCI_REG_GENERIC_INPUT_WIRES_BASE + 0 * 4) \<in> rom_reads"
  "mci_base (env_mci rom_env) + (MCI_REG_GENERIC_INPUT_WIRES_BASE + 1 * 4) \<in> rom_reads"
  "flow_addr rom_env \<in> rom_writes" "EMULATOR_FATAL_ADDR \<in> rom_writes" "EMULATOR_EXIT_ADDR \<in> rom_writes"
  by (simp_all add: rom_reads_def rom_writes_def banner_reads_def boot_regs_def)

lemma confined_wires [confine]:
  "mci_base m + (MCI_REG_GENERIC_INPUT_WIRES_BASE + i * 4) \<in> R \<Longrightarrow>
     confined b R W 1 (generic_input_wires b m i)"
  unfolding generic_input_wires_def io_defs
  by (rule confined_mono, (rule confine | assumption)+) simp

lemma confined_lifecycle_name [confine]: "confined b R W 0 (print_lifecycle d)"
  by (cases d) (simp_all add: print_lifecycle_def confined_println)

lemma confined_banner: "confined b rom_reads rom_writes 6 (rom_banner b rom_env)"
  unfolding rom_banner_def device_lifecycle_state_def reset_reason_def set_flow_milestone_def
    flow_status_def set_flow_status_def mci_read_reg_def mci_write_reg_def
  by (rule confined_mono, (rule confine rom_sets_in)+) simp

lemma confined_reset_reason [confine]:
  "mci_base m + MCI_REG_RESET_REASON \<in> R \<Longrightarrow> confined b R W 1 (reset_reason_enum b m)"
  unfolding reset_reason_enum_def reset_reason_def io_defs
  by (rule confined_mono, (rule confine | assumption)+) simp

lemmas confined_flows = confined_cold confined_short_flows

lemma flow_in_rom:
  "confined b (boot_reads rom_env) (boot_regs rom_env) n m \<Longrightarrow> confined b rom_reads rom_writes n m"
  by (rule confined_sets) (auto simp: rom_reads_def rom_writes_def)

lemma confined_exit:
  "confined b rom_reads rom_writes 2 (emulator_fatal_error b code)"
  unfolding emulator_fatal_error_def
  by (rule confined_mono, (rule confine rom_sets_in)+) simp

text \<open>With the handler installed, the dispatch is its flows and the exit of the emulator.\<close>

definition dispatch_installed :: "'h bus \<Rightarrow> mcu_reset_reason \<Rightarrow> ('h, unit outcome) io" where
  "dispatch_installed b reason =
     (if reason = Mci.Invalid then do {
        sayln ''[mcu-rom] Invalid reset reason: multiple bits set'';
        emulator_fatal_error b (error_code BOOT_INVALID_RESET_REASON) }
      else rom_dispatch b rom_env reason)"

lemma dispatch_installed_run:
  "g_fatal_handler s \<Longrightarrow> run_state (rom_dispatch b rom_env r) s = run_state (dispatch_installed b r) s"
  by (simp add: dispatch_installed_def rom_dispatch_def fatal_error_def fatal_error_raw_def frame)

lemma confined_flow_dispatch:
  "reason \<noteq> Mci.Invalid \<Longrightarrow> confined b rom_reads rom_writes 110049 (rom_dispatch b rom_env reason)"
  using confined_flows [of b rom_env, THEN flow_in_rom]
  by (cases reason)
    (auto simp: rom_dispatch_def intro!: confined_mono [OF confined_bind [OF confined_println
        confined_bind [OF _ confined_return]]])

lemma confined_dispatch: "confined b rom_reads rom_writes 110049 (dispatch_installed b reason)"
  using confined_flow_dispatch
  by (auto simp: dispatch_installed_def intro!: confined_mono [OF confined_bind [OF confined_println confined_exit]])

lemma rom_main_installed:
  "run_state (rom_main b) s = run_state (do {
     set_printer True;
     set_fatal_error_handler True;
     sayln ''[mcu-rom] Hello from CPP ROM'';
     rom_banner b rom_env;
     r \<leftarrow> reset_reason_enum b (env_mci rom_env);
     dispatch_installed b r }) s"
proof -
  let ?s1 = "before_dispatch b (s\<lparr>g_writer := True, g_fatal_handler := True\<rparr>)"
  have "g_fatal_handler (snd (run_state (reset_reason_enum b (env_mci rom_env)) ?s1))"
    by (simp add: reset_reason_handler banner_handler)
  then show ?thesis
    by (simp add: rom_main_def rom_start_def run_set_printer set_fatal_error_handler_def
        before_dispatch_def dispatch_installed_run)
qed

lemma confined_set_handler [confine]: "confined b R W 0 (set_fatal_error_handler h)"
  by (rule confined_silent) (simp add: set_fatal_error_handler_def)

lemma confined_rom_main: "confined b rom_reads rom_writes 110056 (rom_main b)"
  unfolding confined_cong [OF arg_cong [where f = snd, OF rom_main_installed]]
  by (rule confined_mono, (rule confine confined_banner confined_dispatch rom_sets_in)+) simp

section \<open>Properties\<close>


end
