(* ===== verification/Isolation.thy ===== *)
theory Isolation
  imports RomAccess
begin

text \<open>
  What the program can learn from the hardware. Two hardware states that answer alike on a
  set of registers, and go on doing so, cannot be told apart by a program that only reads
  those: it makes the same accesses, prints the same text and comes to the same result.
\<close>

section \<open>Hardware that looks alike\<close>

definition alike :: "'h bus \<Rightarrow> u32 set \<Rightarrow> u32 set \<Rightarrow> ('h \<Rightarrow> 'h \<Rightarrow> bool) \<Rightarrow> bool" where
  "alike b R W rel \<longleftrightarrow> (\<forall>h1 h2. rel h1 h2 \<longrightarrow>
     (\<forall>a \<in> R. fst (bus_read b a h1) = fst (bus_read b a h2) \<and>
        rel (snd (bus_read b a h1)) (snd (bus_read b a h2))) \<and>
     (\<forall>a \<in> W. \<forall>v. rel (bus_write b a v h1) (bus_write b a v h2)))"

lemma alike_read: "alike b R W rel \<Longrightarrow> rel h1 h2 \<Longrightarrow> a \<in> R \<Longrightarrow>
    fst (bus_read b a h1) = fst (bus_read b a h2) \<and> rel (snd (bus_read b a h1)) (snd (bus_read b a h2))"
  and alike_write: "alike b R W rel \<Longrightarrow> rel h1 h2 \<Longrightarrow> a \<in> W \<Longrightarrow>
    rel (bus_write b a v h1) (bus_write b a v h2)"
  by (auto simp: alike_def)

lemma alike_fewer: "alike b R' W' rel \<Longrightarrow> R \<subseteq> R' \<Longrightarrow> W \<subseteq> W' \<Longrightarrow> alike b R W rel"
  unfolding alike_def by (intro allI impI conjI ballI) (simp_all add: subset_iff)

text \<open>Machines that differ in the hardware only, and there by the relation.\<close>

definition same_but_hw :: "('h \<Rightarrow> 'h \<Rightarrow> bool) \<Rightarrow> 'h mach \<Rightarrow> 'h mach \<Rightarrow> bool" where
  "same_but_hw rel s1 s2 \<longleftrightarrow> s2 = s1\<lparr>hw := hw s2\<rparr> \<and> rel (hw s1) (hw s2)"

definition blind :: "'h bus \<Rightarrow> u32 set \<Rightarrow> u32 set \<Rightarrow> ('h, 'a) io \<Rightarrow> bool" where
  "blind b R W m \<longleftrightarrow> (\<forall>rel s1 s2. alike b R W rel \<longrightarrow> same_but_hw rel s1 s2 \<longrightarrow>
     fst (run_state m s1) = fst (run_state m s2) \<and>
     same_but_hw rel (snd (run_state m s1)) (snd (run_state m s2)))"

lemma blindI:
  "(\<And>rel s h. alike b R W rel \<Longrightarrow> rel (hw s) h \<Longrightarrow>
      fst (run_state m s) = fst (run_state m (s\<lparr>hw := h\<rparr>)) \<and>
      same_but_hw rel (snd (run_state m s)) (snd (run_state m (s\<lparr>hw := h\<rparr>)))) \<Longrightarrow> blind b R W m"
  unfolding blind_def same_but_hw_def by metis

lemma blindD:
  "blind b R W m \<Longrightarrow> alike b R W rel \<Longrightarrow> same_but_hw rel s1 s2 \<Longrightarrow>
     fst (run_state m s1) = fst (run_state m s2) \<and>
     same_but_hw rel (snd (run_state m s1)) (snd (run_state m s2))"
  by (simp add: blind_def)

section \<open>The rules\<close>

named_theorems blinded \<open>rules of the judgement\<close>

lemma blind_return [blinded]: "blind b R W (return x)"
  by (simp add: blind_def)

lemma blind_bind [blinded]:
  assumes "blind b R W m" "\<And>x. blind b R W (f x)"
  shows "blind b R W (State_Monad.bind m f)"
  unfolding blind_def
proof (intro allI impI)
  fix rel s1 s2
  assume *: "alike b R W rel" "same_but_hw rel s1 s2"
  from blindD [OF assms(1) *] blindD [OF assms(2) *(1)]
  show "fst (run_state (State_Monad.bind m f) s1) = fst (run_state (State_Monad.bind m f) s2) \<and>
      same_but_hw rel (snd (run_state (State_Monad.bind m f) s1)) (snd (run_state (State_Monad.bind m f) s2))"
    by simp
qed

lemma blind_if [blinded]:
  "(c \<Longrightarrow> blind b R W m) \<Longrightarrow> (\<not> c \<Longrightarrow> blind b R W n) \<Longrightarrow> blind b R W (if c then m else n)"
  by simp

lemma blind_case_sum [blinded]:
  "(\<And>e. blind b R W (f e)) \<Longrightarrow> (\<And>a. blind b R W (g a)) \<Longrightarrow>
     blind b R W (case x of Inl e \<Rightarrow> f e | Inr a \<Rightarrow> g a)"
  by (cases x) simp_all

lemma blind_or_return [blinded]:
  "blind b R W m \<Longrightarrow> (\<And>x. blind b R W (f x)) \<Longrightarrow> blind b R W (or_return m f)"
  unfolding or_return_def by (intro blind_bind blind_case_sum blind_return)

lemma blind_let [blinded]: "blind b R W (f x) \<Longrightarrow> blind b R W (Let x f)"
  by simp

lemma blind_read [blinded]: "a \<in> R \<Longrightarrow> blind b R W (mmio_read b a)"
  by (rule blindI) (use alike_read in \<open>fastforce simp: run_mmio same_but_hw_def\<close>)

lemma blind_write [blinded]: "a \<in> W \<Longrightarrow> blind b R W (mmio_write b a v)"
  by (rule blindI) (simp add: run_mmio same_but_hw_def alike_write)

lemma blind_print [blinded]: "blind b R W (print str)"
  by (rule blindI) (simp add: run_print same_but_hw_def)

lemma blind_println [blinded]: "blind b R W (println str)"
  by (rule blindI) (simp add: run_println same_but_hw_def)

lemma blind_hex [blinded]: "blind b R W (print_hex_word v)"
  by (rule blindI) (simp add: run_print_hex_word same_but_hw_def)

lemma blind_delay [blinded]: "blind b R W delay"
  by (rule blindI) (simp add: run_delay same_but_hw_def)

lemma blind_set_printer [blinded]: "blind b R W (set_printer w)"
  by (rule blindI) (simp add: run_set_printer same_but_hw_def)

lemma blind_set_handler [blinded]: "blind b R W (set_fatal_error_handler w)"
  by (rule blindI) (simp add: set_fatal_error_handler_def same_but_hw_def)

lemma blind_cong: "(\<And>s. run_state m s = run_state m' s) \<Longrightarrow> blind b R W m' \<Longrightarrow> blind b R W m"
  by (simp add: blind_def)

lemma blind_sets: "blind b R W m \<Longrightarrow> R \<subseteq> R' \<Longrightarrow> W \<subseteq> W' \<Longrightarrow> blind b R' W' m"
  unfolding blind_def using alike_fewer [of b R' W' _ R W] by blast

section \<open>The drivers\<close>

lemma blind_otp_wait: "otp_base p + OTP_REG_STATUS \<in> R \<Longrightarrow> blind b R W (otp_wait_for_idle b p t)"
proof (induction b p t rule: otp_wait_for_idle.induct)
  case (1 b p t)
  then show ?case
    by (subst otp_wait_for_idle.simps) (unfold otp_is_idle_def io_defs, (rule blinded | simp)+)
qed

lemma blind_ready_wait:
  "soc_mbox_addr c + MBOX_STATUS \<in> R \<Longrightarrow> blind b R W (wait_ready_loop b c t)"
proof (induction b c t rule: wait_ready_loop.induct)
  case (1 b c t)
  then show ?case
    by (subst wait_ready_loop.simps) (unfold is_mailbox_busy_def io_defs, (rule blinded | simp)+)
qed

lemma blind_checkpoint [blinded]:
  "flow_addr env \<in> R \<Longrightarrow> flow_addr env \<in> W \<Longrightarrow> blind b R W (checkpoint b env st)"
  unfolding checkpoint_def set_flow_checkpoint_def flow_milestone_def flow_status_def
    set_flow_status_def io_defs
  by (rule blinded | assumption)+

lemma blind_milestone [blinded]:
  "flow_addr env \<in> R \<Longrightarrow> flow_addr env \<in> W \<Longrightarrow> blind b R W (milestone b env ms)"
  unfolding milestone_def set_flow_milestone_def flow_status_def set_flow_status_def io_defs
  by (rule blinded | assumption)+

lemma blind_i3c_init [blinded]:
  "i3c_base p + I3C_REG_CTRL \<in> R \<Longrightarrow> i3c_base p + I3C_REG_CTRL \<in> W \<Longrightarrow> blind b R W (i3c_init b p)"
  unfolding i3c_init_def i3c_clear_tx_fifo_def i3c_clear_rx_fifo_def i3c_enable_def io_defs
  by (rule blinded | assumption)+

lemma blind_otp_init [blinded]: "otp_base p + OTP_REG_STATUS \<in> R \<Longrightarrow> blind b R W (otp_init b p)"
  unfolding otp_init_def by (rule blind_otp_wait)

lemma blind_wait_ready [blinded]:
  "soc_mbox_addr (env_soc_manager env) + MBOX_STATUS \<in> R \<Longrightarrow> blind b R W (wait_caliptra_ready b env)"
  unfolding wait_caliptra_ready_def by (rule blind_ready_wait)

lemma blind_boot_go [blinded]:
  "mci_base m + MCI_REG_CPTRA_BOOT_GO \<in> W \<Longrightarrow> blind b R W (caliptra_boot_go b m)"
  unfolding caliptra_boot_go_def io_defs by (rule blinded)

section \<open>The flows and the program\<close>

lemma blind_ownership [blinded]:
  "blind b (boot_reads env) (boot_regs env) (ownership_transfer_execute b env)"
  unfolding ownership_transfer_execute_def boot_stubs
  by (rule blinded boot_regs_in)+

lemma blind_flows:
  "blind b (boot_reads env) (boot_regs env) (cold_boot_execute b env)"
  "blind b (boot_reads env) (boot_regs env) (warm_boot_execute b env)"
  "blind b (boot_reads env) (boot_regs env) (fw_boot_execute b env)"
  "blind b (boot_reads env) (boot_regs env) (fw_hitless_update_execute b env)"
  unfolding cold_boot_execute_def init_peripherals_def configure_caliptra_def warm_boot_execute_def
    fw_boot_execute_def fw_hitless_update_execute_def boot_stubs
  by (rule blinded boot_regs_in)+

lemma blind_in_rom: "blind b (boot_reads rom_env) (boot_regs rom_env) m \<Longrightarrow> blind b rom_reads rom_writes m"
  by (rule blind_sets) (auto simp: rom_reads_def rom_writes_def)

lemma blind_dispatch [blinded]: "blind b rom_reads rom_writes (dispatch_installed b reason)"
proof -
  note flows = blind_flows [of b rom_env, THEN blind_in_rom]
  have "blind b rom_reads rom_writes (rom_dispatch b rom_env reason)" if "reason \<noteq> Mci.Invalid"
    using that by (cases reason) (auto simp: rom_dispatch_def intro!: blinded flows)
  moreover have "blind b rom_reads rom_writes (emulator_fatal_error b code :: (_, unit outcome) io)" for code
    unfolding emulator_fatal_error_def by (rule blinded rom_sets_in)+
  ultimately show ?thesis
    by (auto simp: dispatch_installed_def intro!: blind_bind blind_println)
qed

lemma blind_lifecycle_name [blinded]: "blind b R W (print_lifecycle d)"
  by (cases d) (simp_all add: print_lifecycle_def blind_println)

lemma blind_wires [blinded]:
  "mci_base m + (MCI_REG_GENERIC_INPUT_WIRES_BASE + i * 4) \<in> R \<Longrightarrow> blind b R W (generic_input_wires b m i)"
  unfolding generic_input_wires_def io_defs by (rule blinded | assumption)+

lemma blind_banner [blinded]: "blind b rom_reads rom_writes (rom_banner b rom_env)"
  unfolding rom_banner_def device_lifecycle_state_def reset_reason_def set_flow_milestone_def
    flow_status_def set_flow_status_def mci_read_reg_def mci_write_reg_def
  by (rule blinded rom_sets_in)+

lemma blind_reset_reason [blinded]:
  "mci_base m + MCI_REG_RESET_REASON \<in> R \<Longrightarrow> blind b R W (reset_reason_enum b m)"
  unfolding reset_reason_enum_def reset_reason_def io_defs by (rule blinded | assumption)+

lemma blind_rom_main: "blind b rom_reads rom_writes (rom_main b)"
  by (rule blind_cong [OF rom_main_installed]) (rule blinded rom_sets_in)+

text \<open>
  Two memories that agree on the registers the ROM reads, whatever else they hold. The
  registers it writes may differ before, and may still after.
\<close>

definition agree_on :: "u32 set \<Rightarrow> (u32 \<Rightarrow> u32) \<Rightarrow> (u32 \<Rightarrow> u32) \<Rightarrow> bool" where
  "agree_on A h1 h2 \<longleftrightarrow> (\<forall>a \<in> A. h1 a = h2 a)"

lemma ram_alike: "alike ram_bus R W (agree_on R)"
  by (simp add: alike_def agree_on_def)

section \<open>Properties\<close>

text \<open>
  C7. A run of \<^verbatim>\<open>main\<close> learns nothing but what the eight registers it reads tell
  it: on two hardware states that answer alike there, and stay alike under the ROM's own
  accesses, it makes the same accesses with the same values, prints the same text and
  leaves states that are alike. The contents of the fuses, of the lifecycle controller and
  of the mailbox have no influence on the ROM.
\<close>

theorem rom_main_blind:
  assumes "alike b
      {0x21000000, 0x21000008, 0x21000030, 0x21000400, 0x21000404, 0x20004000, 0x70000000, 0x30020014}
      {0x21000004, 0x21000008, 0x20004000, 0x21000020, 0x10002000} rel"
    and "rel (hw s) h"
  shows "let s1 = snd (run_state (rom_main b) s); s2 = snd (run_state (rom_main b) (s\<lparr>hw := h\<rparr>))
    in trace s1 = trace s2 \<and> uart s1 = uart s2 \<and> rel (hw s1) (hw s2)"
proof -
  have "same_but_hw rel s (s\<lparr>hw := h\<rparr>)" using assms(2) by (simp add: same_but_hw_def)
  from blindD [OF blind_rom_main [unfolded rom_reads_eq rom_writes_eq] assms(1) this]
  have *: "snd (run_state (rom_main b) (s\<lparr>hw := h\<rparr>)) =
      snd (run_state (rom_main b) s)\<lparr>hw := hw (snd (run_state (rom_main b) (s\<lparr>hw := h\<rparr>)))\<rparr>"
    "rel (hw (snd (run_state (rom_main b) s))) (hw (snd (run_state (rom_main b) (s\<lparr>hw := h\<rparr>))))"
    by (simp_all add: same_but_hw_def)
  have "trace (snd (run_state (rom_main b) (s\<lparr>hw := h\<rparr>))) = trace (snd (run_state (rom_main b) s))"
    "uart (snd (run_state (rom_main b) (s\<lparr>hw := h\<rparr>))) = uart (snd (run_state (rom_main b) s))"
    by (subst *(1), simp)+
  with *(2) show ?thesis by (simp add: Let_def)
qed

theorem rom_main_blind_witness:
  "trace (snd (run_state (rom_main ram_bus) (start_mach (\<lambda>_. 0)))) =
   trace (snd (run_state (rom_main ram_bus) (start_mach ((\<lambda>_. 0)(0x70000400 := 7, 0x30020000 := 1)))))"
  using rom_main_blind [OF ram_alike, of "start_mach (\<lambda>_. 0)" "(\<lambda>_. 0)(0x70000400 := 7, 0x30020000 := 1)"]
  by (simp add: agree_on_def Let_def start_mach_def)

end
