(* ===== verification/PowerOn.thy ===== *)
theory PowerOn
  imports Isolation Startup
begin

text \<open>
  From reset to the loop the ROM ends in: the startup code of theory Startup, then
  \<^verbatim>\<open>main\<close> of theory Rom on the memory it leaves, and the path of an exception from
  its entry to the fatal error handler. The core and the hardware on the bus are one state.
\<close>

section \<open>The core and the bus\<close>

text \<open>\<^verbatim>\<open>mscratch\<close> belongs to the core, which the startup code writes; everything else is on the bus.\<close>

definition core_bus :: "'h bus \<Rightarrow> (core \<times> 'h) bus" where
  "core_bus b = \<lparr>
     bus_read = (\<lambda>a x. (fst (bus_read b a (snd x)), (fst x, snd (bus_read b a (snd x))))),
     bus_write = (\<lambda>a v x. (fst x, bus_write b a v (snd x))),
     bus_csr = (\<lambda>r x. if r = Mscratch then (csr_mscratch (fst x), x)
                else (fst (bus_csr b r (snd x)), (fst x, snd (bus_csr b r (snd x)))))\<rparr>"

lemma core_bus_sel [simp]:
  "bus_read (core_bus b) a x = (fst (bus_read b a (snd x)), (fst x, snd (bus_read b a (snd x))))"
  "bus_write (core_bus b) a v x = (fst x, bus_write b a v (snd x))"
  "bus_csr (core_bus b) Mscratch x = (csr_mscratch (fst x), x)"
  "r \<noteq> Mscratch \<Longrightarrow> bus_csr (core_bus b) r x = (fst (bus_csr b r (snd x)), (fst x, snd (bus_csr b r (snd x))))"
  by (simp_all add: core_bus_def)

definition on_core :: "(core \<Rightarrow> core) \<Rightarrow> (core \<times> 'h, unit) io" where
  "on_core f = State (\<lambda>s. ((), s\<lparr>hw := (f (fst (hw s)), snd (hw s))\<rparr>))"

lemma run_on_core [simp]: "run_state (on_core f) s = ((), s\<lparr>hw := (f (fst (hw s)), snd (hw s))\<rparr>)"
  by (simp add: on_core_def)

section \<open>The code\<close>

text \<open>
  The addresses the linker gives to the three global pointers. Their declarations
  initialise them with the null pointer, so they are in .bss.
\<close>

record global_symbols =
  WRITER_AT :: u32
  EXITER_AT :: u32
  HANDLER_AT :: u32

definition main_mach :: "global_symbols \<Rightarrow> core \<times> 'h \<Rightarrow> (core \<times> 'h) mach" where
  "main_mach g x = \<lparr>hw = x, trace = [], uart = [],
     g_writer = (lw (ram (fst x)) (WRITER_AT g) \<noteq> 0),
     g_exiter = (lw (ram (fst x)) (EXITER_AT g) \<noteq> 0),
     g_fatal_handler = (lw (ram (fst x)) (HANDLER_AT g) \<noteq> 0),
     soc_counter = 0\<rparr>"

text \<open>An exception: the entry saves the stack pointer and calls the handler.\<close>

definition trap :: "symbols \<Rightarrow> 'h bus \<Rightarrow> u32 \<Rightarrow> (core \<times> 'h, unit outcome) io" where
  "trap y b ra = do {
     on_core (exception_entry y);
     exception_handler (core_bus b) ra }"

text \<open>
  From \<^verbatim>\<open>_start\<close> on. After the call of \<^verbatim>\<open>main\<close> nothing keeps the core from
  running into the exception entry, which follows in the same section.
\<close>

definition power_on :: "symbols \<Rightarrow> global_symbols \<Rightarrow> 'h bus \<Rightarrow> u32 \<Rightarrow> core \<Rightarrow> 'h \<Rightarrow>
    (unit outcome \<times> (core \<times> 'h) mach) option" where
  "power_on y g b ra c h = (case start y c of
       None \<Rightarrow> None
     | Some c' \<Rightarrow> Some (run_state (do {
         r \<leftarrow> rom_main (core_bus b);
         case r of
           Returned _ \<Rightarrow> do { on_core after_main; trap y b ra }
         | _ \<Rightarrow> return r }) (main_mach g (c', h))))"

section \<open>The machine \<^verbatim>\<open>main\<close> starts on\<close>

definition globals_in_bss :: "symbols \<Rightarrow> global_symbols \<Rightarrow> bool" where
  "globals_in_bss y g \<longleftrightarrow> list_all (\<lambda>a. BSS_START y \<le> a \<and> a \<le> a + 3 \<and> a + 3 < BSS_END y)
     [WRITER_AT g, EXITER_AT g, HANDLER_AT g]"

lemma word_in_range: "lo \<le> a \<Longrightarrow> a \<le> a + 3 \<Longrightarrow> a + 3 < hi \<Longrightarrow> i \<le> 3 \<Longrightarrow> lo \<le> a + i \<and> a + i < hi"
  for a :: u32
  using word_plus_mono_right [of i 3 a] word_plus_mono_right2 [of a 3 i]
  by (blast intro: order_trans order_le_less_trans)

lemma lw_bss:
  assumes "laid_out y" "BSS_START y \<le> a" "a \<le> a + 3" "a + 3 < BSS_END y"
  shows "lw (main_memory y m) a = 0"
proof -
  have "main_memory y m (a + i) = 0" if "i \<le> 3" for i
    using word_in_range [OF assms(2-4) that] main_memory_bss [OF assms(1)] by blast
  from this [of 0] this [of 1] this [of 2] this [of 3] show ?thesis by (simp add: lw_def)
qed

definition started_core :: "symbols \<Rightarrow> core \<Rightarrow> core" where
  "started_core y c = c\<lparr>reg_gp := GLOBAL_POINTER y, reg_sp := STACK_TOP y,
     csr_mtvec := EXCEPTION_ENTRY y, csr_mrac := MRAC_VALUE y, ram := main_memory y (ram c)\<rparr>"

text \<open>All three pointers are null: it is the machine the theorems on \<^verbatim>\<open>main\<close> start on.\<close>

lemma main_starts_fresh:
  "laid_out y \<Longrightarrow> globals_in_bss y g \<Longrightarrow>
     main_mach g (started_core y c, h) = start_mach (started_core y c, h)"
  by (simp add: main_mach_def start_mach_def globals_in_bss_def started_core_def lw_bss)

lemma rom_main_loops: "fst (run_state (rom_main b) s) = Looping"
  by (simp add: rom_main_run rom_start_run dispatch_outcome)

lemma power_on_run:
  assumes "laid_out y" "globals_in_bss y g"
  shows "power_on y g b ra c h =
    Some (Looping, snd (run_state (rom_main (core_bus b)) (start_mach (started_core y c, h))))"
  using main_starts_fresh [OF assms, of c h]
    rom_main_loops [of "core_bus b" "start_mach (started_core y c, h)"]
  by (simp add: power_on_def start_memory [OF assms(1)] started_core_def [symmetric] case_prod_beta
      prod_eq_iff)

section \<open>The core during a run\<close>

lemma core_kept: "bus_run (core_bus b) x es x' \<Longrightarrow> fst x' = fst x"
  by (induction rule: bus_run.induct) auto

lemma rom_main_keeps_core: "fst (hw (snd (run_state (rom_main (core_bus b)) s))) = fst (hw s)"
  by (rule confinedD [OF confined_rom_main]) (auto simp: moved_def dest: core_kept)

lemma core_alike: "alike (core_bus b) R W (\<lambda>x1 x2. snd x1 = snd x2)"
  by (simp add: alike_def)

lemma storage_core: "storage_reg b a view \<Longrightarrow> storage_reg (core_bus b) a (\<lambda>x. view (snd x))"
  by (simp add: storage_reg_def)

text \<open>What the core holds does not matter to \<^verbatim>\<open>main\<close>.\<close>

lemma rom_main_core_blind:
  "let s1 = snd (run_state (rom_main (core_bus b)) (start_mach (c1, h)));
       s2 = snd (run_state (rom_main (core_bus b)) (start_mach (c2, h)))
   in trace s1 = trace s2 \<and> uart s1 = uart s2 \<and> snd (hw s1) = snd (hw s2)"
proof -
  let ?run = "\<lambda>c. snd (run_state (rom_main (core_bus b)) (start_mach (c, h)))"
  have "same_but_hw (\<lambda>x1 x2. snd x1 = snd x2) (start_mach (c1, h)) (start_mach (c2, h))"
    by (simp add: same_but_hw_def start_mach_def)
  from blindD [OF blind_rom_main core_alike this]
  have "?run c2 = ?run c1\<lparr>hw := hw (?run c2)\<rparr>" "snd (hw (?run c1)) = snd (hw (?run c2))"
    by (simp_all add: same_but_hw_def)
  moreover from this(1) have "trace (?run c2) = trace (?run c1)" "uart (?run c2) = uart (?run c1)"
    by (metis mach.select_convs(2) mach.surjective mach.update_convs(1),
        metis mach.select_convs(3) mach.surjective mach.update_convs(1))
  ultimately show ?thesis by (simp add: Let_def)
qed

section \<open>Properties\<close>


definition example_globals :: global_symbols where
  "example_globals = \<lparr>WRITER_AT = 0x40000010, EXITER_AT = 0x40000014, HANDLER_AT = 0x40000018\<rparr>"

definition blank_core :: "mem \<Rightarrow> core" where
  "blank_core m = \<lparr>reg_gp = 0, reg_sp = 0, csr_mtvec = 0, csr_mrac = 0, csr_mscratch = 0, ram = m\<rparr>"

lemma example_layout: "laid_out example_symbols" "globals_in_bss example_symbols example_globals"
  by (simp_all add: laid_out_def globals_in_bss_def example_symbols_def example_globals_def)



end
