(* ===== verification/BootHistory.thy ===== *)
theory BootHistory
  imports PowerOn
begin

text \<open>
  The machine over many resets: each one starts the firmware anew, on whatever the memory
  and the core hold, and the hardware keeps what a reset lets it keep. When that includes
  the milestones, they tell which resets there were.
\<close>

section \<open>Histories\<close>

text \<open>
  \<open>boot_history y g b ra reset why h0 rs h\<close>: from the hardware \<open>h0\<close>, resets with the
  reasons \<open>rs\<close>, each followed by a run of the ROM, lead to \<open>h\<close>. What a reset does to
  the hardware is the relation \<open>reset\<close>; \<open>why\<close> is the content of the reset reason register.
\<close>

inductive boot_history :: "symbols \<Rightarrow> global_symbols \<Rightarrow> 'h bus \<Rightarrow> u32 \<Rightarrow> ('h \<Rightarrow> 'h \<Rightarrow> bool) \<Rightarrow>
    ('h \<Rightarrow> u32) \<Rightarrow> 'h \<Rightarrow> mcu_reset_reason list \<Rightarrow> 'h \<Rightarrow> bool"
  for y g b ra reset why h0 where
  no_reset: "boot_history y g b ra reset why h0 [] h0"
| next_reset: "boot_history y g b ra reset why h0 rs h \<Longrightarrow> reset h h' \<Longrightarrow>
     power_on y g b ra c h' = Some (r, s) \<Longrightarrow>
     boot_history y g b ra reset why h0 (rs @ [reset_reason_of (why h')]) (snd (hw s))"

text \<open>What one run of the ROM does to the flow status.\<close>

lemma power_on_flow:
  assumes "laid_out y" "globals_in_bss y g"
    and st: "storage_reg b (flow_addr rom_env) view"
    and why: "storage_reg b (mci_base (env_mci rom_env) + MCI_REG_RESET_REASON) why"
    and on: "power_on y g b ra c h = Some (r, s)"
  shows "r = Looping \<and> rom_end (fst (flow_abs (view h)) OR ROM_STARTED) (snd (flow_abs (view h)))
    (reset_reason_of (why h)) (flow_abs (view (snd (hw s))))"
proof -
  let ?s = "start_mach (started_core y c, h)"
  have s: "r = Looping" "s = snd (run_state (rom_start (core_bus b) main_parameters) (installed ?s))"
    using on by (simp_all add: power_on_run [OF assms(1,2)] rom_main_run)
  show ?thesis
    using rom_start_flow [OF storage_core [OF st] storage_core [OF why], of main_parameters "installed ?s"]
    by (simp add: s flow_of_def installed_def)
qed

section \<open>What the milestones tell\<close>

definition milestones_tell :: "mcu_reset_reason list \<Rightarrow> u16 \<Rightarrow> bool" where
  "milestones_tell rs ms \<longleftrightarrow>
     (ms AND ROM_STARTED \<noteq> 0 \<longleftrightarrow> rs \<noteq> []) \<and>
     (ms AND WARM_RESET_FLOW_COMPLETE \<noteq> 0 \<longleftrightarrow> WarmReset \<in> set rs) \<and>
     (ms AND FIRMWARE_BOOT_FLOW_COMPLETE \<noteq> 0 \<longleftrightarrow> FirmwareBootReset \<in> set rs) \<and>
     (ms AND COLD_BOOT_FLOW_COMPLETE \<noteq> 0 \<longrightarrow> ms AND CPTRA_FUSES_WRITTEN \<noteq> 0) \<and>
     (ms AND CPTRA_FUSES_WRITTEN \<noteq> 0 \<longleftrightarrow> ms AND CPTRA_BOOT_GO_ASSERTED \<noteq> 0) \<and>
     (ms AND CPTRA_BOOT_GO_ASSERTED \<noteq> 0 \<longrightarrow> ColdBoot \<in> set rs) \<and>
     ms AND (RI_DOWNLOAD_COMPLETED OR FLASH_RECOVERY_FLOW_COMPLETED) = 0"

fun checkpoint_tells :: "mcu_reset_reason \<Rightarrow> u16 \<times> u16 \<Rightarrow> bool" where
  "checkpoint_tells ColdBoot x \<longleftrightarrow>
     snd x \<in> status_code ` {StrapsLoaded, FusesPopulatedToCaliptra, ColdBootFlowComplete} \<and>
     (snd x = status_code ColdBootFlowComplete \<longrightarrow> fst x AND COLD_BOOT_FLOW_COMPLETE \<noteq> 0)"
| "checkpoint_tells WarmReset x \<longleftrightarrow> snd x = status_code WarmResetFlowComplete"
| "checkpoint_tells FirmwareBootReset x \<longleftrightarrow> snd x = status_code FirmwareBootFlowComplete"
| "checkpoint_tells FirmwareHitlessUpdate x \<longleftrightarrow> snd x = status_code HitlessUpdateFlowComplete"
| "checkpoint_tells Mci.Invalid x \<longleftrightarrow> True"

definition tells :: "mcu_reset_reason list \<Rightarrow> u16 \<times> u16 \<Rightarrow> bool" where
  "tells rs x \<longleftrightarrow> milestones_tell rs (fst x) \<and> (rs \<noteq> [] \<longrightarrow> checkpoint_tells (last rs) x)"

lemma flag_or: "(x OR y) AND f \<noteq> 0 \<longleftrightarrow> x AND f \<noteq> 0 \<or> y AND f \<noteq> 0" for x y f :: u16
  by (simp add: bit.conj_disj_distrib2 or_eq_0_iff)

lemma flag_or_0: "(x OR y) AND f = 0 \<longleftrightarrow> x AND f = 0 \<and> y AND f = 0" for x y f :: u16
  using flag_or by blast

lemma rom_end_milestones:
  assumes "rom_end (ms OR ROM_STARTED) cp reason x" "milestones_tell rs ms"
  shows "milestones_tell (rs @ [reason]) (fst x)"
  using assms
proof (induction rule: rom_end.induct)
  case (end_cold r x)
  from end_cold.hyps show ?case
    using end_cold.prems by cases (auto simp: milestones_tell_def flag_or flag_or_0 reg_offsets)
qed (auto simp: milestones_tell_def flag_or flag_or_0 reg_offsets)

lemma rom_end_checkpoint: "rom_end ms cp reason x \<Longrightarrow> checkpoint_tells reason x"
proof (induction rule: rom_end.induct)
  case (end_cold r x)
  then show ?case by cases (auto simp: flag_or status_code.simps reg_offsets)
qed simp_all

lemma rom_end_tells:
  "rom_end (ms OR ROM_STARTED) cp reason x \<Longrightarrow> milestones_tell rs ms \<Longrightarrow> tells (rs @ [reason]) x"
  by (simp add: tells_def rom_end_milestones rom_end_checkpoint)

lemma history_tells:
  assumes layout: "laid_out y" "globals_in_bss y g"
    and st: "storage_reg b (flow_addr rom_env) view"
    and why: "storage_reg b (mci_base (env_mci rom_env) + MCI_REG_RESET_REASON) why"
    and keeps: "\<And>h h'. reset h h' \<Longrightarrow> high_half (view h') = high_half (view h)"
    and init: "high_half (view h0) = 0"
  shows "boot_history y g b ra reset why h0 rs h \<Longrightarrow> tells rs (flow_abs (view h))"
proof (induction rule: boot_history.induct)
  case no_reset
  then show ?case by (simp add: init tells_def milestones_tell_def flow_abs_def)
next
  case (next_reset rs h h' c r s)
  have "milestones_tell rs (fst (flow_abs (view h')))"
    using next_reset.IH keeps [OF next_reset.hyps(2)] by (simp add: tells_def flow_abs_def)
  then show ?case
    using power_on_flow [OF layout st why next_reset.hyps(3)] by (blast intro: rom_end_tells)
qed

section \<open>Properties\<close>

text \<open>
  C3. On hardware whose resets keep the milestones, the flow status is a faithful record of
  the resets since it was zero. The ROM-started, warm reset and firmware boot milestones are
  set exactly when there was a reset, a warm reset, a firmware boot reset; boot-go and fuses
  are set together and only by a cold boot, the cold boot milestone only with them, the
  download and recovery milestones never. The checkpoint names the flow of the last reset,
  unless its reason was invalid, and an incomplete cold boot is told from a complete one.
\<close>

theorem flow_status_tells_history:
  assumes "boot_history y g b ra reset why h0 rs h"
    and "laid_out y" "globals_in_bss y g"
    and "storage_reg b (mci_base (env_mci rom_env) + MCI_REG_FW_FLOW_STATUS) view"
    and "storage_reg b (mci_base (env_mci rom_env) + MCI_REG_RESET_REASON) why"
    and "\<And>h h'. reset h h' \<Longrightarrow> high_half (view h') = high_half (view h)"
    and "high_half (view h0) = 0"
  shows "tells rs (flow_abs (view h))"
  by (rule history_tells [OF assms(2-7) assms(1)])

text \<open>A reset that changes nothing but the reset reason.\<close>

definition reason_reset :: "(u32 \<Rightarrow> u32) \<Rightarrow> (u32 \<Rightarrow> u32) \<Rightarrow> bool" where
  "reason_reset h h' \<longleftrightarrow> (\<exists>r. h' = h(0x21000030 := r))"

lemma first_reset:
  assumes "reset h0 h" "power_on y g b ra c h = Some (r, s)" "reset_reason_of (why h) = reason"
  shows "boot_history y g b ra reset why h0 [reason] (snd (hw s))"
proof -
  have "boot_history y g b ra reset why h0 ([] @ [reset_reason_of (why h)]) (snd (hw s))"
    by (rule boot_history.next_reset) (rule boot_history.no_reset, fact+)
  then show ?thesis by (simp add: assms(3))
qed

lemma warm_history:
  "\<exists>h. boot_history example_symbols example_globals ram_bus 0 reason_reset (\<lambda>h. h 0x21000030) (\<lambda>_. 0)
     [WarmReset] h"
  by (rule exI, rule first_reset [where h = "(\<lambda>_. 0)(0x21000030 := 1)", OF _ power_on_run [OF example_layout]])
    (auto simp: reason_reset_def reset_reason_of_def reg_offsets)

theorem flow_status_tells_history_witness:
  "\<exists>h. boot_history example_symbols example_globals ram_bus 0 reason_reset (\<lambda>h. h 0x21000030) (\<lambda>_. 0)
     [WarmReset] h \<and> tells [WarmReset] (flow_abs (h 0x21000008))"
proof -
  obtain h where h: "boot_history example_symbols example_globals ram_bus 0 reason_reset
      (\<lambda>h. h 0x21000030) (\<lambda>_. 0) [WarmReset] h"
    using warm_history by blast
  have "tells [WarmReset] (flow_abs (h 0x21000008))"
    by (rule flow_status_tells_history [OF h example_layout, where view = "\<lambda>h. h 0x21000008"])
      (auto simp: reg_offsets ram_storage reason_reset_def high_half_def)
  with h show ?thesis by blast
qed

end
