(* ===== verification/HostBuild.thy ===== *)
theory HostBuild
  imports RomSystem
begin

text \<open>
  The host build, what the sources select when \<^verbatim>\<open>TARGET_RISCV32\<close> is not defined:
  \<^verbatim>\<open>main\<close> and the two handlers. It shares everything else with the RISC-V build;
  its writer drops what it is given.
\<close>

section \<open>The handlers\<close>

definition host_print_hex_word :: "u32 \<Rightarrow> ('h, unit) io" where
  "host_print_hex_word v = do {
     s \<leftarrow> State_Monad.get;
     hex_word_print_to (if g_writer s then Some host_writer else None) v }"

definition host_fatal_error_handler :: "u32 \<Rightarrow> ('h, 'a outcome) io" where
  "host_fatal_error_handler code = do {
     print_on host_writer (Some ''[mcu-rom] FATAL ERROR: 0x'');
     host_print_hex_word code;
     println_on host_writer (Some []);
     return Looping }"

definition host_fatal_error_raw :: "'h bus \<Rightarrow> u32 \<Rightarrow> ('h, 'a outcome) io" where
  "host_fatal_error_raw b code = do {
     s \<leftarrow> State_Monad.get;
     if g_fatal_handler s then host_fatal_error_handler code
     else do {
       set_fw_fatal_error b (env_mci rom_env) code;
       return Looping } }"

definition host_exception_handler :: "'h bus \<Rightarrow> ('h, unit outcome) io" where
  "host_exception_handler b = do {
     println_on host_writer (Some ''EXCEPTION occurred'');
     host_fatal_error_raw b (error_code GENERIC_EXCEPTION) }"

definition host_rom_panic :: "'h bus \<Rightarrow> ('h, unit outcome) io" where
  "host_rom_panic b = host_fatal_error_raw b 0"

section \<open>The program\<close>

text \<open>The arguments of \<^verbatim>\<open>main\<close> are not used.\<close>

definition host_main :: "int \<Rightarrow> string list \<Rightarrow> ('h, int) io" where
  "host_main argc argv = do {
     set_printer True;
     println_on host_writer (Some ''[mcu-rom] Host build - nop'');
     return 0 }"

text \<open>It ends at once, with the status of success, and shows nothing.\<close>

lemma host_main_run: "run_state (host_main argc argv) s = (0, s\<lparr>g_writer := True\<rparr>)"
  by (simp add: host_main_def run_set_printer run_host_println)

lemma run_host_print: "run_state (print_on host_writer str) s = ((), s)"
  by (simp add: print_on_def host_writer_def run_host_write split: option.splits)

lemma run_host_hex: "run_state (host_print_hex_word v) s = ((), s)"
  by (simp add: host_print_hex_word_def hex_word_print_to_def hex_bytes_print_to_def run_hex_bytes_host)

text \<open>
  With the handler installed a fatal error of the host build leaves no mark at all, not in
  the registers and not on the console; without it the code goes to the fatal error register.
\<close>

lemma host_fatal_silent:
  "g_fatal_handler s \<Longrightarrow> run_state (host_fatal_error_raw b code) s = (Looping, s)"
  by (simp add: host_fatal_error_raw_def host_fatal_error_handler_def run_host_print run_host_hex
      run_host_println)

lemma host_exception_run:
  "g_fatal_handler s \<Longrightarrow> run_state (host_exception_handler b) s = (Looping, s)"
  "\<not> g_fatal_handler s \<Longrightarrow>
     trace (snd (run_state (host_exception_handler b) s)) =
       trace s @ [Wr (mci_base (env_mci rom_env) + MCI_REG_FW_ERROR_FATAL) (error_code GENERIC_EXCEPTION)]"
  by (simp_all add: host_exception_handler_def run_host_println host_fatal_silent)
    (simp add: host_fatal_error_raw_def set_fw_fatal_error_def mci_regs.wr_trace)

end
