(* ===== verification/Spec2Isabelle.thy ===== *)
theory Spec2Isabelle
  imports Flags Components Startup StaticRef Veer Handles MailboxService OtpStore BootHistory HostBuild
begin

text \<open>
  Verification library of the MCU boot ROM in C++, \<^verbatim>\<open>src/\<close>.

  \<^bold>\<open>The program.\<close> The ROM runs on a RISC-V microcontroller (the MCU) next to
  the Caliptra root of trust. \<^verbatim>\<open>main\<close> installs a console writer and a fatal error
  handler and calls \<^verbatim>\<open>rom_start\<close>, which builds the environment of drivers
  (\<^verbatim>\<open>RomEnv\<close>), reads the reset reason from the MCI and runs one of four boot
  flows. The flows use the drivers for the MCI, OTP, I3C and the Caliptra mailbox, and log
  their progress as checkpoints and milestones in the flow status register of the MCI.

  \<^bold>\<open>How it is modelled.\<close> The state \<open>'h mach\<close> of theory Machine holds the
  hardware state, of an unknown type, the console, the trace of all register accesses and
  the three global pointers. A \<open>bus\<close> says what a read and a write of an address and a
  read of a CSR do to the hardware: it is a parameter of every definition that touches a
  register, so the theorems hold for any hardware, volatile registers and registers with
  side effects on reads included. What a theorem needs of a register is a named hypothesis:
  \<open>storage_reg\<close> and \<open>storage_block\<close> say that it stores what is written
  and that accesses elsewhere leave it alone. A C++ function is a definition of the same
  name over that state, its body the \<open>State_Monad\<close> code of the source; addresses,
  \<^verbatim>\<open>size_t\<close> and register values are 32-bit words and wrap. A fallible function
  returns \<open>mcu_error + 'a\<close>, which \<open>result_is_ok\<close> and its companions show to
  be what \<^verbatim>\<open>McuResult\<close> computes (theory Common).

  \<^bold>\<open>The theories.\<close>
  \<^item> Prelude: machine word types, collections of facts (\<open>reg_offsets\<close>,
    \<open>io_defs\<close>, \<open>frame\<close>) and the lemmas on words, lists and bits that the components share.
  \<^item> Common: \<^verbatim>\<open>include/common/error.hpp\<close> and \<^verbatim>\<open>types.hpp\<close>. The result
    classes with their raw storage, moves and moved-from values; the contracts of a
    result class are the locales \<open>result_core\<close> and \<open>result_api\<close>, interpreted on
    each of them.
  \<^item> Flags: \<^verbatim>\<open>include/common/bitflags.hpp\<close>, as finite sets of bit numbers.
    StaticRef: \<^verbatim>\<open>include/common/static_ref.hpp\<close>, a pointer as its address.
  \<^item> Machine: state, bus, traces; the contracts of a register block, of a block with
    read-modify-write, of a bounded polling loop and of an unbounded wait, as locales that
    every driver interprets on its own register functions.
  \<^item> Romtime, Crc8: \<^verbatim>\<open>romtime.cpp\<close> and the platform files. Console output,
    hexadecimal display, the two CRC-8 implementations, the cycle counter.
  \<^item> Access: the judgement \<open>confined\<close>, that a program touches certain registers only,
    a bounded number of times, and that its trace accounts for the hardware it leaves; one
    rule per construct of the programs.
  \<^item> Mci: \<^verbatim>\<open>romtime/src/mci.cpp\<close>. All of the driver; the flow status register
    refines a pair of milestones and checkpoint; the two mailbox user banks are one locale.
  \<^item> SocManager, Mailbox: \<^verbatim>\<open>romtime/src/soc_manager.cpp\<close>. The definitions, and
    the lemmas on the traces of a request, its completion and the response stream.
    MailboxRun: a whole successful request, access by access. Handles: programs that
    construct, move, read and destroy responses, as a step relation with its invariant.
    MailboxLock: what a request can touch, and sequences of requests on a mailbox with a lock.
    MailboxService: the abstract service with one bit of state that such sequences refine.
  \<^item> Lifecycle, Otp, I3c: the drivers of \<^verbatim>\<open>rom/src/\<close> with these names. For the
    OTP controller also a small device that serves requests, which the round trip runs on.
    OtpStore: the abstract fuse store and the refinement of it by the driver.
  \<^item> BootStatus, Fuses, Flash: \<^verbatim>\<open>boot_status.hpp\<close>, the fuse layouts and policy,
    and the flash region over an abstract driver.
  \<^item> RomEnv, BootFlows: the environment and memory map; cold boot, warm boot, firmware
    boot, hitless update, ownership transfer and recovery. \<open>boot_flow\<close> is the contract
    of a flow: which milestones it adds and which checkpoints it can end with.
  \<^item> RomParams: the parameters of \<^verbatim>\<open>rom_start\<close> and the types only they use,
    \<^verbatim>\<open>rom.hpp\<close> and \<^verbatim>\<open>image_verifier.hpp\<close>.
  \<^item> Rom, RomProofs, RomSystem: \<^verbatim>\<open>rom/src/rom.cpp\<close> and the emulator's
    \<^verbatim>\<open>main.cpp\<close>: fatal errors, the \<^verbatim>\<open>Soc\<close> registers, mailbox user
    configuration and verification, the key hash check, \<^verbatim>\<open>rom_start\<close>; then their
    lemmas and properties, up to a run of \<^verbatim>\<open>main\<close>. RomAccess: the registers
    such a run is confined to. Isolation: that what it does depends on nothing else.
  \<^item> HostBuild: the parts the sources select for a build on the host.
  \<^item> LibcStubs: \<^verbatim>\<open>platforms/emulator/rom/src/libc_stubs.cpp\<close>, over a byte
    memory; \<open>mem_copy\<close> is the contract of a copy, with \<^verbatim>\<open>memcpy\<close> and
    \<^verbatim>\<open>memmove\<close> as its instances. Startup: \<^verbatim>\<open>start.S\<close>, from reset to
    \<^verbatim>\<open>main\<close>, over the same memory.
  \<^item> PowerOn: the startup code composed with \<^verbatim>\<open>main\<close>, and the exception entry
    with its handler, on one state of core and hardware. BootHistory: that machine over any
    number of resets.
  \<^item> Capsules, Veer: the system calls and the chip support of
    \<^verbatim>\<open>runtime/kernel/\<close>. Most are placeholders in the source and are modelled as
    they stand; the delay and the interrupt switches are not. Components: the component and
    driver classes, whose \<^verbatim>\<open>init\<close> is empty.

  \<^bold>\<open>What is shown.\<close> Drivers: the exact register accesses of every operation, in
  order, on every branch (properties of the mailbox, OTP, I3C, MCI and Soc parts), their
  results, and what they leave untouched. Loops: the polling loops return within their
  bounds, the two I3C waits and the wait for the firmware return only if the hardware lets
  them. Memory: what the startup code initialises and what the C library routines copy,
  compare and measure. Data: round trips of the hexadecimal display, the lifecycle codes and
  the OTP words; CRC-8 as division by its polynomial and the agreement of its
  implementations; the mailbox checksum. Boot: where every flow ends, for any hardware behind the registers
  it does not read back, that no flow clears a milestone, and the end of
  \<^verbatim>\<open>rom_start\<close> for every reset reason, as the exit port of the emulator shows it.
  From power-on: that nothing the memory or the core held at reset matters, what an exception
  shows on the console and the ports, and that over any number of resets that keep them the
  milestones and the checkpoint tell which resets there were.
  Abstract specifications: the flow status register as a pair, the OTP driver as a store
  of fuse words that are burnt and never cleared, refusals included, and mailbox requests as
  a service that is free or taken. Limits: the registers a
  run of \<^verbatim>\<open>main\<close> and a mailbox request read and write and how often, that
  \<^verbatim>\<open>main\<close> cannot tell two machines apart that agree on what it reads, and that
  a locking mailbox serves one request.

  \<^bold>\<open>Bounds and fuel.\<close> The bounded loops keep the counters of the source and recurse
  on them: 10000 polls of the OTP status, 400000 of the mailbox status, 100000 of the
  mailbox by the cold boot; a counter that starts at 0 counts 2^32 tests, as the
  decrement of the source wraps. The waits for an I3C FIFO, for the firmware and
  of the delay system call are unbounded in the source: they take fuel, one unit per test,
  and running out of it is the outcome \<open>NoFuel\<close>, different from every result. \<open>i3c_write_completes\<close> gives
  the fuel that is enough, \<open>delay_us_returns\<close> does for a delay (100 tests per
  microsecond and one more); \<open>i3c_read_never_returns\<close> and
  \<open>host_delay_never_returns\<close> show where no fuel is. \<^verbatim>\<open>strlen\<close> of a
  string without an end is \<open>None\<close>, as is a loop of the startup code that does not end.
  An endless loop at the end of a \<^verbatim>\<open>noreturn\<close> function is the outcome
  \<open>Looping\<close>.

  \<^bold>\<open>What is not modelled.\<close> The interfaces \<^verbatim>\<open>Writer\<close>,
  \<^verbatim>\<open>FlashHil\<close>, \<^verbatim>\<open>FlashPartition\<close> and \<^verbatim>\<open>ImageVerifier\<close>
  are records of their operations and \<^verbatim>\<open>RawFuses\<close> of what its queries return;
  \<^verbatim>\<open>Exit\<close>, which nothing implements, is an argument of
  \<^verbatim>\<open>test_exit\<close>, and \<^verbatim>\<open>BootFlow\<close>, which nothing implements or calls,
  is left out, as are declarations, type aliases and two unused constants of
  \<^verbatim>\<open>main.cpp\<close>. Time is not modelled: a poll is one test however long it takes,
  and interrupts do not occur between two accesses. Of the linker script the model has the
  order of its sections, as the hypothesis \<open>laid_out\<close>, and of the core the registers
  the startup code sets.
\<close>

section \<open>Arrays keep their shape\<close>

lemma configure_loop_length [simp]:
  "length (fst (run_state (configure_loop msg wr_user lock i us) s)) = length us"
  by (induction us arbitrary: i s) auto

lemma configure_loop_locks [simp]:
  "map snd (fst (run_state (configure_loop msg wr_user lock i us) s)) =
     map (\<lambda>u. u \<noteq> None) (map fst (fst (run_state (configure_loop msg wr_user lock i us) s)))"
  by (induction us arbitrary: i s) auto

text \<open>
  A well-formed expectation: as many slots as there are mailbox users, and a lock expected
  of exactly the slots that have a user.
\<close>

definition config_wf :: "nat \<Rightarrow> nat \<Rightarrow> mcu_mbox_axi_user_config \<Rightarrow> bool" where
  "config_wf n0 n1 config \<longleftrightarrow>
     length (cfg_mbox0_users config) = n0 \<and> length (cfg_mbox1_users config) = n1 \<and>
     cfg_mbox0_locks config = map (\<lambda>u. u \<noteq> None) (cfg_mbox0_users config) \<and>
     cfg_mbox1_locks config = map (\<lambda>u. u \<noteq> None) (cfg_mbox1_users config)"

lemma configure_wf:
  "config_wf (length users0) (length users1)
     (fst (run_state (configure_mcu_mbox_axi_users b m users0 users1) s))"
  by (simp add: configure_mcu_mbox_axi_users_def config_wf_def del: map_map)

lemma i3c_read_from_length:
  "fst (run_state (i3c_read_from fuel b p result i n buf) s) = Returned (result', buf') \<Longrightarrow>
     length buf' = length buf"
  by (induction n arbitrary: result i buf s) (auto simp: run_then_run split: outcome.splits)

lemma otp_read_words_from_length:
  "length (snd (fst (run_state (otp_read_words_from b p addr i n buf) s))) = length buf"
  by (induction n arbitrary: i buf s) (auto split: sum.splits)


end
